(* ===== verification/Mabi_Prelude.thy ===== *)
theory Mabi_Prelude
  imports Main "HOL-Library.Word"
begin

text \<open>
  Shared vocabulary of the development: Rust's unsigned integers as words, the
  three-way outcome of a fallible operation (a value, an error value, a panic), the
  checked slice operations, the big- and little-endian conversions of the standard
  library, and decimal and hexadecimal text of unsigned integers.
\<close>

unbundle bit_operations_syntax

named_theorems outcome_simps \<open>unfolding rules for checked reads and the sequencing of outcomes\<close>
named_theorems wire_defs \<open>definitions of encoders and decoders\<close>


section \<open>Integers and bytes\<close>

type_synonym u8 = "8 word"
type_synonym u16 = "16 word"
type_synonym u32 = "32 word"
type_synonym u64 = "64 word"
type_synonym usize = nat
type_synonym bytes = "u8 list"

text \<open>The numeric cast \<^verbatim>\<open>as u8\<close>, \<^verbatim>\<open>as u16\<close>, \<dots> of a \<^verbatim>\<open>usize\<close> keeps the low bits.\<close>

abbreviation as_u8 :: "usize \<Rightarrow> u8" where "as_u8 n \<equiv> of_nat n"
abbreviation as_u16 :: "usize \<Rightarrow> u16" where "as_u16 n \<equiv> of_nat n"

text \<open>A value below a power of two has no bit at or above the exponent.\<close>

lemma bit_less_exp: "bit w k \<Longrightarrow> w < 2 ^ n \<Longrightarrow> k < n" for w :: "'a::len word"
proof -
  assume b: "bit w k" and "w < 2 ^ n"
  then have "w AND mask n = w" by (simp add: less_mask_eq)
  with b have "bit (w AND mask n) k" by simp
  then show "k < n" by (simp add: bit_simps)
qed

lemma word_mask_bits:
  "bit w k \<Longrightarrow> w \<le> 0x0F \<Longrightarrow> k < 4"
  "bit w k \<Longrightarrow> w \<le> 0x1F \<Longrightarrow> k < 5"
  "bit w k \<Longrightarrow> w \<le> 0x07 \<Longrightarrow> k < 3" for w :: u8
proof -
  have *: "w < 2 ^ n" if "w \<le> m" "m < 2 ^ n" for m :: u8 and n
    using that by (rule le_less_trans)
  show "bit w k \<Longrightarrow> w \<le> 0x0F \<Longrightarrow> k < 4" using bit_less_exp [of w k 4] * [of "0x0F" 4] by simp
  show "bit w k \<Longrightarrow> w \<le> 0x1F \<Longrightarrow> k < 5" using bit_less_exp [of w k 5] * [of "0x1F" 5] by simp
  show "bit w k \<Longrightarrow> w \<le> 0x07 \<Longrightarrow> k < 3" using bit_less_exp [of w k 3] * [of "0x07" 3] by simp
qed

lemma word_mask_bits16: "bit w k \<Longrightarrow> w \<le> 0x07FF \<Longrightarrow> k < 11" for w :: u16
proof -
  assume b: "bit w k" and "w \<le> 0x07FF"
  then have "w < 2 ^ 11" using le_less_trans [of w "0x07FF" "2 ^ 11"] by simp
  with b show "k < 11" by (rule bit_less_exp)
qed

text \<open>Literal masks by their bits.\<close>

lemma bit_mask_literals [simp]:
  "bit (0x03 :: int) k \<longleftrightarrow> k < 2"
  "bit (0x07 :: int) k \<longleftrightarrow> k < 3"
  "bit (0x0F :: int) k \<longleftrightarrow> k < 4"
  "bit (0x1F :: int) k \<longleftrightarrow> k < 5"
  "bit (0x3F :: int) k \<longleftrightarrow> k < 6"
  "bit (0xFF :: int) k \<longleftrightarrow> k < 8"
  "bit (0x07FF :: int) k \<longleftrightarrow> k < 11"
  "bit (0x0FFF :: int) k \<longleftrightarrow> k < 12"
proof -
  have *: "bit (2 ^ n - 1 :: int) k \<longleftrightarrow> k < n" for n
    by (simp add: bit_mask_iff flip: mask_eq_exp_minus_1)
  show "bit (0x03 :: int) k \<longleftrightarrow> k < 2" using * [of 2] by simp
  show "bit (0x07 :: int) k \<longleftrightarrow> k < 3" using * [of 3] by simp
  show "bit (0x0F :: int) k \<longleftrightarrow> k < 4" using * [of 4] by simp
  show "bit (0x1F :: int) k \<longleftrightarrow> k < 5" using * [of 5] by simp
  show "bit (0x3F :: int) k \<longleftrightarrow> k < 6" using * [of 6] by simp
  show "bit (0xFF :: int) k \<longleftrightarrow> k < 8" using * [of 8] by simp
  show "bit (0x07FF :: int) k \<longleftrightarrow> k < 11" using * [of 11] by simp
  show "bit (0x0FFF :: int) k \<longleftrightarrow> k < 12" using * [of 12] by simp
qed

lemma bit_shifted_mask_literals [simp]:
  "bit (0xF800 :: int) k \<longleftrightarrow> 11 \<le> k \<and> k < 16"
  "bit (0x0700 :: int) k \<longleftrightarrow> 8 \<le> k \<and> k < 11"
proof -
  have "bit (push_bit 11 0x1F :: int) k \<longleftrightarrow> 11 \<le> k \<and> k < 16"
    by (auto simp only: bit_push_bit_iff bit_mask_literals possible_bit_int)
  then show "bit (0xF800 :: int) k \<longleftrightarrow> 11 \<le> k \<and> k < 16" by simp
  have "bit (push_bit 8 0x07 :: int) k \<longleftrightarrow> 8 \<le> k \<and> k < 11"
    by (auto simp only: bit_push_bit_iff bit_mask_literals possible_bit_int)
  then show "bit (0x0700 :: int) k \<longleftrightarrow> 8 \<le> k \<and> k < 11" by simp
qed

lemma bit_more_masks [simp]:
  "bit (0x03FF :: int) k \<longleftrightarrow> k < 10"
  "bit (0xFFFF :: int) k \<longleftrightarrow> k < 16"
  "bit (0x7F :: int) k \<longleftrightarrow> k < 7"
proof -
  have *: "bit (2 ^ n - 1 :: int) k \<longleftrightarrow> k < n" for n
    by (simp add: bit_mask_iff flip: mask_eq_exp_minus_1)
  show "bit (0x03FF :: int) k \<longleftrightarrow> k < 10" using * [of 10] by simp
  show "bit (0xFFFF :: int) k \<longleftrightarrow> k < 16" using * [of 16] by simp
  show "bit (0x7F :: int) k \<longleftrightarrow> k < 7" using * [of 7] by simp
qed

lemma bit_power_literals [simp]:
  "bit (0x02 :: int) k \<longleftrightarrow> k = 1"
  "bit (0x04 :: int) k \<longleftrightarrow> k = 2"
  "bit (0x08 :: int) k \<longleftrightarrow> k = 3"
  "bit (0x10 :: int) k \<longleftrightarrow> k = 4"
  "bit (0x20 :: int) k \<longleftrightarrow> k = 5"
  "bit (0x40 :: int) k \<longleftrightarrow> k = 6"
  "bit (0x80 :: int) k \<longleftrightarrow> k = 7"
proof -
  have *: "bit (2 ^ n :: int) k \<longleftrightarrow> k = n" for n
    by (auto simp: bit_exp_iff)
  show "bit (0x02 :: int) k \<longleftrightarrow> k = 1" using * [of 1] by simp
  show "bit (0x04 :: int) k \<longleftrightarrow> k = 2" using * [of 2] by simp
  show "bit (0x08 :: int) k \<longleftrightarrow> k = 3" using * [of 3] by simp
  show "bit (0x10 :: int) k \<longleftrightarrow> k = 4" using * [of 4] by simp
  show "bit (0x20 :: int) k \<longleftrightarrow> k = 5" using * [of 5] by simp
  show "bit (0x40 :: int) k \<longleftrightarrow> k = 6" using * [of 6] by simp
  show "bit (0x80 :: int) k \<longleftrightarrow> k = 7" using * [of 7] by simp
qed

lemma unat_u8_less [simp]: "unat (w::u8) < 256"
  using unsigned_less [of w, where ?'a = nat] by simp

lemma unat_u16_less [simp]: "unat (w::u16) < 65536"
  using unsigned_less [of w, where ?'a = nat] by simp

lemma unat_u8_le: "unat (w::u8) \<le> 255"
  using unat_u8_less [of w] by linarith

lemma unat_u16_le: "unat (w::u16) \<le> 65535"
  using unat_u16_less [of w] by linarith

lemma unat_ucast_u8_u16 [simp]: "unat (ucast (b :: u8) :: u16) = unat b"
proof -
  have "unat b < 2 ^ 16" by (rule less_trans [OF unat_u8_less]) simp
  then show ?thesis by (simp add: unsigned_ucast_eq take_bit_nat_eq_self)
qed

lemma unat_as_u8: "n \<le> 255 \<Longrightarrow> unat (as_u8 n) = n"
  by (simp add: unat_of_nat)

lemma unat_as_u16: "n \<le> 65535 \<Longrightarrow> unat (as_u16 n) = n"
  by (simp add: unat_of_nat)


section \<open>Outcomes\<close>

text \<open>
  A Rust function returns a value, returns an error value or panics. A failed
  \<^verbatim>\<open>assert!\<close>, an index or slice out of range, a read from an exhausted buffer and an
  arithmetic overflow (in a build with overflow checks) are the \<open>Panic\<close> branch.
\<close>

datatype ('e, 'a) outcome = Ok 'a | Err 'e | Panic

fun obind :: "('e, 'a) outcome \<Rightarrow> ('a \<Rightarrow> ('e, 'b) outcome) \<Rightarrow> ('e, 'b) outcome" where
  "obind (Ok x) f = f x"
| "obind (Err e) f = Err e"
| "obind Panic f = Panic"

fun is_panic :: "('e, 'a) outcome \<Rightarrow> bool" where
  "is_panic Panic = True"
| "is_panic (Ok _) = False"
| "is_panic (Err _) = False"

fun is_ok :: "('e, 'a) outcome \<Rightarrow> bool" where
  "is_ok (Ok _) = True"
| "is_ok (Err _) = False"
| "is_ok Panic = False"

fun map_err :: "('e \<Rightarrow> 'f) \<Rightarrow> ('e, 'a) outcome \<Rightarrow> ('f, 'a) outcome" where
  "map_err g (Ok x) = Ok x"
| "map_err g (Err e) = Err (g e)"
| "map_err g Panic = Panic"

text \<open>\<^verbatim>\<open>Option::ok_or\<close>, and an operation that panics instead of returning nothing.\<close>

fun ok_or :: "'a option \<Rightarrow> 'e \<Rightarrow> ('e, 'a) outcome" where
  "ok_or (Some x) e = Ok x"
| "ok_or None e = Err e"

fun or_panic :: "'a option \<Rightarrow> ('e, 'a) outcome" where
  "or_panic (Some x) = Ok x"
| "or_panic None = Panic"

lemma obind_eq_Ok_iff: "obind m f = Ok y \<longleftrightarrow> (\<exists>x. m = Ok x \<and> f x = Ok y)"
  by (cases m) auto

lemma obind_eq_Err_iff: "obind m f = Err e \<longleftrightarrow> m = Err e \<or> (\<exists>x. m = Ok x \<and> f x = Err e)"
  by (cases m) auto

lemma obind_eq_Panic_iff: "obind m f = Panic \<longleftrightarrow> m = Panic \<or> (\<exists>x. m = Ok x \<and> f x = Panic)"
  by (cases m) auto

lemma is_panic_iff: "is_panic m \<longleftrightarrow> m = Panic"
  by (cases m) auto

lemma is_ok_iff: "is_ok m \<longleftrightarrow> (\<exists>x. m = Ok x)"
  by (cases m) auto

lemma ok_or_not_panic [simp]: "ok_or x e \<noteq> Panic"
  by (cases x) auto

lemma ok_or_eq_Ok_iff [simp]: "ok_or x e = Ok y \<longleftrightarrow> x = Some y"
  by (cases x) auto

lemma map_err_eq_Ok_iff [simp]: "map_err g m = Ok y \<longleftrightarrow> m = Ok y"
  by (cases m) auto

lemma map_err_eq_Panic_iff [simp]: "map_err g m = Panic \<longleftrightarrow> m = Panic"
  by (cases m) auto

lemma obind_assoc: "obind (obind m f) g = obind m (\<lambda>x. obind (f x) g)"
  by (cases m) auto


section \<open>Checked indexing and slicing\<close>

definition idx :: "'a list \<Rightarrow> usize \<Rightarrow> ('e, 'a) outcome" where
  "idx xs i = (if i < length xs then Ok (xs ! i) else Panic)"

definition slice_from :: "'a list \<Rightarrow> usize \<Rightarrow> ('e, 'a list) outcome" where
  "slice_from xs i = (if i \<le> length xs then Ok (drop i xs) else Panic)"

definition slice_to :: "'a list \<Rightarrow> usize \<Rightarrow> ('e, 'a list) outcome" where
  "slice_to xs i = (if i \<le> length xs then Ok (take i xs) else Panic)"

text \<open>\<^verbatim>\<open>usize\<close> subtraction: an underflow panics, or wraps to a value no slice admits.\<close>

definition usub :: "usize \<Rightarrow> usize \<Rightarrow> ('e, usize) outcome" where
  "usub a b = (if b \<le> a then Ok (a - b) else Panic)"

lemma idx_Ok [outcome_simps]: "i < length xs \<Longrightarrow> idx xs i = Ok (xs ! i)"
  by (simp add: idx_def)

lemma slice_from_Ok [outcome_simps]: "i \<le> length xs \<Longrightarrow> slice_from xs i = Ok (drop i xs)"
  by (simp add: slice_from_def)

lemma slice_to_Ok [outcome_simps]: "i \<le> length xs \<Longrightarrow> slice_to xs i = Ok (take i xs)"
  by (simp add: slice_to_def)

lemma usub_Ok [outcome_simps]: "b \<le> a \<Longrightarrow> usub a b = Ok (a - b)"
  by (simp add: usub_def)

lemma idx_not_Err [simp]: "idx xs i \<noteq> Err e"
  by (simp add: idx_def)

lemma slice_from_not_Err [simp]: "slice_from xs i \<noteq> Err e"
  by (simp add: slice_from_def)

lemma slice_to_not_Err [simp]: "slice_to xs i \<noteq> Err e"
  by (simp add: slice_to_def)

lemma usub_not_Err [simp]: "usub a b \<noteq> Err e"
  by (simp add: usub_def)


section \<open>Byte order\<close>

definition u16_of_be :: "u8 \<Rightarrow> u8 \<Rightarrow> u16" where
  "u16_of_be a b = push_bit 8 (ucast a) OR ucast b"

definition u16_be_hi :: "u16 \<Rightarrow> u8" where
  "u16_be_hi v = ucast (drop_bit 8 v)"

definition u16_be_lo :: "u16 \<Rightarrow> u8" where
  "u16_be_lo v = ucast v"

definition u16_to_be :: "u16 \<Rightarrow> bytes" where
  "u16_to_be v = [u16_be_hi v, u16_be_lo v]"

definition u16_to_le :: "u16 \<Rightarrow> bytes" where
  "u16_to_le v = [u16_be_lo v, u16_be_hi v]"

definition u32_to_be :: "u32 \<Rightarrow> bytes" where
  "u32_to_be v = u16_to_be (ucast (drop_bit 16 v)) @ u16_to_be (ucast v)"

definition u32_of_be :: "u8 \<Rightarrow> u8 \<Rightarrow> u8 \<Rightarrow> u8 \<Rightarrow> u32" where
  "u32_of_be a b c d = push_bit 16 (ucast (u16_of_be a b)) OR ucast (u16_of_be c d)"

lemma u16_of_be_split [simp]: "u16_of_be (u16_be_hi v) (u16_be_lo v) = v"
  by (rule bit_word_eqI) (auto simp: u16_of_be_def u16_be_hi_def u16_be_lo_def bit_simps)

lemma u16_be_hi_of_be [simp]: "u16_be_hi (u16_of_be a b) = a"
  by (rule bit_word_eqI) (auto simp: u16_of_be_def u16_be_hi_def bit_simps dest: bit_imp_le_length)

lemma u16_be_lo_of_be [simp]: "u16_be_lo (u16_of_be a b) = b"
  by (rule bit_word_eqI) (auto simp: u16_of_be_def u16_be_lo_def bit_simps)

lemma length_u16_to_be [simp]: "length (u16_to_be v) = 2"
  by (simp add: u16_to_be_def)

lemma length_u16_to_le [simp]: "length (u16_to_le v) = 2"
  by (simp add: u16_to_le_def)

lemma u32_of_be_split:
  "u32_to_be v = [a, b, c, d] \<Longrightarrow> u32_of_be a b c d = v"
  by (rule bit_word_eqI)
    (auto simp: u32_to_be_def u32_of_be_def u16_to_be_def bit_simps)


section \<open>Decimal text\<close>

text \<open>
  \<^verbatim>\<open>Display\<close> of an unsigned integer, and \<^verbatim>\<open>FromStr\<close>: an optional \<^verbatim>\<open>+\<close>, then at
  least one decimal digit, leading zeros allowed, an error when the value passes the
  type's maximum.
\<close>

definition digit_char :: "nat \<Rightarrow> char" where
  "digit_char d = char_of (48 + d)"

definition digit_val :: "char \<Rightarrow> nat option" where
  "digit_val c = (let n = of_char c in if 48 \<le> n \<and> n \<le> (57::nat) then Some (n - 48) else None)"

fun show_nat :: "nat \<Rightarrow> string" where
  "show_nat n = (if n < 10 then [digit_char n] else show_nat (n div 10) @ [digit_char (n mod 10)])"

declare show_nat.simps [simp del]

fun parse_digits :: "nat \<Rightarrow> nat \<Rightarrow> string \<Rightarrow> nat option" where
  "parse_digits mx acc [] = Some acc"
| "parse_digits mx acc (c # cs) =
     (case digit_val c of
        None \<Rightarrow> None
      | Some d \<Rightarrow> (if acc * 10 + d \<le> mx then parse_digits mx (acc * 10 + d) cs else None))"

definition parse_uint :: "nat \<Rightarrow> string \<Rightarrow> nat option" where
  "parse_uint mx s =
     (case s of
        [] \<Rightarrow> None
      | c # cs \<Rightarrow>
          if c = CHR ''+'' then (if cs = [] then None else parse_digits mx 0 cs)
          else parse_digits mx 0 s)"

definition parse_u8 :: "string \<Rightarrow> u8 option" where
  "parse_u8 s = map_option of_nat (parse_uint 255 s)"

definition parse_u16 :: "string \<Rightarrow> u16 option" where
  "parse_u16 s = map_option of_nat (parse_uint 65535 s)"

definition show_word :: "'a::len word \<Rightarrow> string" where
  "show_word w = show_nat (unat w)"

definition quoted :: "string \<Rightarrow> string" where
  "quoted s = CHR 0x27 # s @ [CHR 0x27]"

text \<open>The formats \<^verbatim>\<open>{:02x}\<close> and \<^verbatim>\<open>{:#04x}\<close> of a byte.\<close>

definition hex_digit :: "nat \<Rightarrow> char" where
  "hex_digit d = (if d < 10 then char_of (48 + d) else char_of (87 + d))"

definition hex_u8 :: "u8 \<Rightarrow> string" where
  "hex_u8 w = [hex_digit (unat w div 16), hex_digit (unat w mod 16)]"

definition hex_prefixed_u8 :: "u8 \<Rightarrow> string" where
  "hex_prefixed_u8 w = ''0x'' @ hex_u8 w"

lemma digit_val_digit_char [simp]: "d < 10 \<Longrightarrow> digit_val (digit_char d) = Some d"
  by (simp add: digit_val_def digit_char_def Let_def of_char_of)

definition not_digit :: "char \<Rightarrow> bool" where
  "not_digit c \<longleftrightarrow> digit_val c = None"

lemma not_digit_seps [simp]: "not_digit (CHR ''+'')" "not_digit (CHR ''.'')" "not_digit (CHR ''/'')"
  by (simp_all add: not_digit_def digit_val_def)

lemma show_nat_nonempty [simp]: "show_nat n \<noteq> []"
  by (subst show_nat.simps) simp

lemma set_show_nat [simp]: "not_digit c \<Longrightarrow> c \<notin> set (show_nat n)"
proof (induction n rule: show_nat.induct)
  case (1 n)
  have "digit_char d \<noteq> c" if "d < 10" for d
    using 1(2) that by (auto simp: not_digit_def)
  from this [of "n mod 10"] this [of n]
  have "c \<noteq> digit_char (n mod 10)" and "n < 10 \<Longrightarrow> c \<noteq> digit_char n"
    by auto
  with 1 show ?case by (subst show_nat.simps) simp
qed

lemma set_show_word [simp]: "not_digit c \<Longrightarrow> c \<notin> set (show_word w)"
  by (simp add: show_word_def)

lemma parse_digits_snoc:
  "parse_digits mx acc (xs @ [c]) =
     (case parse_digits mx acc xs of
        None \<Rightarrow> None
      | Some v \<Rightarrow> (case digit_val c of None \<Rightarrow> None
          | Some d \<Rightarrow> if v * 10 + d \<le> mx then Some (v * 10 + d) else None))"
  by (induction xs arbitrary: acc) (auto split: option.splits)

lemma parse_digits_show_nat: "n \<le> mx \<Longrightarrow> parse_digits mx 0 (show_nat n) = Some n"
proof (induction n rule: show_nat.induct)
  case (1 n)
  show ?case
  proof (cases "n < 10")
    case True
    with 1 show ?thesis by (subst show_nat.simps) simp
  next
    case False
    moreover have "n div 10 \<le> mx" using 1(2) by (meson div_le_dividend le_trans)
    ultimately have "parse_digits mx 0 (show_nat (n div 10)) = Some (n div 10)"
      using 1(1) by simp
    moreover have "n div 10 * 10 + n mod 10 = n" by simp
    ultimately show ?thesis using False 1(2)
      by (subst show_nat.simps) (simp add: parse_digits_snoc)
  qed
qed

lemma parse_uint_show_nat [simp]: "n \<le> mx \<Longrightarrow> parse_uint mx (show_nat n) = Some n"
proof -
  assume n: "n \<le> mx"
  obtain c cs where s: "show_nat n = c # cs" by (cases "show_nat n") auto
  then have "c \<noteq> CHR ''+''" using set_show_nat [of "CHR ''+''" n] by auto
  with s show ?thesis using parse_digits_show_nat [OF n] by (simp add: parse_uint_def)
qed

lemma parse_u8_show_word [simp]: "parse_u8 (show_word (w::u8)) = Some w"
proof -
  have "unat w \<le> 255" by (rule unat_u8_le)
  then show ?thesis by (simp add: parse_u8_def show_word_def)
qed

lemma parse_u16_show_word [simp]: "parse_u16 (show_word (w::u16)) = Some w"
proof -
  have "unat w \<le> 65535" by (rule unat_u16_le)
  then show ?thesis by (simp add: parse_u16_def show_word_def)
qed

text \<open>\<^verbatim>\<open>str::split\<close> on one character: \<open>n\<close> separators give \<open>n + 1\<close> parts.\<close>

fun split_on :: "char \<Rightarrow> string \<Rightarrow> string list" where
  "split_on c [] = [[]]"
| "split_on c (x # xs) =
     (if x = c then [] # split_on c xs
      else (case split_on c xs of [] \<Rightarrow> [[x]] | p # ps \<Rightarrow> (x # p) # ps))"

lemma split_on_no_sep: "c \<notin> set xs \<Longrightarrow> split_on c xs = [xs]"
  by (induction xs) auto

lemma split_on_sep: "c \<notin> set xs \<Longrightarrow> split_on c (xs @ c # ys) = xs # split_on c ys"
  by (induction xs) auto

lemma length_split_on: "length (split_on c xs) = Suc (count_list xs c)"
  by (induction xs) (auto split: list.splits)

end
