(* ===== verification/Rust_Std.thy ===== *)
theory Rust_Std
  imports Mabi_Prelude
begin

text \<open>
  More of the Rust standard library, as the Modbus and BACnet crates use it: checked and
  saturating arithmetic on 16-bit integers, half-open slices, \<^verbatim>\<open>div_ceil\<close>, a loop that
  collects results until the first error, big-endian words in a byte slice.
\<close>

section \<open>Slices and loops\<close>

definition slice_range :: "'a list \<Rightarrow> usize \<Rightarrow> usize \<Rightarrow> ('e, 'a list) outcome" where
  "slice_range xs i j = (if i \<le> j \<and> j \<le> length xs then Ok (take (j - i) (drop i xs)) else Panic)"

lemma slice_range_Ok [outcome_simps]:
  "i \<le> j \<Longrightarrow> j \<le> length xs \<Longrightarrow> slice_range xs i j = Ok (take (j - i) (drop i xs))"
  by (simp add: slice_range_def)

lemma slice_range_not_Err [simp]: "slice_range xs i j \<noteq> Err e"
  by (simp add: slice_range_def)

fun omap :: "('a \<Rightarrow> ('e, 'b) outcome) \<Rightarrow> 'a list \<Rightarrow> ('e, 'b list) outcome" where
  "omap f [] = Ok []"
| "omap f (x # xs) = obind (f x) (\<lambda>y. obind (omap f xs) (\<lambda>ys. Ok (y # ys)))"

lemma omap_Ok: "(\<And>x. x \<in> set xs \<Longrightarrow> f x = Ok (g x)) \<Longrightarrow> omap f xs = Ok (map g xs)"
  by (induction xs) auto

text \<open>\<^verbatim>\<open>for x in xs { s = f(s, x)?; }\<close>\<close>

fun ofold :: "('a \<Rightarrow> 's \<Rightarrow> ('e, 's) outcome) \<Rightarrow> 'a list \<Rightarrow> 's \<Rightarrow> ('e, 's) outcome" where
  "ofold f [] s = Ok s"
| "ofold f (x # xs) s = obind (f x s) (ofold f xs)"

lemma ofold_Ok: "(\<And>x s. x \<in> set xs \<Longrightarrow> f x s = Ok (g x s)) \<Longrightarrow> ofold f xs s = Ok (fold g xs s)"
  by (induction xs arbitrary: s) auto


section \<open>Arithmetic\<close>

definition div_ceil :: "usize \<Rightarrow> usize \<Rightarrow> usize" where
  "div_ceil a b = (if a mod b = 0 then a div b else a div b + 1)"

lemma div_ceil_8: "div_ceil n 8 = (n + 7) div 8"
proof (cases "n mod 8 = 0")
  case True
  then show ?thesis by (auto simp: div_ceil_def)
next
  case False
  then have "8 \<le> n mod 8 + 7" by simp
  moreover have "n mod 8 + 7 < 8 * 2" using mod_less_divisor [of 8 n] by linarith
  ultimately have "(n mod 8 + 7) div 8 = 1"
    by (intro div_nat_eqI) simp_all
  moreover have "(n + 7) div 8 = n div 8 + (n mod 8 + 7) div 8"
    by (metis div_mult_self4 mod_mult_div_eq add.assoc add.commute zero_neq_numeral)
  ultimately show ?thesis using False by (simp add: div_ceil_def)
qed

lemma div_ceil_2: "div_ceil n 2 = (n + 1) div 2"
  by (auto simp: div_ceil_def mod_2_eq_odd)

text \<open>
  \<^verbatim>\<open>u16\<close> addition and subtraction as written with \<^verbatim>\<open>+\<close> and \<^verbatim>\<open>-\<close>: an overflow panics in a
  build with overflow checks.
\<close>

definition u16_add :: "u16 \<Rightarrow> u16 \<Rightarrow> ('e, u16) outcome" where
  "u16_add a b = (if unat a + unat b < 65536 then Ok (a + b) else Panic)"

definition u16_sub :: "u16 \<Rightarrow> u16 \<Rightarrow> ('e, u16) outcome" where
  "u16_sub a b = (if b \<le> a then Ok (a - b) else Panic)"

definition u16_checked_add :: "u16 \<Rightarrow> u16 \<Rightarrow> u16 option" where
  "u16_checked_add a b = (if unat a + unat b < 65536 then Some (a + b) else None)"

definition u16_saturating_sub :: "u16 \<Rightarrow> u16 \<Rightarrow> u16" where
  "u16_saturating_sub a b = (if b \<le> a then a - b else 0)"

definition u16_saturating_add :: "u16 \<Rightarrow> u16 \<Rightarrow> u16" where
  "u16_saturating_add a b = (if unat a + unat b < 65536 then a + b else 0xFFFF)"

lemma unat_add_u16: "unat a + unat b < 65536 \<Longrightarrow> unat (a + b) = unat a + unat b" for a b :: u16
  by (simp add: unat_word_ariths)

lemma unat_sub_u16: "b \<le> a \<Longrightarrow> unat (a - b) = unat a - unat b" for a b :: u16
  by (rule unat_sub)


section \<open>Big-endian words in a byte slice\<close>

definition be16_at :: "bytes \<Rightarrow> usize \<Rightarrow> ('e, u16) outcome" where
  "be16_at bs i = obind (idx bs i) (\<lambda>a. obind (idx bs (i + 1)) (\<lambda>b. Ok (u16_of_be a b)))"

lemma be16_at_Ok [outcome_simps]:
  "i + 1 < length bs \<Longrightarrow> be16_at bs i = Ok (u16_of_be (bs ! i) (bs ! (i + 1)))"
  by (simp add: be16_at_def idx_def)

text \<open>\<^verbatim>\<open>chunks_exact(2)\<close> read as big-endian words, and words written one after the other.\<close>

fun be16_chunks :: "bytes \<Rightarrow> u16 list" where
  "be16_chunks (a # b # bs) = u16_of_be a b # be16_chunks bs"
| "be16_chunks _ = []"

definition be16_bytes :: "u16 list \<Rightarrow> bytes" where
  "be16_bytes vs = concat (map u16_to_be vs)"

lemma be16_bytes_simps [simp]:
  "be16_bytes [] = []"
  "be16_bytes (v # vs) = u16_be_hi v # u16_be_lo v # be16_bytes vs"
  by (simp_all add: be16_bytes_def u16_to_be_def)

lemma length_be16_bytes [simp]: "length (be16_bytes vs) = 2 * length vs"
  by (induction vs) simp_all

lemma be16_chunks_bytes [simp]: "be16_chunks (be16_bytes vs) = vs"
  by (induction vs) simp_all

lemma length_be16_chunks [simp]: "length (be16_chunks bs) = length bs div 2"
  by (induction bs rule: be16_chunks.induct) simp_all

lemma be16_bytes_chunks: "even (length bs) \<Longrightarrow> be16_bytes (be16_chunks bs) = bs"
  by (induction bs rule: be16_chunks.induct) simp_all

end
