(* ===== verification/Rust_F32.thy ===== *)
theory Rust_F32
  imports Rust_Std
begin

text \<open>
  Single-precision floating point, as much of it as the datapoint types of the KNX crate use. An \<^verbatim>\<open>f32\<close> is its
  bit pattern: the sign, eight bits of biased exponent, twenty-three bits of fraction. Arithmetic computes the
  exact result and rounds it to the nearest value, ties to the even one, as IEEE 754 prescribes; every operation
  that yields a NaN yields the same one. The conversion to an integer type truncates and saturates and takes a NaN
  to zero, as \<^verbatim>\<open>as\<close> does.

  The lemmas show that a finite number survives rounding, and that integers of up to twenty-four bits are exact.
\<close>

unbundle bit_operations_syntax

type_synonym f32 = u32
type_synonym i8 = "8 word"
type_synonym i16 = "16 word"
type_synonym i32 = "32 word"

fun bit_len :: "nat \<Rightarrow> nat" where
  "bit_len n = (if n = 0 then 0 else Suc (bit_len (n div 2)))"

declare bit_len.simps [simp del]

definition f32_negative :: "f32 \<Rightarrow> bool" where
  "f32_negative x \<longleftrightarrow> 2 ^ 31 \<le> unat x"

definition f32_magnitude :: "f32 \<Rightarrow> nat" where
  "f32_magnitude x = unat x mod 2 ^ 31"

definition f32_biased :: "f32 \<Rightarrow> nat" where
  "f32_biased x = f32_magnitude x div 2 ^ 23"

definition f32_fraction :: "f32 \<Rightarrow> nat" where
  "f32_fraction x = f32_magnitude x mod 2 ^ 23"

definition f32_is_nan :: "f32 \<Rightarrow> bool" where
  "f32_is_nan x \<longleftrightarrow> 255 * 2 ^ 23 < f32_magnitude x"

definition f32_is_inf :: "f32 \<Rightarrow> bool" where
  "f32_is_inf x \<longleftrightarrow> f32_magnitude x = 255 * 2 ^ 23"

definition f32_is_zero :: "f32 \<Rightarrow> bool" where
  "f32_is_zero x \<longleftrightarrow> f32_magnitude x = 0"

definition f32_nan :: f32 where
  "f32_nan = 0x7FC00000"

definition f32_pack :: "bool \<Rightarrow> nat \<Rightarrow> f32" where
  "f32_pack negative magnitude = of_nat ((if negative then 2 ^ 31 else 0) + magnitude)"

text \<open>A finite number is \<open>m * 2 ^ e\<close>.\<close>

definition f32_significand :: "f32 \<Rightarrow> nat" where
  "f32_significand x = (if f32_biased x = 0 then f32_fraction x else 2 ^ 23 + f32_fraction x)"

definition f32_exponent :: "f32 \<Rightarrow> int" where
  "f32_exponent x = (if f32_biased x = 0 then - 149 else int (f32_biased x) - 150)"

text \<open>The number nearest to \<open>m * 2 ^ e\<close>. The significand is cut to twenty-four bits, or to the bits above \<open>2 ^ - 149\<close>;
  a carry out of the significand runs into the exponent, as the encoding has it.\<close>

definition half_even :: "nat \<Rightarrow> nat \<Rightarrow> nat" where
  "half_even m s =
    (let q = m div 2 ^ s; r = m mod 2 ^ s in
     if s = 0 then m else if 2 ^ (s - 1) < r \<or> r = 2 ^ (s - 1) \<and> odd q then q + 1 else q)"

definition f32_round :: "bool \<Rightarrow> nat \<Rightarrow> int \<Rightarrow> f32" where
  "f32_round negative m e =
    (let q = max (e + int (bit_len m) - 24) (- 149);
         m' = (if q \<le> e then m * 2 ^ nat (e - q) else half_even m (nat (q - e)));
         magnitude = nat (q + 149) * 2 ^ 23 + m'
     in f32_pack negative (if m = 0 then 0 else if 255 * 2 ^ 23 \<le> magnitude then 255 * 2 ^ 23 else magnitude))"

definition f32_mul :: "f32 \<Rightarrow> f32 \<Rightarrow> f32" where
  "f32_mul x y =
    (let negative = (f32_negative x \<noteq> f32_negative y) in
     if f32_is_nan x \<or> f32_is_nan y \<or> f32_is_inf x \<and> f32_is_zero y \<or> f32_is_zero x \<and> f32_is_inf y then f32_nan
     else if f32_is_inf x \<or> f32_is_inf y then f32_pack negative (255 * 2 ^ 23)
     else f32_round negative (f32_significand x * f32_significand y) (f32_exponent x + f32_exponent y))"

text \<open>A quotient is computed to more bits than the significand has, with a last bit that says whether it is exact.\<close>

definition f32_div :: "f32 \<Rightarrow> f32 \<Rightarrow> f32" where
  "f32_div x y =
    (let negative = (f32_negative x \<noteq> f32_negative y); p = f32_significand x * 2 ^ 64; d = f32_significand y in
     if f32_is_nan x \<or> f32_is_nan y \<or> f32_is_inf x \<and> f32_is_inf y \<or> f32_is_zero x \<and> f32_is_zero y then f32_nan
     else if f32_is_inf x \<or> f32_is_zero y then f32_pack negative (255 * 2 ^ 23)
     else if f32_is_inf y then f32_pack negative 0
     else f32_round negative (2 * (p div d) + (if d dvd p then 0 else 1)) (f32_exponent x - f32_exponent y - 65))"

definition f32_of_int :: "int \<Rightarrow> f32" where
  "f32_of_int i = f32_round (i < 0) (nat \<bar>i\<bar>) 0"

text \<open>The literal \<open>p / q\<close>, the number nearest to it.\<close>

definition f32_lit :: "nat \<Rightarrow> nat \<Rightarrow> f32" where
  "f32_lit p q = (let n = p * 2 ^ 64 in f32_round False (2 * (n div q) + (if q dvd n then 0 else 1)) (- 65))"

definition f32_trunc :: "f32 \<Rightarrow> int" where
  "f32_trunc x =
    (let e = f32_exponent x; m = int (f32_significand x);
         t = (if 0 \<le> e then m * 2 ^ nat e else m div 2 ^ nat (- e))
     in if f32_negative x then - t else t)"

definition f32_as_int :: "int \<Rightarrow> int \<Rightarrow> f32 \<Rightarrow> int" where
  "f32_as_int lo hi x =
    (if f32_is_nan x then 0
     else if f32_is_inf x then (if f32_negative x then lo else hi)
     else max lo (min hi (f32_trunc x)))"

definition f32_as_i32 :: "f32 \<Rightarrow> int" where
  "f32_as_i32 = f32_as_int (- (2 ^ 31)) (2 ^ 31 - 1)"

definition f32_as_u8 :: "f32 \<Rightarrow> u8" where
  "f32_as_u8 x = of_int (f32_as_int 0 255 x)"

definition f32_less :: "f32 \<Rightarrow> f32 \<Rightarrow> bool" where
  "f32_less x y \<longleftrightarrow> \<not> f32_is_nan x \<and> \<not> f32_is_nan y \<and>
    (let key = (\<lambda>z. (if f32_negative z then - 1 else 1) * int (f32_magnitude z)) in key x < key y)"

definition f32_clamp :: "f32 \<Rightarrow> f32 \<Rightarrow> f32 \<Rightarrow> f32" where
  "f32_clamp lo hi x = (if f32_less x lo then lo else if f32_less hi x then hi else x)"


section \<open>Exact numbers\<close>

lemma bit_len_0 [simp]: "bit_len 0 = 0"
  by (simp add: bit_len.simps)

lemma bit_len_le: "n < 2 ^ k \<Longrightarrow> bit_len n \<le> k"
proof (induction n arbitrary: k rule: bit_len.induct)
  case (1 n)
  show ?case
  proof (cases "n = 0")
    case False
    with "1.prems" obtain j where k: "k = Suc j" by (cases k) auto
    have "n div 2 < 2 ^ j" using "1.prems" k by simp
    from "1.IH" [OF False this] show ?thesis using False k by (simp add: bit_len.simps [of n])
  qed simp
qed

lemma bit_len_ge: "2 ^ k \<le> n \<Longrightarrow> k < bit_len n"
proof (induction n arbitrary: k rule: bit_len.induct)
  case (1 n)
  have n: "n \<noteq> 0" using "1.prems" by (metis le_zero_eq power_not_zero zero_neq_numeral)
  show ?case
  proof (cases k)
    case 0
    then show ?thesis using n by (simp add: bit_len.simps [of n])
  next
    case (Suc j)
    then have "2 ^ j \<le> n div 2" using "1.prems" by simp
    from "1.IH" [OF n this] show ?thesis using Suc n by (simp add: bit_len.simps [of n])
  qed
qed

lemma bit_len_eq: "2 ^ k \<le> n \<Longrightarrow> n < 2 ^ Suc k \<Longrightarrow> bit_len n = Suc k"
  using bit_len_le [of n "Suc k"] bit_len_ge [of k n] by linarith

lemma unat_pack: "x < 2 ^ 31 \<Longrightarrow> unat (f32_pack negative x) = (if negative then 2 ^ 31 else 0) + x"
  by (simp add: f32_pack_def unat_of_nat take_bit_eq_mod del: of_nat_add)

lemma f32_pack_negative: "x < 2 ^ 31 \<Longrightarrow> f32_negative (f32_pack negative x) = negative"
  by (cases negative) (simp_all add: f32_negative_def unat_pack)

lemma f32_pack_magnitude: "x < 2 ^ 31 \<Longrightarrow> f32_magnitude (f32_pack negative x) = x"
  by (cases negative) (simp_all add: f32_magnitude_def unat_pack)

lemma f32_pack_unpack: "f32_pack (f32_negative x) (f32_magnitude x) = x"
proof -
  have "unat x < 2 ^ 32" using unsigned_less [of x, where ?'a = nat] by simp
  then have "unat x div 2 ^ 31 = (if 2 ^ 31 \<le> unat x then 1 else 0)" by (auto simp: div_nat_eqI)
  then have "(if 2 ^ 31 \<le> unat x then 2 ^ 31 else 0) + unat x mod 2 ^ 31 = unat x"
    using div_mult_mod_eq [of "unat x" "2 ^ 31"] by (simp split: if_splits)
  then show ?thesis by (simp add: f32_pack_def f32_negative_def f32_magnitude_def)
qed

text \<open>Rounding leaves every finite number as it is.\<close>

lemma f32_round_finite:
  assumes "\<not> f32_is_nan x" "\<not> f32_is_inf x"
  shows "f32_round (f32_negative x) (f32_significand x) (f32_exponent x) = x"
proof -
  let ?b = "f32_biased x" and ?f = "f32_fraction x"
  have mag: "f32_magnitude x = ?b * 2 ^ 23 + ?f" by (simp add: f32_biased_def f32_fraction_def)
  have f: "?f < 2 ^ 23" by (simp add: f32_fraction_def)
  have b: "?b < 255" using assms by (auto simp: f32_is_nan_def f32_is_inf_def f32_biased_def)
  show ?thesis
  proof (cases "?b = 0")
    case True
    have "bit_len ?f \<le> 23" using f by (rule bit_len_le)
    then have "f32_round (f32_negative x) ?f (- 149) = f32_pack (f32_negative x) (f32_magnitude x)"
      using True f mag by (simp add: f32_round_def Let_def)
    then show ?thesis using True by (simp add: f32_significand_def f32_exponent_def f32_pack_unpack)
  next
    case False
    have "bit_len (2 ^ 23 + ?f) = 24" using f bit_len_eq [of 23 "2 ^ 23 + ?f"] by simp
    moreover have "nat (int ?b - 1) * 2 ^ 23 + (2 ^ 23 + ?f) = f32_magnitude x" using False mag by (cases ?b) simp_all
    moreover have "f32_magnitude x < 255 * 2 ^ 23" using b f mag by simp
    ultimately have "f32_round (f32_negative x) (2 ^ 23 + ?f) (int ?b - 150) = f32_pack (f32_negative x) (f32_magnitude x)"
      using False by (cases "?b = 1") (simp_all add: f32_round_def Let_def max_def)
    then show ?thesis using False by (simp add: f32_significand_def f32_exponent_def f32_pack_unpack)
  qed
qed

text \<open>Integers of up to twenty-four bits are exact, and so are their products.\<close>

lemma bit_len_bounds:
  assumes "0 < n"
  shows "2 ^ (bit_len n - 1) \<le> n" "n < 2 ^ bit_len n" "0 < bit_len n"
proof -
  show "0 < bit_len n" using assms by (simp add: bit_len.simps)
  then show "2 ^ (bit_len n - 1) \<le> n" using bit_len_le [of n "bit_len n - 1"] by linarith
  show "n < 2 ^ bit_len n" using bit_len_ge [of "bit_len n" n] by linarith
qed

lemma shifted_bounds:
  assumes "0 < n" "n < 2 ^ 24"
  shows "2 ^ 23 \<le> n * 2 ^ (24 - bit_len n)" "n * 2 ^ (24 - bit_len n) < 2 ^ 24" "bit_len n \<le> 24"
proof -
  show le: "bit_len n \<le> 24" using assms(2) by (rule bit_len_le)
  note b = bit_len_bounds [OF assms(1)]
  have "2 ^ (bit_len n - 1) * 2 ^ (24 - bit_len n) \<le> n * 2 ^ (24 - bit_len n)" by (rule mult_le_mono1) (rule b)
  moreover have "(2::nat) ^ (bit_len n - 1) * 2 ^ (24 - bit_len n) = 2 ^ 23"
    using b le by (simp add: power_add [symmetric])
  ultimately show "2 ^ 23 \<le> n * 2 ^ (24 - bit_len n)" by linarith
  have "n * 2 ^ (24 - bit_len n) < 2 ^ bit_len n * 2 ^ (24 - bit_len n)" using b by simp
  also have "\<dots> = (2::nat) ^ 24" using le by (simp add: power_add [symmetric])
  finally show "n * 2 ^ (24 - bit_len n) < 2 ^ 24" .
qed

lemma f32_round_nat:
  assumes "0 < n" "n < 2 ^ 24"
  shows "f32_round s n 0 = f32_pack s ((125 + bit_len n) * 2 ^ 23 + n * 2 ^ (24 - bit_len n))"
proof -
  let ?l = "bit_len n"
  note b = bit_len_bounds [OF assms(1)] and sh = shifted_bounds [OF assms]
  have q: "max (0 + int ?l - 24) (- 149) = int ?l - 24" using b by simp
  have e: "nat (0 - (int ?l - 24)) = 24 - ?l" using sh by simp
  have g: "nat (int ?l - 24 + 149) = 125 + ?l" by simp
  have "(125 + ?l) * 2 ^ 23 + n * 2 ^ (24 - ?l) < 255 * 2 ^ 23" using sh by simp
  then show ?thesis using assms(1) sh(3) unfolding f32_round_def q e g Let_def by simp
qed

lemma f32_nat_fields:
  assumes "0 < n" "n < 2 ^ 24"
  shows "f32_significand (f32_round s n 0) = n * 2 ^ (24 - bit_len n)"
    and "f32_exponent (f32_round s n 0) = int (bit_len n) - 24"
    and "f32_negative (f32_round s n 0) = s" "\<not> f32_is_nan (f32_round s n 0)" "\<not> f32_is_inf (f32_round s n 0)"
    and "\<not> f32_is_zero (f32_round s n 0)"
proof -
  let ?l = "bit_len n" and ?m = "n * 2 ^ (24 - bit_len n)"
  note b = bit_len_bounds [OF assms(1)] and sh = shifted_bounds [OF assms]
  define f where "f = ?m - 2 ^ 23"
  have f: "?m = 2 ^ 23 + f" "f < 2 ^ 23" using sh by (simp_all add: f_def)
  let ?g = "(125 + ?l) * 2 ^ 23 + ?m"
  have g: "?g = (126 + ?l) * 2 ^ 23 + f" using f by simp
  have lt: "?g < 2 ^ 31" using sh by simp
  have mag: "f32_magnitude (f32_round s n 0) = (126 + ?l) * 2 ^ 23 + f"
    using lt f32_pack_magnitude [OF lt] g by (simp add: f32_round_nat [OF assms])
  have biased: "f32_biased (f32_round s n 0) = 126 + ?l"
    unfolding f32_biased_def mag using f(2) by (subst div_mult_self3) simp_all
  have fraction: "f32_fraction (f32_round s n 0) = f"
    unfolding f32_fraction_def mag using f(2) by (subst mod_mult_self3) simp_all
  show "f32_significand (f32_round s n 0) = ?m" using biased fraction f(1) by (simp add: f32_significand_def)
  show "f32_exponent (f32_round s n 0) = int ?l - 24" using biased by (simp add: f32_exponent_def)
  show "f32_negative (f32_round s n 0) = s" using f32_pack_negative [OF lt] by (simp add: f32_round_nat [OF assms])
  show "\<not> f32_is_nan (f32_round s n 0)" "\<not> f32_is_inf (f32_round s n 0)" "\<not> f32_is_zero (f32_round s n 0)"
    using mag sh f(2) by (simp_all add: f32_is_nan_def f32_is_inf_def f32_is_zero_def)
qed

lemma half_even_multiple: "half_even (m * 2 ^ s) s = m"
  by (simp add: half_even_def Let_def)

lemma f32_round_scaled:
  assumes "0 < n" "n < 2 ^ 24" "k \<le> 100"
  shows "f32_round s (n * 2 ^ k) (- int k) = f32_round s n 0"
proof -
  let ?l = "bit_len n"
  note b = bit_len_bounds [OF assms(1)] and sh = shifted_bounds [OF assms(1,2)]
  have "bit_len (n * 2 ^ k) = Suc (?l - 1 + k)"
  proof (rule bit_len_eq)
    show "2 ^ (?l - 1 + k) \<le> n * 2 ^ k" unfolding power_add by (rule mult_le_mono1) (rule b)
    have "n * 2 ^ k < 2 ^ ?l * 2 ^ k" using b by simp
    also have "\<dots> = 2 ^ Suc (?l - 1 + k)" using b(3) by (simp add: power_add [symmetric])
    finally show "n * 2 ^ k < 2 ^ Suc (?l - 1 + k)" .
  qed
  then have len: "bit_len (n * 2 ^ k) = ?l + k" using b(3) by simp
  have q: "max (- int k + int (bit_len (n * 2 ^ k)) - 24) (- 149) = int ?l - 24" unfolding len by simp
  have m': "(if int ?l - 24 \<le> - int k then n * 2 ^ k * 2 ^ nat (- int k - (int ?l - 24))
      else half_even (n * 2 ^ k) (nat (int ?l - 24 - - int k))) = n * 2 ^ (24 - ?l)"
  proof (cases "int ?l - 24 \<le> - int k")
    case True
    have "k + nat (- int k - (int ?l - 24)) = 24 - ?l" using True by linarith
    then show ?thesis using True by (simp only: if_True mult.assoc power_add [symmetric])
  next
    case False
    let ?s = "nat (int ?l - 24 - - int k)"
    have "24 - ?l + ?s = k" using False sh(3) by linarith
    then have "n * 2 ^ k = n * 2 ^ (24 - ?l) * 2 ^ ?s" by (simp only: mult.assoc power_add [symmetric])
    then have "half_even (n * 2 ^ k) ?s = n * 2 ^ (24 - ?l)" by (simp only: half_even_multiple)
    then show ?thesis using False by (simp only: if_False)
  qed
  have g: "nat (int ?l - 24 + 149) = 125 + ?l" by simp
  have lt: "(125 + ?l) * 2 ^ 23 + n * 2 ^ (24 - ?l) < 255 * 2 ^ 23" using sh by simp
  have "f32_round s (n * 2 ^ k) (- int k) = f32_pack s ((125 + ?l) * 2 ^ 23 + n * 2 ^ (24 - ?l))"
    using lt assms(1) unfolding f32_round_def q m' g Let_def by (simp only: not_le [symmetric] if_False mult_eq_0_iff) simp
  then show ?thesis by (simp only: f32_round_nat [OF assms(1,2)])
qed

lemma f32_trunc_nat:
  assumes "0 < n" "n < 2 ^ 24"
  shows "f32_trunc (f32_round s n 0) = (if s then - int n else int n)"
proof -
  define k where "k = 24 - bit_len n"
  have k: "int (bit_len n) - 24 = - int k" using shifted_bounds(3) [OF assms] by (simp add: k_def)
  have t: "(if 0 \<le> - int k then int (n * 2 ^ k) * 2 ^ nat (- int k) else int (n * 2 ^ k) div 2 ^ nat (- (- int k))) = int n"
    by (cases "k = 0") simp_all
  show ?thesis unfolding f32_trunc_def f32_nat_fields [OF assms] k Let_def k_def [symmetric] t by simp
qed

lemma f32_mul_nat:
  assumes "0 < a" "0 < b" "a < 2 ^ 24" "b < 2 ^ 24" "a * b < 2 ^ 24"
  shows "f32_mul (f32_round s a 0) (f32_round s' b 0) = f32_round (s \<noteq> s') (a * b) 0"
proof -
  define k where "k = (24 - bit_len a) + (24 - bit_len b)"
  note fa = f32_nat_fields [OF assms(1,3)] and fb = f32_nat_fields [OF assms(2,4)]
  have m: "a * 2 ^ (24 - bit_len a) * (b * 2 ^ (24 - bit_len b)) = (a * b) * 2 ^ k" by (simp add: power_add k_def)
  have e: "int (bit_len a) - 24 + (int (bit_len b) - 24) = - int k"
    using shifted_bounds(3) [OF assms(1,3)] shifted_bounds(3) [OF assms(2,4)] by (simp add: k_def)
  have "f32_round (s \<noteq> s') (a * b * 2 ^ k) (- int k) = f32_round (s \<noteq> s') (a * b) 0"
    using assms(1,2,5) by (intro f32_round_scaled) (simp_all add: k_def)
  then show ?thesis unfolding f32_mul_def fa fb m e Let_def using fa(4-6) fb(4-6) by simp
qed

end
