(* ===== verification/Knx_Error.thy ===== *)
theory Knx_Error
  imports Mabi_Prelude
begin

text \<open>
  The error type of the KNX crate (\<^verbatim>\<open>crates/mabi-knx/src/error.rs\<close>) with its
  classification functions. The variants that wrap types of the operating system or of
  other crates (\<^verbatim>\<open>ConnectionFailed\<close>, \<^verbatim>\<open>BindError\<close>, \<^verbatim>\<open>Core\<close>) are left out: no modelled
  operation builds them and no classification function names them. \<^verbatim>\<open>Io\<close> keeps the text of the error.
\<close>

datatype (plugins only: code size) KnxError =
    InvalidGroupAddress string
  | InvalidIndividualAddress string
  | AddressOutOfRange string string
  | InvalidDpt string
  | DptEncoding string string
  | DptDecoding string string
  | DptValueOutOfRange string string
  | FrameTooShort usize usize
  | InvalidHeader string
  | InvalidProtocolVersion u8 u8
  | UnknownServiceType u16
  | FrameLengthMismatch usize usize
  | InvalidHpai string
  | UnknownMessageCode u8
  | InvalidCemi string
  | UnknownApci u16
  | ConnectionTimeout u64
  | ConnectionClosed string
  | NoMoreConnections usize
  | InvalidChannel u8
  | SequenceError u8 u8
  | DuplicateFrame u8 u8
  | OutOfOrderFrame u8 u8 u8
  | FatalDesyncError u8 u8 u8
  | SendErrorThresholdExceeded u32 u32
  | TunnelError string
  | TunnelTimeout u8
  | TunnelAckError u8
  | AckTimeout u8 u8 u8
  | ConfirmationNack u8
  | ConfirmationTimeout u8 u8
  | InvalidStateTransition string string
  | ChannelMismatch u8 u8
  | FlowControlDrop string
  | FlowControlQueued u8
  | CircuitBreakerOpen u32 u32
  | PaceFilterDelayExceeded u64 u64
  | GroupObjectNotFound string
  | GroupObjectWriteNotAllowed string
  | GroupObjectReadNotAllowed string
  | ServerError string
  | ServerNotRunning
  | ServerAlreadyRunning
  | ConfigError string
  | InvalidConfigValue string string
  | InternalError string
  | Io string

definition KnxError_frame_too_short :: "usize \<Rightarrow> usize \<Rightarrow> KnxError" where
  "KnxError_frame_too_short expected actual = FrameTooShort expected actual"

fun KnxError_is_recoverable :: "KnxError \<Rightarrow> bool" where
  "KnxError_is_recoverable (ConnectionTimeout _) = True"
| "KnxError_is_recoverable (TunnelTimeout _) = True"
| "KnxError_is_recoverable (SequenceError _ _) = True"
| "KnxError_is_recoverable (ConnectionClosed _) = True"
| "KnxError_is_recoverable (DuplicateFrame _ _) = True"
| "KnxError_is_recoverable (OutOfOrderFrame _ _ _) = True"
| "KnxError_is_recoverable (AckTimeout _ _ _) = True"
| "KnxError_is_recoverable (ConfirmationNack _) = True"
| "KnxError_is_recoverable (ConfirmationTimeout _ _) = True"
| "KnxError_is_recoverable (FlowControlDrop _) = True"
| "KnxError_is_recoverable (FlowControlQueued _) = True"
| "KnxError_is_recoverable (PaceFilterDelayExceeded _ _) = True"
| "KnxError_is_recoverable _ = False"

fun KnxError_is_flow_control_error :: "KnxError \<Rightarrow> bool" where
  "KnxError_is_flow_control_error (FlowControlDrop _) = True"
| "KnxError_is_flow_control_error (FlowControlQueued _) = True"
| "KnxError_is_flow_control_error (CircuitBreakerOpen _ _) = True"
| "KnxError_is_flow_control_error (PaceFilterDelayExceeded _ _) = True"
| "KnxError_is_flow_control_error _ = False"

fun KnxError_requires_tunnel_restart :: "KnxError \<Rightarrow> bool" where
  "KnxError_requires_tunnel_restart (FatalDesyncError _ _ _) = True"
| "KnxError_requires_tunnel_restart (SendErrorThresholdExceeded _ _) = True"
| "KnxError_requires_tunnel_restart _ = False"

fun KnxError_is_protocol_error :: "KnxError \<Rightarrow> bool" where
  "KnxError_is_protocol_error (FrameTooShort _ _) = True"
| "KnxError_is_protocol_error (InvalidHeader _) = True"
| "KnxError_is_protocol_error (InvalidProtocolVersion _ _) = True"
| "KnxError_is_protocol_error (UnknownServiceType _) = True"
| "KnxError_is_protocol_error (FrameLengthMismatch _ _) = True"
| "KnxError_is_protocol_error (UnknownMessageCode _) = True"
| "KnxError_is_protocol_error (InvalidCemi _) = True"
| "KnxError_is_protocol_error (UnknownApci _) = True"
| "KnxError_is_protocol_error _ = False"

fun KnxError_is_config_error :: "KnxError \<Rightarrow> bool" where
  "KnxError_is_config_error (ConfigError _) = True"
| "KnxError_is_config_error (InvalidConfigValue _ _) = True"
| "KnxError_is_config_error _ = False"

type_synonym 'a KnxResult = "(KnxError, 'a) outcome"

lemma KnxError_classes_disjoint:
  "\<not> (KnxError_is_recoverable e \<and> KnxError_requires_tunnel_restart e)"
  "\<not> (KnxError_is_recoverable e \<and> KnxError_is_protocol_error e)"
  "\<not> (KnxError_is_protocol_error e \<and> KnxError_is_config_error e)"
  "KnxError_is_flow_control_error e \<Longrightarrow> KnxError_is_recoverable e \<or> (\<exists>n t. e = CircuitBreakerOpen n t)"
  by (cases e; simp)+

end
