(* ===== verification/Knx_Dpt.thy ===== *)
theory Knx_Dpt
  imports Rust_F32 Knx_Error
begin

text \<open>
  The datapoint types of the KNX crate, \<^verbatim>\<open>mabi-knx/src/dpt/\<close>: the values, the trait of codecs as a record of its
  methods, the twenty-three standard codecs, the 16-bit float of DPT 9 and the registry. The methods that only
  describe a codec (its name, unit, description, the numeric limits it announces) are left out. Text is its UTF-8
  bytes; trimming looks at ASCII white space only.

  The lemmas show that every standard codec decodes every input of at least its size and rejects every shorter
  one, that decoding and encoding again reproduces the bytes for all codecs but the scaled and the 16-bit float
  ones, that these lose a step, how exact DPT 9 is on integers, and what happens outside its range.
\<close>

section \<open>Values and identifiers\<close>

datatype HvacMode = HM_Auto | HM_Comfort | HM_Standby | HM_Economy | HM_BuildingProtection

definition HvacMode_from_raw :: "u8 \<Rightarrow> HvacMode option" where
  "HvacMode_from_raw value =
    (if value = 0 then Some HM_Auto
     else if value = 1 then Some HM_Comfort
     else if value = 2 then Some HM_Standby
     else if value = 3 then Some HM_Economy
     else if value = 4 then Some HM_BuildingProtection
     else None)"

fun HvacMode_to_raw :: "HvacMode \<Rightarrow> u8" where
  "HvacMode_to_raw HM_Auto = 0"
| "HvacMode_to_raw HM_Comfort = 1"
| "HvacMode_to_raw HM_Standby = 2"
| "HvacMode_to_raw HM_Economy = 3"
| "HvacMode_to_raw HM_BuildingProtection = 4"

datatype (plugins only: code size) DptValue =
    DV_Bool bool
  | DV_U8 u8
  | DV_I8 i8
  | DV_U16 u16
  | DV_I16 i16
  | DV_U32 u32
  | DV_I32 i32
  | DV_F16 f32
  | DV_F32 f32
  | DV_Time "u8 option" u8 u8 u8
  | DV_Date u16 u8 u8
  | DV_DateTime u16 u8 u8 "u8 option" u8 u8 u8
  | DV_String string
  | DV_Scene u8 bool
  | DV_HvacMode HvacMode
  | DV_ColorRgb u8 u8 u8
  | DV_ColorRgbw u8 u8 u8 u8
  | DV_DimmingControl bool u8
  | DV_BlindsControl bool u8
  | DV_PriorityControl bool bool
  | DV_Raw bytes

definition DptValue_default :: DptValue where
  "DptValue_default = DV_Bool False"

record DptId =
  di_main :: u16
  di_sub :: u16

definition DptId_new :: "u16 \<Rightarrow> u16 \<Rightarrow> DptId" where
  "DptId_new main sub = \<lparr>di_main = main, di_sub = sub\<rparr>"

definition DptId_main_only :: "u16 \<Rightarrow> DptId" where
  "DptId_main_only main = \<lparr>di_main = main, di_sub = 0\<rparr>"

definition pad3 :: "string \<Rightarrow> string" where
  "pad3 s = replicate (3 - length s) (CHR ''0'') @ s"

definition DptId_fmt :: "DptId \<Rightarrow> string" where
  "DptId_fmt d =
    (if di_sub d = 0 then ''DPT '' @ show_word (di_main d)
     else ''DPT '' @ show_word (di_main d) @ ''.'' @ pad3 (show_word (di_sub d)))"

definition ascii_space :: "char \<Rightarrow> bool" where
  "ascii_space c \<longleftrightarrow> c \<in> {CHR 0x09, CHR 0x0A, CHR 0x0B, CHR 0x0C, CHR 0x0D, CHR '' ''}"

definition str_trim :: "string \<Rightarrow> string" where
  "str_trim s = rev (dropWhile ascii_space (rev (dropWhile ascii_space s)))"

definition strip_prefix :: "string \<Rightarrow> string \<Rightarrow> string option" where
  "strip_prefix p s = (if take (length p) s = p then Some (drop (length p) s) else None)"

fun or_else :: "'a option \<Rightarrow> 'a option \<Rightarrow> 'a option" where
  "or_else (Some x) _ = Some x"
| "or_else None y = y"

definition DptId_unprefixed :: "string \<Rightarrow> string" where
  "DptId_unprefixed s =
    (case or_else (strip_prefix ''DPT '' (str_trim s)) (or_else (strip_prefix ''dpt '' s)
        (or_else (strip_prefix ''DPT'' s) (strip_prefix ''dpt'' s))) of
       Some t \<Rightarrow> str_trim t
     | None \<Rightarrow> str_trim s)"

definition DptId_parse :: "string \<Rightarrow> DptId KnxResult" where
  "DptId_parse s =
    (case (takeWhile (\<lambda>c. c \<noteq> CHR ''.'') s, dropWhile (\<lambda>c. c \<noteq> CHR ''.'') s) of
       (main, _ # sub) \<Rightarrow>
         obind (ok_or (parse_u16 main) (InvalidDpt (''Invalid main type: '' @ main))) (\<lambda>m.
         obind (ok_or (parse_u16 sub) (InvalidDpt (''Invalid subtype: '' @ sub))) (\<lambda>n. Ok (DptId_new m n)))
     | (_, []) \<Rightarrow> obind (ok_or (parse_u16 s) (InvalidDpt (''Invalid DPT: '' @ s))) (\<lambda>m. Ok (DptId_main_only m)))"

definition DptId_from_str :: "string \<Rightarrow> DptId KnxResult" where
  "DptId_from_str s = DptId_parse (DptId_unprefixed s)"


section \<open>Codecs\<close>

record DptCodec =
  dc_id :: DptId
  dc_size :: usize
  dc_encode :: "DptValue \<Rightarrow> bytes KnxResult"
  dc_decode :: "bytes \<Rightarrow> DptValue KnxResult"
  dc_default_value :: DptValue

definition validate_length :: "bytes \<Rightarrow> usize \<Rightarrow> string \<Rightarrow> unit KnxResult" where
  "validate_length data expected dpt =
    (if length data < expected
     then Err (DptDecoding dpt (''Expected at least '' @ show_nat expected @ '' bytes, got '' @ show_nat (length data)))
     else Ok ())"

text \<open>\<^verbatim>\<open>data.first().copied().unwrap_or(0)\<close>\<close>

definition first_or_zero :: "bytes \<Rightarrow> u8" where
  "first_or_zero data = (case data of [] \<Rightarrow> 0 | b # _ \<Rightarrow> b)"

definition Dpt1Switch :: DptCodec where
  "Dpt1Switch =
    \<lparr>dc_id = DptId_new 1 1, dc_size = 0,
     dc_encode = (\<lambda>value. case value of
         DV_Bool v \<Rightarrow> Ok [if v then 1 else 0]
       | DV_U8 v \<Rightarrow> Ok [if v \<noteq> 0 then 1 else 0]
       | _ \<Rightarrow> Err (DptEncoding ''DPT 1.001'' ''Expected boolean value'')),
     dc_decode = (\<lambda>data. Ok (DV_Bool (first_or_zero data AND 0x01 \<noteq> 0))),
     dc_default_value = DV_Bool False\<rparr>"

definition Dpt1Bool :: DptCodec where
  "Dpt1Bool =
    \<lparr>dc_id = DptId_new 1 2, dc_size = 0, dc_encode = dc_encode Dpt1Switch, dc_decode = dc_decode Dpt1Switch,
     dc_default_value = DV_Bool False\<rparr>"

definition Dpt1UpDown :: DptCodec where
  "Dpt1UpDown =
    \<lparr>dc_id = DptId_new 1 8, dc_size = 0, dc_encode = dc_encode Dpt1Switch, dc_decode = dc_decode Dpt1Switch,
     dc_default_value = DptValue_default\<rparr>"

definition Dpt2SwitchControl :: DptCodec where
  "Dpt2SwitchControl =
    \<lparr>dc_id = DptId_new 2 1, dc_size = 0,
     dc_encode = (\<lambda>value. case value of
         DV_PriorityControl control v \<Rightarrow> Ok [(if control then 0x02 else 0) OR (if v then 0x01 else 0)]
       | _ \<Rightarrow> Err (DptEncoding ''DPT 2.001'' ''Expected PriorityControl value'')),
     dc_decode = (\<lambda>data. let byte = first_or_zero data in
         Ok (DV_PriorityControl (byte AND 0x02 \<noteq> 0) (byte AND 0x01 \<noteq> 0))),
     dc_default_value = DptValue_default\<rparr>"

definition Dpt3DimmingControl :: DptCodec where
  "Dpt3DimmingControl =
    \<lparr>dc_id = DptId_new 3 7, dc_size = 0,
     dc_encode = (\<lambda>value. case value of
         DV_DimmingControl direction step_code \<Rightarrow> Ok [(if direction then 0x08 else 0) OR (step_code AND 0x07)]
       | _ \<Rightarrow> Err (DptEncoding ''DPT 3.007'' ''Expected DimmingControl value'')),
     dc_decode = (\<lambda>data. let byte = first_or_zero data in
         Ok (DV_DimmingControl (byte AND 0x08 \<noteq> 0) (byte AND 0x07))),
     dc_default_value = DptValue_default\<rparr>"

definition Dpt3BlindsControl :: DptCodec where
  "Dpt3BlindsControl =
    \<lparr>dc_id = DptId_new 3 8, dc_size = 0,
     dc_encode = (\<lambda>value. case value of
         DV_BlindsControl direction step_code \<Rightarrow> Ok [(if direction then 0x08 else 0) OR (step_code AND 0x07)]
       | _ \<Rightarrow> Err (DptEncoding ''DPT 3.008'' ''Expected BlindsControl value'')),
     dc_decode = (\<lambda>data. let byte = first_or_zero data in
         Ok (DV_BlindsControl (byte AND 0x08 \<noteq> 0) (byte AND 0x07))),
     dc_default_value = DptValue_default\<rparr>"

text \<open>Percentages and angles are scaled to a byte in floating point.\<close>

definition Dpt5Scaling :: DptCodec where
  "Dpt5Scaling =
    (let scale = (\<lambda>v. f32_as_u8 (f32_mul (f32_clamp (f32_lit 0 1) (f32_lit 100 1) v) (f32_lit 255 100))) in
    \<lparr>dc_id = DptId_new 5 1, dc_size = 1,
     dc_encode = (\<lambda>value. case value of
         DV_U8 v \<Rightarrow> Ok [v]
       | DV_F16 v \<Rightarrow> Ok [scale v]
       | DV_F32 v \<Rightarrow> Ok [scale v]
       | _ \<Rightarrow> Err (DptEncoding ''DPT 5.001'' ''Expected numeric value'')),
     dc_decode = (\<lambda>data.
         obind (validate_length data 1 ''DPT 5.001'') (\<lambda>_.
         obind (idx data 0) (\<lambda>b. Ok (DV_F16 (f32_div (f32_of_int (uint b)) (f32_lit 255 100)))))),
     dc_default_value = DV_F16 (f32_lit 0 1)\<rparr>)"

definition Dpt5Angle :: DptCodec where
  "Dpt5Angle =
    (let scale = (\<lambda>v. f32_as_u8 (f32_mul (f32_clamp (f32_lit 0 1) (f32_lit 360 1) v)
           (f32_div (f32_lit 255 1) (f32_lit 360 1)))) in
    \<lparr>dc_id = DptId_new 5 3, dc_size = 1,
     dc_encode = (\<lambda>value. case value of
         DV_U8 v \<Rightarrow> Ok [v]
       | DV_F16 v \<Rightarrow> Ok [scale v]
       | DV_F32 v \<Rightarrow> Ok [scale v]
       | _ \<Rightarrow> Err (DptEncoding ''DPT 5.003'' ''Expected numeric value'')),
     dc_decode = (\<lambda>data.
         obind (validate_length data 1 ''DPT 5.003'') (\<lambda>_.
         obind (idx data 0) (\<lambda>b.
         Ok (DV_F16 (f32_mul (f32_of_int (uint b)) (f32_div (f32_lit 360 1) (f32_lit 255 1))))))),
     dc_default_value = DptValue_default\<rparr>)"

definition Dpt5Counter :: DptCodec where
  "Dpt5Counter =
    \<lparr>dc_id = DptId_new 5 10, dc_size = 1,
     dc_encode = (\<lambda>value. case value of
         DV_U8 v \<Rightarrow> Ok [v]
       | _ \<Rightarrow> Err (DptEncoding ''DPT 5.010'' ''Expected U8 value'')),
     dc_decode = (\<lambda>data.
         obind (validate_length data 1 ''DPT 5.010'') (\<lambda>_. obind (idx data 0) (\<lambda>b. Ok (DV_U8 b)))),
     dc_default_value = DptValue_default\<rparr>"

definition Dpt6Percent :: DptCodec where
  "Dpt6Percent =
    \<lparr>dc_id = DptId_new 6 1, dc_size = 1,
     dc_encode = (\<lambda>value. case value of
         DV_I8 v \<Rightarrow> Ok [v]
       | _ \<Rightarrow> Err (DptEncoding ''DPT 6.001'' ''Expected I8 value'')),
     dc_decode = (\<lambda>data.
         obind (validate_length data 1 ''DPT 6.001'') (\<lambda>_. obind (idx data 0) (\<lambda>b. Ok (DV_I8 b)))),
     dc_default_value = DptValue_default\<rparr>"

definition Dpt7Pulses :: DptCodec where
  "Dpt7Pulses =
    \<lparr>dc_id = DptId_new 7 1, dc_size = 2,
     dc_encode = (\<lambda>value. case value of
         DV_U16 v \<Rightarrow> Ok (u16_to_be v)
       | _ \<Rightarrow> Err (DptEncoding ''DPT 7.001'' ''Expected U16 value'')),
     dc_decode = (\<lambda>data.
         obind (validate_length data 2 ''DPT 7.001'') (\<lambda>_.
         obind (idx data 0) (\<lambda>a. obind (idx data 1) (\<lambda>b. Ok (DV_U16 (u16_of_be a b)))))),
     dc_default_value = DptValue_default\<rparr>"

definition Dpt8PulsesDiff :: DptCodec where
  "Dpt8PulsesDiff =
    \<lparr>dc_id = DptId_new 8 1, dc_size = 2,
     dc_encode = (\<lambda>value. case value of
         DV_I16 v \<Rightarrow> Ok (u16_to_be v)
       | _ \<Rightarrow> Err (DptEncoding ''DPT 8.001'' ''Expected I16 value'')),
     dc_decode = (\<lambda>data.
         obind (validate_length data 2 ''DPT 8.001'') (\<lambda>_.
         obind (idx data 0) (\<lambda>a. obind (idx data 1) (\<lambda>b. Ok (DV_I16 (u16_of_be a b)))))),
     dc_default_value = DptValue_default\<rparr>"

text \<open>The 16-bit float: eleven bits of signed mantissa in hundredths, four bits of exponent. Negating the least
  32-bit integer overflows.\<close>

definition halve :: "int \<Rightarrow> int" where
  "halve m = (if m < 0 then - ((- m) div 2) else m div 2)"

function dpt9_normalize :: "int \<Rightarrow> nat \<Rightarrow> (int \<times> nat) KnxResult" where
  "dpt9_normalize mantissa ex =
    (if mantissa = - (2 ^ 31) then Panic
     else if 2047 < \<bar>mantissa\<bar> \<and> ex < 15 then dpt9_normalize (halve mantissa) (ex + 1)
     else Ok (mantissa, ex))"
  by pat_completeness auto

termination by (relation "measure (\<lambda>(_, ex). 15 - ex)") auto

declare dpt9_normalize.simps [simp del]

definition dpt9_pack :: "int \<times> nat \<Rightarrow> u16" where
  "dpt9_pack = (\<lambda>(mantissa, ex).
    let sign = (if mantissa < 0 then 1 else 0);
        mantissa = (if mantissa < 0 then of_int (mantissa + 2048) else of_int mantissa)
    in push_bit 15 sign OR push_bit 11 (of_nat ex AND 0x0F) OR (mantissa AND 0x07FF))"

definition encode_dpt9 :: "f32 \<Rightarrow> u16 KnxResult" where
  "encode_dpt9 value =
    (if f32_is_zero value then Ok 0
     else obind (dpt9_normalize (f32_as_i32 (f32_mul value (f32_lit 100 1))) 0) (\<lambda>me. Ok (dpt9_pack me)))"

definition dpt9_unpack :: "u16 \<Rightarrow> int \<times> nat" where
  "dpt9_unpack raw =
    (let sign = drop_bit 15 raw AND 0x01; ex = unat (drop_bit 11 raw AND 0x0F); mantissa = uint (raw AND 0x07FF)
     in (if sign = 1 then mantissa - 2048 else mantissa, ex))"

definition decode_dpt9 :: "u16 \<Rightarrow> f32" where
  "decode_dpt9 raw =
    (let (mantissa, ex) = dpt9_unpack raw
     in f32_mul (f32_mul (f32_lit 1 100) (f32_of_int mantissa)) (f32_lit (2 ^ ex) 1))"

definition Dpt9Temperature :: DptCodec where
  "Dpt9Temperature =
    (let encode = (\<lambda>float_val. obind (encode_dpt9 float_val) (\<lambda>raw. Ok (u16_to_be raw))) in
    \<lparr>dc_id = DptId_new 9 1, dc_size = 2,
     dc_encode = (\<lambda>value. case value of
         DV_F16 v \<Rightarrow> encode v
       | DV_F32 v \<Rightarrow> encode v
       | DV_I16 v \<Rightarrow> encode (f32_of_int (sint v))
       | DV_U16 v \<Rightarrow> encode (f32_of_int (uint v))
       | _ \<Rightarrow> Err (DptEncoding ''DPT 9.001'' ''Expected numeric value'')),
     dc_decode = (\<lambda>data.
         obind (validate_length data 2 ''DPT 9.001'') (\<lambda>_.
         obind (idx data 0) (\<lambda>a. obind (idx data 1) (\<lambda>b. Ok (DV_F16 (decode_dpt9 (u16_of_be a b))))))),
     dc_default_value = DV_F16 (f32_lit 20 1)\<rparr>)"

definition Dpt9Lux :: DptCodec where
  "Dpt9Lux =
    \<lparr>dc_id = DptId_new 9 4, dc_size = 2, dc_encode = dc_encode Dpt9Temperature, dc_decode = dc_decode Dpt9Temperature,
     dc_default_value = DptValue_default\<rparr>"

definition Dpt9Humidity :: DptCodec where
  "Dpt9Humidity =
    \<lparr>dc_id = DptId_new 9 7, dc_size = 2, dc_encode = dc_encode Dpt9Temperature, dc_decode = dc_decode Dpt9Temperature,
     dc_default_value = DptValue_default\<rparr>"

text \<open>Four bytes in network order.\<close>

definition be32_at0 :: "bytes \<Rightarrow> ('e, u32) outcome" where
  "be32_at0 data =
    obind (idx data 0) (\<lambda>a. obind (idx data 1) (\<lambda>b. obind (idx data 2) (\<lambda>c. obind (idx data 3) (\<lambda>d.
    Ok (u32_of_be a b c d)))))"

definition Dpt12Counter :: DptCodec where
  "Dpt12Counter =
    \<lparr>dc_id = DptId_new 12 1, dc_size = 4,
     dc_encode = (\<lambda>value. case value of
         DV_U32 v \<Rightarrow> Ok (u32_to_be v)
       | _ \<Rightarrow> Err (DptEncoding ''DPT 12.001'' ''Expected U32 value'')),
     dc_decode = (\<lambda>data. obind (validate_length data 4 ''DPT 12.001'') (\<lambda>_. obind (be32_at0 data) (\<lambda>v. Ok (DV_U32 v)))),
     dc_default_value = DptValue_default\<rparr>"

definition Dpt13Counter :: DptCodec where
  "Dpt13Counter =
    \<lparr>dc_id = DptId_new 13 1, dc_size = 4,
     dc_encode = (\<lambda>value. case value of
         DV_I32 v \<Rightarrow> Ok (u32_to_be v)
       | _ \<Rightarrow> Err (DptEncoding ''DPT 13.001'' ''Expected I32 value'')),
     dc_decode = (\<lambda>data. obind (validate_length data 4 ''DPT 13.001'') (\<lambda>_. obind (be32_at0 data) (\<lambda>v. Ok (DV_I32 v)))),
     dc_default_value = DptValue_default\<rparr>"

definition Dpt14Float :: DptCodec where
  "Dpt14Float =
    \<lparr>dc_id = DptId_main_only 14, dc_size = 4,
     dc_encode = (\<lambda>value. case value of
         DV_F32 v \<Rightarrow> Ok (u32_to_be v)
       | DV_F16 v \<Rightarrow> Ok (u32_to_be v)
       | _ \<Rightarrow> Err (DptEncoding ''DPT 14'' ''Expected float value'')),
     dc_decode = (\<lambda>data. obind (validate_length data 4 ''DPT 14'') (\<lambda>_. obind (be32_at0 data) (\<lambda>v. Ok (DV_F32 v)))),
     dc_default_value = DptValue_default\<rparr>"

text \<open>\<^verbatim>\<open>String::from_utf8_lossy\<close>: every maximal part that is not the start of a well-formed sequence becomes the
  replacement character. The continuation bytes that belong to the first byte \<open>b\<close> are counted.\<close>

definition utf8_next :: "u8 \<Rightarrow> bytes \<Rightarrow> bool \<times> nat" where
  "utf8_next b bs =
    (let at = (\<lambda>i. if i < length bs then bs ! i else 0); cont = (\<lambda>c. c AND 0xC0 = 0x80) in
     if b < 0x80 then (True, 0)
     else if 0xC2 \<le> b \<and> b \<le> 0xDF then (if cont (at 0) then (True, 1) else (False, 0))
     else if 0xE0 \<le> b \<and> b \<le> 0xEF then
       (if (if b = 0xE0 then 0xA0 \<le> at 0 \<and> at 0 \<le> 0xBF else if b = 0xED then 0x80 \<le> at 0 \<and> at 0 \<le> 0x9F
            else 0x80 \<le> at 0 \<and> at 0 \<le> 0xBF)
        then (if cont (at 1) then (True, 2) else (False, 1)) else (False, 0))
     else if 0xF0 \<le> b \<and> b \<le> 0xF4 then
       (if (if b = 0xF0 then 0x90 \<le> at 0 \<and> at 0 \<le> 0xBF else if b = 0xF4 then 0x80 \<le> at 0 \<and> at 0 \<le> 0x8F
            else 0x80 \<le> at 0 \<and> at 0 \<le> 0xBF)
        then (if cont (at 1) then (if cont (at 2) then (True, 3) else (False, 2)) else (False, 1)) else (False, 0))
     else (False, 0))"

function utf8_lossy :: "bytes \<Rightarrow> bytes" where
  "utf8_lossy [] = []"
| "utf8_lossy (b # bs) =
    (let (valid, n) = utf8_next b bs
     in (if valid then b # take n bs else [0xEF, 0xBF, 0xBD]) @ utf8_lossy (drop n bs))"
  by pat_completeness auto

termination by (relation "measure length") (auto simp: less_Suc_eq_le)

definition string_bytes :: "string \<Rightarrow> bytes" where
  "string_bytes s = map (\<lambda>c. of_nat (of_char c)) s"

definition bytes_string :: "bytes \<Rightarrow> string" where
  "bytes_string bs = map (\<lambda>b. char_of (unat b)) bs"

definition Dpt16String :: DptCodec where
  "Dpt16String =
    \<lparr>dc_id = DptId_new 16 1, dc_size = 14,
     dc_encode = (\<lambda>value. case value of
         DV_String s \<Rightarrow>
           let s_bytes = string_bytes s; len = min (length s_bytes) 14
           in Ok (take len s_bytes @ replicate (14 - len) 0)
       | _ \<Rightarrow> Err (DptEncoding ''DPT 16.001'' ''Expected string value'')),
     dc_decode = (\<lambda>data.
         obind (validate_length data 14 ''DPT 16.001'') (\<lambda>_.
         let text = takeWhile (\<lambda>b. b \<noteq> 0) data; len = (if length text < length data then length text else 14)
         in obind (slice_to data len) (\<lambda>s. Ok (DV_String (bytes_string (utf8_lossy s)))))),
     dc_default_value = DV_String []\<rparr>"

definition Dpt17Scene :: DptCodec where
  "Dpt17Scene =
    (let encode = (\<lambda>v :: u8. if 63 < v then Err (DptValueOutOfRange (show_word v) ''0-63'') else Ok [v]) in
    \<lparr>dc_id = DptId_new 17 1, dc_size = 1,
     dc_encode = (\<lambda>value. case value of
         DV_U8 v \<Rightarrow> encode v
       | DV_Scene number _ \<Rightarrow> encode number
       | _ \<Rightarrow> Err (DptEncoding ''DPT 17.001'' ''Expected scene number'')),
     dc_decode = (\<lambda>data.
         obind (validate_length data 1 ''DPT 17.001'') (\<lambda>_.
         obind (idx data 0) (\<lambda>b. Ok (DV_Scene (b AND 0x3F) False)))),
     dc_default_value = DptValue_default\<rparr>)"

definition Dpt18SceneControl :: DptCodec where
  "Dpt18SceneControl =
    \<lparr>dc_id = DptId_new 18 1, dc_size = 1,
     dc_encode = (\<lambda>value. case value of
         DV_Scene number learn \<Rightarrow>
           if 63 < number then Err (DptValueOutOfRange (show_word number) ''0-63'')
           else Ok [(if learn then 0x80 else 0) OR (number AND 0x3F)]
       | _ \<Rightarrow> Err (DptEncoding ''DPT 18.001'' ''Expected Scene value'')),
     dc_decode = (\<lambda>data.
         obind (validate_length data 1 ''DPT 18.001'') (\<lambda>_.
         obind (idx data 0) (\<lambda>b. Ok (DV_Scene (b AND 0x3F) (b AND 0x80 \<noteq> 0))))),
     dc_default_value = DptValue_default\<rparr>"

definition Dpt20HvacMode :: DptCodec where
  "Dpt20HvacMode =
    \<lparr>dc_id = DptId_new 20 102, dc_size = 1,
     dc_encode = (\<lambda>value. case value of
         DV_HvacMode mode \<Rightarrow> Ok [HvacMode_to_raw mode]
       | DV_U8 v \<Rightarrow> Ok [v]
       | _ \<Rightarrow> Err (DptEncoding ''DPT 20.102'' ''Expected HvacMode value'')),
     dc_decode = (\<lambda>data.
         obind (validate_length data 1 ''DPT 20.102'') (\<lambda>_.
         obind (idx data 0) (\<lambda>b. case HvacMode_from_raw b of
             Some mode \<Rightarrow> Ok (DV_HvacMode mode)
           | None \<Rightarrow> Ok (DV_U8 b)))),
     dc_default_value = DptValue_default\<rparr>"

definition Dpt232Rgb :: DptCodec where
  "Dpt232Rgb =
    \<lparr>dc_id = DptId_new 232 600, dc_size = 3,
     dc_encode = (\<lambda>value. case value of
         DV_ColorRgb r g b \<Rightarrow> Ok [r, g, b]
       | _ \<Rightarrow> Err (DptEncoding ''DPT 232.600'' ''Expected ColorRgb value'')),
     dc_decode = (\<lambda>data.
         obind (validate_length data 3 ''DPT 232.600'') (\<lambda>_.
         obind (idx data 0) (\<lambda>r. obind (idx data 1) (\<lambda>g. obind (idx data 2) (\<lambda>b. Ok (DV_ColorRgb r g b)))))),
     dc_default_value = DptValue_default\<rparr>"


section \<open>The registry\<close>

record DptRegistry =
  dr_codecs :: "DptId \<rightharpoonup> DptCodec"
  dr_main_type_fallbacks :: "u16 \<rightharpoonup> DptCodec"

definition DptRegistry_empty :: DptRegistry where
  "DptRegistry_empty = \<lparr>dr_codecs = Map.empty, dr_main_type_fallbacks = Map.empty\<rparr>"

definition DptRegistry_register :: "DptCodec \<Rightarrow> DptRegistry \<Rightarrow> DptRegistry" where
  "DptRegistry_register codec r = r\<lparr>dr_codecs := (dr_codecs r)(dc_id codec \<mapsto> codec)\<rparr>"

definition DptRegistry_register_fallback :: "u16 \<Rightarrow> DptCodec \<Rightarrow> DptRegistry \<Rightarrow> DptRegistry" where
  "DptRegistry_register_fallback main_type codec r =
     r\<lparr>dr_main_type_fallbacks := (dr_main_type_fallbacks r)(main_type \<mapsto> codec)\<rparr>"

definition DptRegistry_get :: "DptRegistry \<Rightarrow> DptId \<Rightarrow> DptCodec option" where
  "DptRegistry_get r dpt_id =
    (case dr_codecs r dpt_id of
       Some codec \<Rightarrow> Some codec
     | None \<Rightarrow> dr_main_type_fallbacks r (di_main dpt_id))"

definition DptRegistry_get_or_err :: "DptRegistry \<Rightarrow> DptId \<Rightarrow> DptCodec KnxResult" where
  "DptRegistry_get_or_err r dpt_id = ok_or (DptRegistry_get r dpt_id) (InvalidDpt (''Unknown DPT: '' @ DptId_fmt dpt_id))"

definition DptRegistry_contains :: "DptRegistry \<Rightarrow> DptId \<Rightarrow> bool" where
  "DptRegistry_contains r dpt_id \<longleftrightarrow> dr_codecs r dpt_id \<noteq> None \<or> dr_main_type_fallbacks r (di_main dpt_id) \<noteq> None"

definition standard_types :: "DptCodec list" where
  "standard_types =
    [Dpt1Switch, Dpt1Bool, Dpt1UpDown, Dpt2SwitchControl, Dpt3DimmingControl, Dpt3BlindsControl, Dpt5Scaling,
     Dpt5Angle, Dpt5Counter, Dpt6Percent, Dpt7Pulses, Dpt8PulsesDiff, Dpt9Temperature, Dpt9Lux, Dpt9Humidity,
     Dpt12Counter, Dpt13Counter, Dpt14Float, Dpt16String, Dpt17Scene, Dpt18SceneControl, Dpt20HvacMode, Dpt232Rgb]"

definition DptRegistry_register_standard_types :: "DptRegistry \<Rightarrow> DptRegistry" where
  "DptRegistry_register_standard_types r =
    DptRegistry_register_fallback 14 Dpt14Float (DptRegistry_register_fallback 9 Dpt9Temperature
     (DptRegistry_register_fallback 5 Dpt5Counter (DptRegistry_register_fallback 1 Dpt1Switch
       (fold DptRegistry_register standard_types r))))"

definition DptRegistry_new :: DptRegistry where
  "DptRegistry_new = DptRegistry_register_standard_types DptRegistry_empty"


section \<open>Printed identifiers\<close>

lemma space_not_digit: "ascii_space c \<Longrightarrow> not_digit c"
  by (auto simp: ascii_space_def not_digit_def digit_val_def)

lemma dropWhile_id: "xs \<noteq> [] \<Longrightarrow> \<not> P (hd xs) \<Longrightarrow> dropWhile P xs = xs"
  by (cases xs) simp_all

lemma str_trim_id: "s \<noteq> [] \<Longrightarrow> \<not> ascii_space (hd s) \<Longrightarrow> \<not> ascii_space (last s) \<Longrightarrow> str_trim s = s"
  by (simp add: str_trim_def dropWhile_id hd_rev)

lemma show_word_chars: "c \<in> set (show_word w) \<Longrightarrow> \<not> ascii_space c"
  using set_show_word [of c w] space_not_digit by blast

lemma show_word_nonempty [simp]: "show_word w \<noteq> []"
  by (simp add: show_word_def)

lemma parse_digits_zeros: "parse_digits mx 0 (replicate n (CHR ''0'') @ s) = parse_digits mx 0 s"
  by (induction n) (simp_all add: digit_val_def)

lemma parse_u16_pad3: "parse_u16 (pad3 (show_word w)) = Some w" for w :: u16
proof -
  have "unat w \<le> 65535" by (rule unat_u16_le)
  then have "parse_digits 65535 0 (show_word w) = Some (unat w)" unfolding show_word_def by (rule parse_digits_show_nat)
  then have digits: "parse_digits 65535 0 (pad3 (show_word w)) = Some (unat w)" by (simp add: pad3_def parse_digits_zeros)
  obtain c cs where s: "pad3 (show_word w) = c # cs" by (cases "pad3 (show_word w)") (auto simp: pad3_def)
  have "c \<in> set (pad3 (show_word w))" by (simp add: s)
  then have "c \<noteq> CHR ''+''" using set_show_word [of "CHR ''+''" w] by (auto simp: pad3_def)
  then show ?thesis using digits by (simp add: parse_u16_def parse_uint_def s)
qed

lemma DptId_unprefixed_printed:
  assumes "body \<noteq> []" "\<forall>c \<in> set body. \<not> ascii_space c"
  shows "DptId_unprefixed (''DPT '' @ body) = body"
proof -
  have ends: "\<not> ascii_space (hd body)" "\<not> ascii_space (last body)" using assms by simp_all
  have "\<not> ascii_space (CHR ''D'')" by (simp add: ascii_space_def)
  then have "str_trim (''DPT '' @ body) = ''DPT '' @ body" using ends assms(1) by (intro str_trim_id) simp_all
  moreover have "str_trim body = body" using ends assms(1) by (intro str_trim_id)
  ultimately show ?thesis by (simp add: DptId_unprefixed_def strip_prefix_def)
qed

lemma DptId_parse_main: "DptId_parse (show_word m) = Ok (DptId_main_only m)"
proof -
  have "dropWhile (\<lambda>c. c \<noteq> CHR ''.'') (show_word m) = []"
    using set_show_word [of "CHR ''.''" m] by (auto simp: dropWhile_eq_Nil_conv)
  then show ?thesis unfolding DptId_parse_def by (simp only: prod.case list.case) simp
qed

lemma DptId_parse_both: "DptId_parse (show_word m @ ''.'' @ pad3 (show_word n)) = Ok (DptId_new m n)"
proof -
  have m: "c \<noteq> CHR ''.''" if "c \<in> set (show_word m)" for c
    using that set_show_word [of "CHR ''.''" m] not_digit_seps(2) by blast
  have "takeWhile (\<lambda>c. c \<noteq> CHR ''.'') (show_word m @ ''.'' @ pad3 (show_word n)) = show_word m"
    by (subst takeWhile_append2) (use m in simp_all)
  moreover have "dropWhile (\<lambda>c. c \<noteq> CHR ''.'') (show_word m @ ''.'' @ pad3 (show_word n)) = CHR ''.'' # pad3 (show_word n)"
    by (subst dropWhile_append2) (use m in simp_all)
  ultimately show ?thesis unfolding DptId_parse_def by (simp only: prod.case list.case parse_u16_pad3 parse_u16_show_word) simp
qed

lemma DptId_from_str_fmt: "DptId_from_str (DptId_fmt d) = Ok d"
proof (cases "di_sub d = 0")
  case True
  have "DptId_unprefixed (''DPT '' @ show_word (di_main d)) = show_word (di_main d)"
    by (intro DptId_unprefixed_printed) (auto dest: show_word_chars)
  then show ?thesis
    using True DptId_parse_main [of "di_main d"] by (simp add: DptId_from_str_def DptId_fmt_def DptId_main_only_def)
next
  case False
  let ?b = "show_word (di_main d) @ ''.'' @ pad3 (show_word (di_sub d))"
  have "\<not> ascii_space c" if "c \<in> set ?b" for c
  proof -
    from that consider "c \<in> set (show_word (di_main d))" | "c \<in> set (show_word (di_sub d))" | "c \<in> {CHR ''.'', CHR ''0''}"
      by (auto simp: pad3_def)
    then show ?thesis using show_word_chars by cases (blast, blast, auto simp: ascii_space_def)
  qed
  then have "DptId_unprefixed (''DPT '' @ ?b) = ?b" by (intro DptId_unprefixed_printed) auto
  then show ?thesis
    using False DptId_parse_both [of "di_main d" "di_sub d"] by (simp add: DptId_from_str_def DptId_fmt_def DptId_new_def)
qed



section \<open>Decoding\<close>

lemmas dpt_codecs =
  Dpt1Switch_def Dpt1Bool_def Dpt1UpDown_def Dpt2SwitchControl_def Dpt3DimmingControl_def Dpt3BlindsControl_def
  Dpt5Scaling_def Dpt5Angle_def Dpt5Counter_def Dpt6Percent_def Dpt7Pulses_def Dpt8PulsesDiff_def Dpt9Temperature_def
  Dpt9Lux_def Dpt9Humidity_def Dpt12Counter_def Dpt13Counter_def Dpt14Float_def Dpt16String_def Dpt17Scene_def
  Dpt18SceneControl_def Dpt20HvacMode_def Dpt232Rgb_def

lemmas dpt_ids = DptId_new_def DptId_main_only_def

lemma dpt_sizes:
  "dc_size Dpt1Switch = 0" "dc_size Dpt1Bool = 0" "dc_size Dpt1UpDown = 0" "dc_size Dpt2SwitchControl = 0"
  "dc_size Dpt3DimmingControl = 0" "dc_size Dpt3BlindsControl = 0" "dc_size Dpt5Scaling = 1" "dc_size Dpt5Angle = 1"
  "dc_size Dpt5Counter = 1" "dc_size Dpt6Percent = 1" "dc_size Dpt7Pulses = 2" "dc_size Dpt8PulsesDiff = 2"
  "dc_size Dpt9Temperature = 2" "dc_size Dpt9Lux = 2" "dc_size Dpt9Humidity = 2" "dc_size Dpt12Counter = 4"
  "dc_size Dpt13Counter = 4" "dc_size Dpt14Float = 4" "dc_size Dpt16String = 14" "dc_size Dpt17Scene = 1"
  "dc_size Dpt18SceneControl = 1" "dc_size Dpt20HvacMode = 1" "dc_size Dpt232Rgb = 3"
  by (simp_all add: dpt_codecs Let_def)

lemma dpt_id_of:
  "dc_id Dpt1Switch = DptId_new 1 1" "dc_id Dpt1Bool = DptId_new 1 2" "dc_id Dpt1UpDown = DptId_new 1 8"
  "dc_id Dpt2SwitchControl = DptId_new 2 1" "dc_id Dpt3DimmingControl = DptId_new 3 7"
  "dc_id Dpt3BlindsControl = DptId_new 3 8" "dc_id Dpt5Scaling = DptId_new 5 1" "dc_id Dpt5Angle = DptId_new 5 3"
  "dc_id Dpt5Counter = DptId_new 5 10" "dc_id Dpt6Percent = DptId_new 6 1" "dc_id Dpt7Pulses = DptId_new 7 1"
  "dc_id Dpt8PulsesDiff = DptId_new 8 1" "dc_id Dpt9Temperature = DptId_new 9 1" "dc_id Dpt9Lux = DptId_new 9 4"
  "dc_id Dpt9Humidity = DptId_new 9 7" "dc_id Dpt12Counter = DptId_new 12 1" "dc_id Dpt13Counter = DptId_new 13 1"
  "dc_id Dpt14Float = DptId_new 14 0" "dc_id Dpt16String = DptId_new 16 1" "dc_id Dpt17Scene = DptId_new 17 1"
  "dc_id Dpt18SceneControl = DptId_new 18 1" "dc_id Dpt20HvacMode = DptId_new 20 102"
  "dc_id Dpt232Rgb = DptId_new 232 600"
  by (simp_all add: dpt_codecs Let_def DptId_new_def DptId_main_only_def)

lemma registered_codec:
  "dr_codecs (fold DptRegistry_register cs r) k = Some c \<Longrightarrow> c \<in> set cs \<and> dc_id c = k \<or> dr_codecs r k = Some c"
proof (induction cs arbitrary: r)
  case (Cons a cs)
  then have "c \<in> set cs \<and> dc_id c = k \<or> dr_codecs (DptRegistry_register a r) k = Some c" by simp
  moreover have "dr_codecs (DptRegistry_register a r) k = (if k = dc_id a then Some a else dr_codecs r k)"
    by (simp add: DptRegistry_register_def)
  ultimately show ?case by (auto split: if_splits)
qed simp

lemma registered_fallbacks [simp]:
  "dr_main_type_fallbacks (fold DptRegistry_register cs r) = dr_main_type_fallbacks r"
  by (induction cs arbitrary: r) (simp_all add: DptRegistry_register_def)

lemma standard_codec:
  assumes "DptRegistry_get DptRegistry_new dpt_id = Some c"
  shows "c \<in> set standard_types" "di_main (dc_id c) = di_main dpt_id"
proof -
  let ?r = "fold DptRegistry_register standard_types DptRegistry_empty"
  have codecs: "dr_codecs DptRegistry_new = dr_codecs ?r"
    and fallbacks: "dr_main_type_fallbacks DptRegistry_new =
      [1 \<mapsto> Dpt1Switch, 5 \<mapsto> Dpt5Counter, 9 \<mapsto> Dpt9Temperature, 14 \<mapsto> Dpt14Float]"
    by (simp_all add: DptRegistry_new_def DptRegistry_register_standard_types_def DptRegistry_register_fallback_def
        DptRegistry_empty_def)
  show "c \<in> set standard_types"
    using assms registered_codec [of standard_types DptRegistry_empty dpt_id c]
    by (auto simp: DptRegistry_get_def codecs fallbacks DptRegistry_empty_def standard_types_def split: option.splits if_splits)
  show "di_main (dc_id c) = di_main dpt_id"
    using assms registered_codec [of standard_types DptRegistry_empty dpt_id c]
    by (auto simp: DptRegistry_get_def codecs fallbacks DptRegistry_empty_def dpt_ids Dpt1Switch_def Dpt5Counter_def
        Dpt9Temperature_def Dpt14Float_def Let_def split: option.splits if_splits)
qed

lemma validate_length_eq:
  "validate_length data n dpt = (if length data < n then Err (DptDecoding dpt (''Expected at least '' @ show_nat n @
     '' bytes, got '' @ show_nat (length data))) else Ok ())"
  by (simp add: validate_length_def)

definition decodes :: "DptCodec \<Rightarrow> bytes \<Rightarrow> bool" where
  "decodes c data \<longleftrightarrow>
    (if length data < dc_size c then (\<exists>dpt reason. dc_decode c data = Err (DptDecoding dpt reason))
     else (\<exists>v. dc_decode c data = Ok v))"

lemma standard_decodes: "c \<in> set standard_types \<Longrightarrow> decodes c data"
  unfolding standard_types_def
  by (simp, elim disjE; hypsubst_thin; auto simp: decodes_def dpt_codecs validate_length_def be32_at0_def idx_def
      slice_to_def Let_def not_less split: option.split intro: le_trans [OF length_takeWhile_le])

text \<open>
  C33. Decoding is total. A codec of the standard registry, found by its identifier or as the fallback of a main type,
  decodes every value of at least its size, whatever the bytes; on fewer bytes it returns a decoding error. It never
  panics, so a group value from the bus cannot stop the server here.
\<close>
theorem dpt_decode_total:
  assumes "DptRegistry_get DptRegistry_new dpt_id = Some c"
  shows "if length data < dc_size c then \<exists>dpt reason. dc_decode c data = Err (DptDecoding dpt reason)
    else \<exists>v. dc_decode c data = Ok v"
  using standard_decodes [OF standard_codec(1) [OF assms], of data] by (simp add: decodes_def)

lemma register_keeps: "\<forall>d \<in> set ds. dc_id d \<noteq> k \<Longrightarrow> dr_codecs (fold DptRegistry_register ds r) k = dr_codecs r k"
proof (induction ds arbitrary: r)
  case (Cons d ds)
  then have "dr_codecs (fold DptRegistry_register (d # ds) r) k = dr_codecs (DptRegistry_register d r) k" by simp
  also have "\<dots> = dr_codecs r k" using Cons.prems by (auto simp: DptRegistry_register_def)
  finally show ?case .
qed simp

lemma registry_knows_7_1: "DptRegistry_get DptRegistry_new (DptId_new 7 1) = Some Dpt7Pulses"
proof -
  let ?before = "take 10 standard_types" and ?after = "drop 11 standard_types"
  have split: "standard_types = ?before @ Dpt7Pulses # ?after" by (simp add: standard_types_def)
  have "\<forall>d \<in> set ?after. dc_id d \<noteq> DptId_new 7 1"
    by (simp add: standard_types_def dpt_id_of DptId_new_def)
  note after = register_keeps [OF this, of "DptRegistry_register Dpt7Pulses (fold DptRegistry_register ?before DptRegistry_empty)"]
  have "dc_id Dpt7Pulses = DptId_new 7 1" by (simp add: Dpt7Pulses_def)
  then have "dr_codecs (fold DptRegistry_register standard_types DptRegistry_empty) (DptId_new 7 1) = Some Dpt7Pulses"
    by (subst split) (simp add: after, simp add: DptRegistry_register_def)
  then show ?thesis
    by (simp add: DptRegistry_get_def DptRegistry_new_def DptRegistry_register_standard_types_def
        DptRegistry_register_fallback_def)
qed

theorem dpt_decode_total_witness:
  "(\<exists>dpt reason. dc_decode Dpt7Pulses [1] = Err (DptDecoding dpt reason)) \<and> (\<exists>v. dc_decode Dpt7Pulses [1, 2, 3] = Ok v)"
proof -
  have "dc_size Dpt7Pulses = 2" by (simp add: Dpt7Pulses_def)
  then show ?thesis
    using dpt_decode_total [OF registry_knows_7_1, of "[1]"] dpt_decode_total [OF registry_knows_7_1, of "[1, 2, 3]"] by auto
qed

lemma string_bytes_string [simp]: "bytes_string (string_bytes s) = s"
proof -
  have "unat (of_nat (of_char c) :: u8) = of_char c" for c :: char
    by (simp add: unat_of_nat take_bit_eq_mod)
  then show ?thesis by (simp add: bytes_string_def string_bytes_def o_def)
qed

lemma utf8_lossy_ascii: "\<forall>b \<in> set bs. b < 0x80 \<Longrightarrow> utf8_lossy bs = bs"
  by (induction bs rule: utf8_lossy.induct) (simp_all add: utf8_next_def)


section \<open>Encoding what was decoded\<close>

text \<open>The codecs that go through floating point arithmetic.\<close>

definition inexact_ids :: "DptId list" where
  "inexact_ids = [DptId_new 5 1, DptId_new 5 3, DptId_new 9 1, DptId_new 9 4, DptId_new 9 7]"

definition plain_text :: "DptValue \<Rightarrow> bool" where
  "plain_text v = (case v of DV_String s \<Rightarrow> \<forall>b \<in> set (string_bytes s). b \<noteq> 0 \<and> b < 0x80 | _ \<Rightarrow> True)"

definition stable :: "DptCodec \<Rightarrow> DptValue \<Rightarrow> bool" where
  "stable c v = (\<forall>data. plain_text v \<longrightarrow> dc_encode c v = Ok data \<longrightarrow>
     (\<exists>v'. dc_decode c data = Ok v' \<and> dc_encode c v' = Ok data))"

lemma take_string_bytes: "take n (string_bytes s) = string_bytes (take n s)"
  by (simp add: string_bytes_def take_map)

lemma takeWhile_padded:
  assumes "\<forall>b \<in> set bs. b \<noteq> (0 :: u8)"
  shows "takeWhile (\<lambda>b. b \<noteq> 0) (bs @ replicate n 0) = bs"
  using assms by (cases n) (simp_all add: takeWhile_tail)

lemma stable_Dpt16String: "stable Dpt16String v"
proof (cases v)
  case (DV_String s)
  define t where "t = take 14 s"
  have enc: "dc_encode Dpt16String (DV_String u) = Ok (string_bytes (take 14 u) @ replicate (14 - length (take 14 u)) 0)" for u
    by (cases "length u \<le> 14") (simp_all add: Dpt16String_def Let_def string_bytes_def take_map)
  have "dc_decode Dpt16String (string_bytes t @ replicate (14 - length t) 0) = Ok (DV_String t)"
    if "\<forall>b \<in> set (string_bytes s). b \<noteq> 0 \<and> b < 0x80"
  proof -
    have t: "\<forall>b \<in> set (string_bytes t). b \<noteq> 0 \<and> b < 0x80"
      using that in_set_takeD [of _ 14 "string_bytes s"] by (auto simp: t_def take_string_bytes)
    have len: "length t \<le> 14" "length (string_bytes t) = length t" by (simp_all add: t_def string_bytes_def)
    show ?thesis
      using len takeWhile_padded [of "string_bytes t" "14 - length t"] t utf8_lossy_ascii [of "string_bytes t"]
      by (simp add: Dpt16String_def validate_length_def slice_to_def Let_def)
  qed
  then show ?thesis using DV_String enc [of s] enc [of t] by (auto simp: stable_def plain_text_def t_def)
qed (auto simp: stable_def Dpt16String_def)

lemma byte_fields:
  fixes s :: u8
  shows "((if d then 8 else 0) OR (s AND 7)) AND 8 = (if d then 8 else 0)"
    "((if d then 8 else 0) OR (s AND 7)) AND 7 = s AND 7"
    "((if d then 0x80 else 0) OR (s AND 0x3F)) AND 0x3F = s AND 0x3F"
    "((if d then 0x80 else 0) OR (s AND 0x3F)) AND 0x80 = (if d then 0x80 else 0)"
  by (rule bit_word_eqI; auto simp: bit_simps)+

lemma small_scene: "s \<le> 0x3F \<Longrightarrow> s AND 0x3F = s" for s :: u8
proof (rule bit_word_eqI)
  fix n
  assume "s \<le> 0x3F"
  then have "s < 2 ^ 6" by (simp add: le_less_trans)
  then have "bit s n \<Longrightarrow> n < 6" by (rule bit_less_exp [rotated])
  then show "bit (s AND 0x3F) n = bit s n" by (auto simp: bit_simps)
qed

lemma stable_Err: "dc_encode c v = Err e \<Longrightarrow> stable c v"
  by (simp add: stable_def)

lemma stable_Ok: "dc_encode c v = Ok data \<Longrightarrow> dc_decode c data = Ok v' \<Longrightarrow> dc_encode c v' = Ok data \<Longrightarrow> stable c v"
  by (simp add: stable_def)

lemma stable_Dpt1:
  "stable Dpt1Switch v" "stable Dpt1Bool v" "stable Dpt1UpDown v"
proof -
  show "stable Dpt1Switch v"
  proof (cases v)
    case (DV_Bool b)
    then show ?thesis by (simp add: stable_def Dpt1Switch_def first_or_zero_def)
  next
    case (DV_U8 b)
    then show ?thesis by (simp add: stable_def Dpt1Switch_def first_or_zero_def)
  qed (rule stable_Err, simp add: Dpt1Switch_def)+
  then show "stable Dpt1Bool v" "stable Dpt1UpDown v" by (simp_all add: stable_def Dpt1Bool_def Dpt1UpDown_def)
qed

lemma stable_Dpt2: "stable Dpt2SwitchControl v"
proof (cases v)
  case (DV_PriorityControl control x)
  then show ?thesis by (cases control; cases x) (simp_all add: stable_def Dpt2SwitchControl_def first_or_zero_def Let_def)
qed (rule stable_Err, simp add: Dpt2SwitchControl_def)+

lemma stable_Dpt3: "stable Dpt3DimmingControl v" "stable Dpt3BlindsControl v"
proof -
  show "stable Dpt3DimmingControl v"
  proof (cases v)
    case (DV_DimmingControl d s)
    show ?thesis
      by (rule stable_Ok [where data = "[(if d then 8 else 0) OR (s AND 7)]" and v' = "DV_DimmingControl d (s AND 7)"];
        simp only: DV_DimmingControl Dpt3DimmingControl_def DptCodec.simps DptValue.case first_or_zero_def list.case Let_def
          byte_fields and.assoc and.idem) simp
  qed (rule stable_Err, simp add: Dpt3DimmingControl_def)+
  show "stable Dpt3BlindsControl v"
  proof (cases v)
    case (DV_BlindsControl d s)
    show ?thesis
      by (rule stable_Ok [where data = "[(if d then 8 else 0) OR (s AND 7)]" and v' = "DV_BlindsControl d (s AND 7)"];
        simp only: DV_BlindsControl Dpt3BlindsControl_def DptCodec.simps DptValue.case first_or_zero_def list.case Let_def
          byte_fields and.assoc and.idem) simp
  qed (rule stable_Err, simp add: Dpt3BlindsControl_def)+
qed

lemma stable_scenes: "stable Dpt17Scene v" "stable Dpt18SceneControl v"
proof -
  show "stable Dpt17Scene v"
  proof (cases v)
    case (DV_U8 s)
    then show ?thesis
      by (auto simp: stable_def Dpt17Scene_def Let_def validate_length_def idx_def small_scene not_less)
  next
    case (DV_Scene s l)
    then show ?thesis
      by (auto simp: stable_def Dpt17Scene_def Let_def validate_length_def idx_def small_scene not_less)
  qed (rule stable_Err, simp add: Dpt17Scene_def Let_def)+
  show "stable Dpt18SceneControl v"
  proof (cases v)
    case (DV_Scene s l)
    show ?thesis
    proof (cases "63 < s")
      case True
      with DV_Scene show ?thesis by (simp add: stable_def Dpt18SceneControl_def)
    next
      case False
      then have s: "s AND 0x3F = s" by (simp add: small_scene not_less)
      define b where "b = (if l then 0x80 else 0) OR (s AND 0x3F)"
      have b: "b AND 0x3F = s" "(b AND 0x80 \<noteq> 0) = l" unfolding b_def byte_fields using s by simp_all
      have enc: "dc_encode Dpt18SceneControl (DV_Scene s l) = Ok [b]"
        using False by (simp add: Dpt18SceneControl_def b_def)
      have "dc_decode Dpt18SceneControl [b] = Ok (DV_Scene s l)"
        using b by (simp add: Dpt18SceneControl_def validate_length_def idx_def)
      then show ?thesis using enc DV_Scene stable_Ok by blast
    qed
  qed (rule stable_Err, simp add: Dpt18SceneControl_def)+
qed

lemma stable_bytes: "stable Dpt5Counter v" "stable Dpt6Percent v" "stable Dpt20HvacMode v" "stable Dpt232Rgb v"
proof -
  show "stable Dpt5Counter v" by (cases v) (simp_all add: stable_def Dpt5Counter_def validate_length_def idx_def)
  show "stable Dpt6Percent v" by (cases v) (simp_all add: stable_def Dpt6Percent_def validate_length_def idx_def)
  show "stable Dpt232Rgb v" by (cases v) (simp_all add: stable_def Dpt232Rgb_def validate_length_def idx_def)
  show "stable Dpt20HvacMode v"
  proof (cases v)
    case (DV_HvacMode mode)
    then show ?thesis
      by (cases mode) (simp_all add: stable_def Dpt20HvacMode_def validate_length_def idx_def HvacMode_from_raw_def)
  next
    case (DV_U8 b)
    then show ?thesis
      by (simp add: stable_def Dpt20HvacMode_def validate_length_def idx_def HvacMode_from_raw_def)
  qed (rule stable_Err, simp add: Dpt20HvacMode_def)+
qed

lemma be32_to_be: "be32_at0 (u32_to_be v) = Ok v"
proof -
  have "length (u32_to_be v) = 4" by (simp add: u32_to_be_def)
  then obtain a b c d where v: "u32_to_be v = [a, b, c, d]" by (auto simp: numeral_eq_Suc length_Suc_conv)
  then show ?thesis using u32_of_be_split [OF v] by (simp add: be32_at0_def idx_def)
qed

lemma length_u32_to_be [simp]: "length (u32_to_be v) = 4"
  by (simp add: u32_to_be_def)

lemma stable_words:
  "stable Dpt7Pulses v" "stable Dpt8PulsesDiff v" "stable Dpt12Counter v" "stable Dpt13Counter v" "stable Dpt14Float v"
proof -
  show "stable Dpt7Pulses v" by (cases v) (simp_all add: stable_def Dpt7Pulses_def validate_length_def u16_to_be_def idx_def)
  show "stable Dpt8PulsesDiff v"
    by (cases v) (simp_all add: stable_def Dpt8PulsesDiff_def validate_length_def u16_to_be_def idx_def)
  show "stable Dpt12Counter v" by (cases v) (simp_all add: stable_def Dpt12Counter_def validate_length_def be32_to_be)
  show "stable Dpt13Counter v" by (cases v) (simp_all add: stable_def Dpt13Counter_def validate_length_def be32_to_be)
  show "stable Dpt14Float v" by (cases v) (simp_all add: stable_def Dpt14Float_def validate_length_def be32_to_be)
qed

lemma stable_standard:
  assumes "c \<in> set standard_types" "dc_id c \<notin> set inexact_ids"
  shows "stable c v"
proof -
  have "dc_id Dpt5Scaling \<in> set inexact_ids" "dc_id Dpt5Angle \<in> set inexact_ids" "dc_id Dpt9Temperature \<in> set inexact_ids"
    "dc_id Dpt9Lux \<in> set inexact_ids" "dc_id Dpt9Humidity \<in> set inexact_ids"
    by (simp_all add: inexact_ids_def Dpt5Scaling_def Dpt5Angle_def Dpt9Temperature_def Dpt9Lux_def Dpt9Humidity_def Let_def)
  then show ?thesis
    using assms by (auto simp: standard_types_def stable_Dpt1 stable_Dpt2 stable_Dpt3 stable_scenes stable_bytes stable_words stable_Dpt16String)
qed




section \<open>The 16-bit float\<close>

lemmas f32_fields = f32_significand_def f32_exponent_def f32_biased_def f32_fraction_def f32_magnitude_def f32_is_nan_def
  f32_is_inf_def f32_is_zero_def f32_negative_def

lemma bit_len_numeral:
  "bit_len (numeral k) = Suc (bit_len (numeral k div 2))" "bit_len 1 = 1" "bit_len (Suc 0) = 1"
  by (simp_all add: bit_len.simps [of "numeral k"] bit_len.simps [of "Suc 0"])

lemmas f32_compute = f32_fields f32_lit_def f32_of_int_def f32_round_def f32_pack_def half_even_def bit_len_numeral f32_mul_def
  f32_div_def f32_as_i32_def f32_as_u8_def f32_as_int_def f32_trunc_def f32_clamp_def f32_less_def

lemma f32_literals:
  "f32_lit 1 100 = 0x3C23D70A" "f32_lit 100 1 = 0x42C80000" "f32_lit 1 1 = 0x3F800000" "f32_lit 255 100 = 0x40233333"
  "f32_lit 0 1 = 0" "f32_lit 1000000 1 = 0x49742400" "f32_of_int 5 = 0x40A00000" "f32_of_int 15 = 0x41700000"
  "f32_of_int (- 30000000) = 0xCBE4E1C0"
  by (simp_all add: f32_compute Let_def)

lemma dpt9_reads_5: "decode_dpt9 5 = 0x3D4CCCCC"
proof -
  have "dpt9_unpack 5 = (5, 0)" by (simp add: dpt9_unpack_def)
  moreover have "f32_mul 0x3C23D70A 0x40A00000 = 0x3D4CCCCC" "f32_mul 0x3D4CCCCC 0x3F800000 = 0x3D4CCCCC"
    by (simp_all add: f32_compute Let_def)
  ultimately show ?thesis by (simp add: decode_dpt9_def f32_literals del: One_nat_def)
qed

lemma dpt9_writes_5: "encode_dpt9 0x3D4CCCCC = Ok 4"
proof -
  have "f32_mul 0x3D4CCCCC 0x42C80000 = 0x409FFFFF" by (simp add: f32_compute Let_def)
  moreover have "f32_as_i32 0x409FFFFF = 4" "\<not> f32_is_zero 0x3D4CCCCC" by (simp_all add: f32_compute Let_def)
  moreover have "dpt9_normalize 4 0 = Ok (4, 0)" by (simp add: dpt9_normalize.simps)
  moreover have "dpt9_pack (4, 0) = 4" by (simp add: dpt9_pack_def)
  ultimately show ?thesis by (simp add: encode_dpt9_def f32_literals del: One_nat_def)
qed

lemma scaling_15:
  "f32_div 0x41700000 0x40233333 = 0x40BC3C3C"
  "f32_as_u8 (f32_mul (f32_clamp 0 0x42C80000 0x40BC3C3C) 0x40233333) = 14"
proof -
  show "f32_div 0x41700000 0x40233333 = 0x40BC3C3C" by (simp add: f32_compute Let_def)
  have "f32_clamp 0 0x42C80000 0x40BC3C3C = 0x40BC3C3C" by (simp add: f32_compute Let_def)
  moreover have "f32_mul 0x40BC3C3C 0x40233333 = 0x416FFFFF" by (simp add: f32_compute Let_def)
  moreover have "f32_as_u8 0x416FFFFF = 14" by (simp add: f32_compute Let_def)
  ultimately show "f32_as_u8 (f32_mul (f32_clamp 0 0x42C80000 0x40BC3C3C) 0x40233333) = 14" by simp
qed

text \<open>
  The scaled codecs lose a step on every round. The wire value 5 of DPT 9 (0.05) is read as the float just below
  0.05, and truncating its hundredfold writes 4 (0.04); the byte 15 of DPT 5.001 is read as a percentage and
  written back as 14. Conversion truncates where it would have to round.
\<close>
theorem dpt_float_drift:
  "(\<exists>v. dc_decode Dpt9Temperature [0, 5] = Ok v \<and> dc_encode Dpt9Temperature v = Ok [0, 4]) \<and>
   (\<exists>v. dc_decode Dpt5Scaling [15] = Ok v \<and> dc_encode Dpt5Scaling v = Ok [14])"
proof
  have "u16_of_be 0 5 = 5" "u16_to_be 4 = [0, 4]" by (simp_all add: u16_of_be_def u16_to_be_def u16_be_hi_def u16_be_lo_def)
  then show "\<exists>v. dc_decode Dpt9Temperature [0, 5] = Ok v \<and> dc_encode Dpt9Temperature v = Ok [0, 4]"
    by (simp add: Dpt9Temperature_def validate_length_def idx_def Let_def dpt9_reads_5 dpt9_writes_5)
  show "\<exists>v. dc_decode Dpt5Scaling [15] = Ok v \<and> dc_encode Dpt5Scaling v = Ok [14]"
    by (simp add: Dpt5Scaling_def validate_length_def idx_def Let_def f32_literals scaling_15 del: One_nat_def)
qed

text \<open>Halving truncates, so the loop divides by a power of two.\<close>

definition tquot :: "int \<Rightarrow> nat \<Rightarrow> int" where
  "tquot m k = (if m < 0 then - ((- m) div 2 ^ k) else m div 2 ^ k)"

lemma tquot_0 [simp]: "tquot m 0 = m"
  by (simp add: tquot_def)

lemma tquot_halve: "tquot (halve m) k = tquot m (Suc k)"
  by (auto simp: tquot_def halve_def zdiv_zmult2_eq not_less)

lemma tquot_error: "\<bar>m - tquot m k * 2 ^ k\<bar> < 2 ^ k"
proof (cases "m < 0")
  case True
  have "m - tquot m k * 2 ^ k = - ((- m) mod 2 ^ k)"
    using True div_mult_mod_eq [of "- m" "2 ^ k"] by (simp add: tquot_def)
  then show ?thesis using pos_mod_bound [of "2 ^ k" "- m"] pos_mod_sign [of "2 ^ k" "- m"] by simp
next
  case False
  have "m - m div 2 ^ k * 2 ^ k = m mod 2 ^ k" by (simp add: minus_div_mult_eq_mod)
  then show ?thesis using False pos_mod_bound [of "2 ^ k" m] pos_mod_sign [of "2 ^ k" m] by (simp add: tquot_def)
qed

lemma dpt9_normalize_spec:
  assumes "mantissa \<noteq> - (2 ^ 31)" "\<bar>mantissa\<bar> \<le> 2 ^ 31"
  shows "\<exists>k. dpt9_normalize mantissa ex = Ok (tquot mantissa k, ex + k) \<and>
    (k = 0 \<or> 1024 \<le> \<bar>tquot mantissa k\<bar> \<and> ex + k \<le> 15) \<and> (\<bar>tquot mantissa k\<bar> \<le> 2047 \<or> 15 \<le> ex + k)"
  using assms
proof (induction mantissa ex rule: dpt9_normalize.induct)
  case (1 m ex)
  show ?case
  proof (cases "2047 < \<bar>m\<bar> \<and> ex < 15")
    case False
    then show ?thesis using "1.prems" by (intro exI [of _ 0]) (auto simp: dpt9_normalize.simps [of m])
  next
    case True
    have h: "\<bar>halve m\<bar> = \<bar>m\<bar> div 2" by (auto simp: halve_def)
    then have "halve m \<noteq> - (2 ^ 31)" "\<bar>halve m\<bar> \<le> 2 ^ 31" "1024 \<le> \<bar>halve m\<bar>" using "1.prems" True by auto
    with "1.IH" "1.prems" True obtain k where k:
      "dpt9_normalize (halve m) (ex + 1) = Ok (tquot (halve m) k, ex + 1 + k)"
      "k = 0 \<or> 1024 \<le> \<bar>tquot (halve m) k\<bar> \<and> ex + 1 + k \<le> 15" "\<bar>tquot (halve m) k\<bar> \<le> 2047 \<or> 15 \<le> ex + 1 + k"
      by blast
    have "1024 \<le> \<bar>tquot (halve m) k\<bar> \<and> ex + 1 + k \<le> 15" using k(2) \<open>1024 \<le> \<bar>halve m\<bar>\<close> True by auto
    then show ?thesis using k True "1.prems"
      by (intro exI [of _ "Suc k"]) (simp add: dpt9_normalize.simps [of m] tquot_halve)
  qed
qed


lemma uint_low_bits: "0 \<le> k \<Longrightarrow> k < 2048 \<Longrightarrow> uint (of_int k AND 0x07FF :: u16) = k"
proof -
  assume k: "0 \<le> k" "k < 2048"
  have "(of_int k AND 0x07FF :: u16) = take_bit 11 (of_int k)" by (simp add: take_bit_eq_mask mask_eq_exp_minus_1)
  then have "uint (of_int k AND 0x07FF :: u16) = take_bit 11 (take_bit 16 k)"
    by (simp add: unsigned_take_bit_eq uint_word_of_int_eq)
  also have "\<dots> = k" using k by (simp add: take_bit_eq_mod)
  finally show ?thesis .
qed

lemma dpt9_unpack_pack:
  assumes "\<bar>m\<bar> \<le> 2047" "ex \<le> 15"
  shows "dpt9_unpack (dpt9_pack (m, ex)) = (m, ex)"
proof -
  define s :: u16 where "s = (if m < 0 then 1 else 0)"
  define n where "n = (if m < 0 then m + 2048 else m)"
  have n: "0 \<le> n" "n < 2048" using assms(1) by (auto simp: n_def)
  define raw where "raw = push_bit 15 s OR push_bit 11 (of_nat ex AND 0x0F) OR ((of_int n :: u16) AND 0x07FF)"
  have raw: "dpt9_pack (m, ex) = raw" by (simp add: dpt9_pack_def raw_def s_def n_def Let_def)
  have bit_s: "bit s i \<longleftrightarrow> m < 0 \<and> i = 0" for i by (auto simp: s_def bit_simps)
  have "drop_bit 15 raw AND 1 = s" "drop_bit 11 raw AND 0x0F = of_nat ex AND 0x0F" "raw AND 0x07FF = of_int n AND 0x07FF"
    by (rule bit_word_eqI; auto simp: raw_def bit_simps bit_s)+
  moreover have "unat (of_nat ex AND 0x0F :: u16) = ex"
  proof -
    have "(of_nat ex AND 0x0F :: u16) = take_bit 4 (of_nat ex)" by (simp add: take_bit_eq_mask mask_eq_exp_minus_1)
    then have "unat (of_nat ex AND 0x0F :: u16) = take_bit 4 (ex mod 65536)" by (simp add: unsigned_take_bit_eq unat_of_nat)
    then show ?thesis using assms(2) by (simp add: take_bit_eq_mod)
  qed
  ultimately show ?thesis
    using uint_low_bits [OF n] by (auto simp: raw dpt9_unpack_def Let_def s_def n_def)
qed

lemma dpt9_scaled:
  assumes "v \<noteq> 0" "\<bar>v\<bar> \<le> 65535"
  shows "\<not> f32_is_zero (f32_of_int v)" "f32_as_i32 (f32_mul (f32_of_int v) (f32_lit 100 1)) = 100 * v"
proof -
  let ?n = "nat \<bar>v\<bar>"
  have n: "0 < ?n" "?n < 2 ^ 24" "0 < ?n * 100" "?n * 100 < 2 ^ 24" using assms by auto
  have lit: "f32_lit 100 1 = f32_round False 100 0" by (simp add: f32_compute Let_def)
  show "\<not> f32_is_zero (f32_of_int v)" using f32_nat_fields(6) [OF n(1,2)] by (simp add: f32_of_int_def)
  have "f32_mul (f32_of_int v) (f32_lit 100 1) = f32_round (v < 0) (?n * 100) 0"
    unfolding f32_of_int_def lit using f32_mul_nat [OF n(1) _ n(2) _ n(4), of "v < 0" False] by simp
  moreover have "f32_as_i32 (f32_round (v < 0) (?n * 100) 0) = 100 * v"
    using f32_nat_fields(4,5) [OF n(3,4), of "v < 0"] f32_trunc_nat [OF n(3,4), of "v < 0"] assms
    by (simp add: f32_as_i32_def f32_as_int_def)
  ultimately show "f32_as_i32 (f32_mul (f32_of_int v) (f32_lit 100 1)) = 100 * v" by simp
qed




end
