(* ===== verification/Bytes_Api.thy ===== *)
theory Bytes_Api
  imports Mabi_Prelude
begin

text \<open>
  The part of the \<^verbatim>\<open>bytes\<close> crate (traits \<^verbatim>\<open>Buf\<close> and \<^verbatim>\<open>BufMut\<close>, type \<^verbatim>\<open>BytesMut\<close>) that
  the protocol codecs call. The crate is not part of the repository, so its operations
  are a record of functions that every codec takes as its first argument, and the locale
  \<open>bytes_crate\<close> states what its documentation promises: reads take from the front and
  panic when too few bytes remain, writes append, multi-byte integers are big-endian
  unless the name ends in \<^verbatim>\<open>_le\<close>.

  A read returns the value and the rest of the buffer; \<open>None\<close> is the panic.
\<close>

record buf_api =
  api_get_u8 :: "bytes \<Rightarrow> (u8 \<times> bytes) option"
  api_get_u16 :: "bytes \<Rightarrow> (u16 \<times> bytes) option"
  api_get_u32 :: "bytes \<Rightarrow> (u32 \<times> bytes) option"
  api_copy_to_slice :: "usize \<Rightarrow> bytes \<Rightarrow> (bytes \<times> bytes) option"
  api_put_u8 :: "bytes \<Rightarrow> u8 \<Rightarrow> bytes"
  api_put_u16 :: "bytes \<Rightarrow> u16 \<Rightarrow> bytes"
  api_put_u16_le :: "bytes \<Rightarrow> u16 \<Rightarrow> bytes"
  api_put_u32 :: "bytes \<Rightarrow> u32 \<Rightarrow> bytes"
  api_put_slice :: "bytes \<Rightarrow> bytes \<Rightarrow> bytes"
  api_split_to :: "usize \<Rightarrow> bytes \<Rightarrow> (bytes \<times> bytes) option"
  api_advance :: "usize \<Rightarrow> bytes \<Rightarrow> bytes option"

abbreviation get_u8 :: "buf_api \<Rightarrow> bytes \<Rightarrow> ('e, u8 \<times> bytes) outcome" where
  "get_u8 B buf \<equiv> or_panic (api_get_u8 B buf)"

abbreviation get_u16 :: "buf_api \<Rightarrow> bytes \<Rightarrow> ('e, u16 \<times> bytes) outcome" where
  "get_u16 B buf \<equiv> or_panic (api_get_u16 B buf)"

abbreviation get_u32 :: "buf_api \<Rightarrow> bytes \<Rightarrow> ('e, u32 \<times> bytes) outcome" where
  "get_u32 B buf \<equiv> or_panic (api_get_u32 B buf)"

abbreviation copy_to_slice :: "buf_api \<Rightarrow> usize \<Rightarrow> bytes \<Rightarrow> ('e, bytes \<times> bytes) outcome" where
  "copy_to_slice B n buf \<equiv> or_panic (api_copy_to_slice B n buf)"

abbreviation split_to :: "buf_api \<Rightarrow> usize \<Rightarrow> bytes \<Rightarrow> ('e, bytes \<times> bytes) outcome" where
  "split_to B n buf \<equiv> or_panic (api_split_to B n buf)"

abbreviation advance :: "buf_api \<Rightarrow> usize \<Rightarrow> bytes \<Rightarrow> ('e, bytes) outcome" where
  "advance B n buf \<equiv> or_panic (api_advance B n buf)"

locale bytes_crate =
  fixes B :: buf_api
  assumes get_u8_Nil: "api_get_u8 B [] = None"
    and get_u8_Cons: "api_get_u8 B (x # xs) = Some (x, xs)"
    and get_u16_short: "length xs < 2 \<Longrightarrow> api_get_u16 B xs = None"
    and get_u16_Cons: "api_get_u16 B (a # b # xs) = Some (u16_of_be a b, xs)"
    and get_u32_short: "length xs < 4 \<Longrightarrow> api_get_u32 B xs = None"
    and get_u32_Cons: "api_get_u32 B (a # b # c # d # xs) = Some (u32_of_be a b c d, xs)"
    and copy_to_slice: "api_copy_to_slice B n xs =
          (if n \<le> length xs then Some (take n xs, drop n xs) else None)"
    and put_u8: "api_put_u8 B buf v = buf @ [v]"
    and put_u16: "api_put_u16 B buf w = buf @ u16_to_be w"
    and put_u16_le: "api_put_u16_le B buf w = buf @ u16_to_le w"
    and put_u32: "api_put_u32 B buf l = buf @ u32_to_be l"
    and put_slice: "api_put_slice B buf ys = buf @ ys"
    and split_to: "api_split_to B n xs =
          (if n \<le> length xs then Some (take n xs, drop n xs) else None)"
    and advance: "api_advance B n xs = (if n \<le> length xs then Some (drop n xs) else None)"
begin

lemmas put_laws = put_u8 put_u16 put_u16_le put_u32 put_slice

lemmas get_laws = get_u8_Nil get_u8_Cons get_u16_Cons get_u32_Cons copy_to_slice split_to advance

lemma get_u8_conv: "api_get_u8 B xs = (case xs of [] \<Rightarrow> None | y # ys \<Rightarrow> Some (y, ys))"
  by (cases xs) (simp_all add: get_u8_Nil get_u8_Cons)

lemma get_u16_conv:
  "api_get_u16 B xs = (case xs of a # b # ys \<Rightarrow> Some (u16_of_be a b, ys) | _ \<Rightarrow> None)"
  by (cases xs rule: remdups_adj.cases) (simp_all add: get_u16_short get_u16_Cons)

lemma get_u16_to_be [simp]: "api_get_u16 B (u16_to_be w @ xs) = Some (w, xs)"
  by (simp add: u16_to_be_def get_u16_Cons)

lemma get_u8_not_panic: "xs \<noteq> [] \<Longrightarrow> get_u8 B xs \<noteq> Panic"
  by (cases xs) (simp_all add: get_u8_Cons)

lemma get_u16_not_panic: "2 \<le> length xs \<Longrightarrow> get_u16 B xs \<noteq> Panic"
  by (cases xs rule: remdups_adj.cases) (simp_all add: get_u16_Cons)

end

text \<open>A concrete model of the crate, which shows that the promises are consistent.\<close>

definition std_buf :: buf_api where
  "std_buf = \<lparr>
     api_get_u8 = (\<lambda>xs. case xs of [] \<Rightarrow> None | y # ys \<Rightarrow> Some (y, ys)),
     api_get_u16 = (\<lambda>xs. case xs of a # b # ys \<Rightarrow> Some (u16_of_be a b, ys) | _ \<Rightarrow> None),
     api_get_u32 = (\<lambda>xs. case xs of a # b # c # d # ys \<Rightarrow> Some (u32_of_be a b c d, ys) | _ \<Rightarrow> None),
     api_copy_to_slice = (\<lambda>n xs. if n \<le> length xs then Some (take n xs, drop n xs) else None),
     api_put_u8 = (\<lambda>buf v. buf @ [v]),
     api_put_u16 = (\<lambda>buf v. buf @ u16_to_be v),
     api_put_u16_le = (\<lambda>buf v. buf @ u16_to_le v),
     api_put_u32 = (\<lambda>buf v. buf @ u32_to_be v),
     api_put_slice = (\<lambda>buf ys. buf @ ys),
     api_split_to = (\<lambda>n xs. if n \<le> length xs then Some (take n xs, drop n xs) else None),
     api_advance = (\<lambda>n xs. if n \<le> length xs then Some (drop n xs) else None)\<rparr>"

interpretation std: bytes_crate std_buf
proof
  fix xs :: bytes
  show "api_get_u16 std_buf xs = None" if "length xs < 2"
    using that by (auto simp: std_buf_def split: list.splits)
  show "api_get_u32 std_buf xs = None" if "length xs < 4"
    using that by (auto simp: std_buf_def split: list.splits)
qed (simp_all add: std_buf_def)

lemma bytes_crate_std: "bytes_crate std_buf"
  by (rule std.bytes_crate_axioms)

end
