(* ===== verification/Wire_Codec.thy ===== *)
theory Wire_Codec
  imports Bytes_Api
begin

text \<open>
  The contracts that the protocol encoders and decoders share, as locales: a codec that
  reads one whole message, a codec that ignores what follows its message, and a codec
  that returns what follows. Each component interprets the strongest contract its code
  keeps; the lemmas here are proved once for all of them.
\<close>

locale wire_codec =
  fixes valid :: "'a \<Rightarrow> bool"
    and encode :: "'a \<Rightarrow> bytes"
    and decode :: "bytes \<Rightarrow> ('e, 'a) outcome"
  assumes decode_encode: "valid x \<Longrightarrow> decode (encode x) = Ok x"
begin

lemma encode_inject: "valid x \<Longrightarrow> valid y \<Longrightarrow> encode x = encode y \<longleftrightarrow> x = y"
proof
  assume "valid x" and "valid y" and eq: "encode x = encode y"
  have "Ok x = decode (encode y)" using decode_encode [OF \<open>valid x\<close>] eq by simp
  then show "x = y" using decode_encode [OF \<open>valid y\<close>] by simp
qed simp

lemma encoded_not_rejected: "valid x \<Longrightarrow> is_ok (decode (encode x))"
  by (simp add: decode_encode)

end

text \<open>A decoder that finds the end of its message itself.\<close>

locale prefix_codec =
  fixes valid :: "'a \<Rightarrow> bool"
    and encode :: "'a \<Rightarrow> bytes"
    and decode :: "bytes \<Rightarrow> ('e, 'a) outcome"
  assumes decode_prefix: "valid x \<Longrightarrow> decode (encode x @ rest) = Ok x"
begin

lemma unambiguous:
  assumes "valid x" and "valid y" and eq: "encode x @ r = encode y @ s"
  shows "x = y \<and> r = s"
proof -
  have "Ok x = (Ok y :: ('e, 'a) outcome)"
    using decode_prefix [OF \<open>valid x\<close>, of r, symmetric] decode_prefix [OF \<open>valid y\<close>, of s]
    by (simp only: eq)
  with eq show ?thesis by simp
qed

end

sublocale prefix_codec \<subseteq> wire_codec valid encode decode
proof
  show "decode (encode x) = Ok x" if "valid x" for x
    using decode_prefix [OF that, of "[]"] by simp
qed

text \<open>A decoder that hands back the bytes after its message, and sequences of such messages.\<close>

locale stream_codec =
  fixes valid :: "'a \<Rightarrow> bool"
    and encode :: "'a \<Rightarrow> bytes"
    and decode :: "bytes \<Rightarrow> ('e, 'a \<times> bytes) outcome"
  assumes decode_rest: "valid x \<Longrightarrow> decode (encode x @ rest) = Ok (x, rest)"
    and encode_nonempty: "valid x \<Longrightarrow> encode x \<noteq> []"
begin

lemma stream_unambiguous:
  assumes "valid x" and "valid y" and eq: "encode x @ r = encode y @ s"
  shows "x = y \<and> r = s"
  using decode_rest [OF \<open>valid x\<close>, of r, symmetric] decode_rest [OF \<open>valid y\<close>, of s]
  unfolding eq by simp

end

text \<open>
  The loop \<^verbatim>\<open>while !buf.is_empty() { out.push(decode(&mut buf)?) }\<close>. Each round of a
  decoder that consumes at least one byte shortens the buffer, so as many rounds as the
  buffer has bytes are enough; a decoder that consumes nothing would loop forever, which
  is the \<open>Panic\<close> of the exhausted fuel.
\<close>

fun decode_many :: "nat \<Rightarrow> (bytes \<Rightarrow> ('e, 'a \<times> bytes) outcome) \<Rightarrow> bytes \<Rightarrow> ('e, 'a list) outcome" where
  "decode_many fuel dec [] = Ok []"
| "decode_many 0 dec (b # bs) = Panic"
| "decode_many (Suc fuel) dec (b # bs) =
     obind (dec (b # bs)) (\<lambda>(x, rest). obind (decode_many fuel dec rest) (\<lambda>xs. Ok (x # xs)))"

definition decode_all :: "(bytes \<Rightarrow> ('e, 'a \<times> bytes) outcome) \<Rightarrow> bytes \<Rightarrow> ('e, 'a list) outcome" where
  "decode_all dec bs = decode_many (length bs) dec bs"

definition consumes :: "(bytes \<Rightarrow> ('e, 'a \<times> bytes) outcome) \<Rightarrow> bool" where
  "consumes dec \<longleftrightarrow> (\<forall>bs x rest. dec bs = Ok (x, rest) \<longrightarrow> length rest < length bs)"

lemma decode_many_fuel:
  assumes "consumes dec" and "length bs \<le> m" and "length bs \<le> n"
  shows "decode_many m dec bs = decode_many n dec bs"
  using assms(2,3)
proof (induction m arbitrary: n bs)
  case 0
  then show ?case by (cases n) auto
next
  case (Suc m)
  show ?case
  proof (cases bs)
    case Nil
    then show ?thesis by simp
  next
    case (Cons b bs')
    with Suc.prems obtain n' where n: "n = Suc n'" by (cases n) auto
    have *: "decode_many m dec rest = decode_many n' dec rest" if "dec bs = Ok (x, rest)" for x rest
    proof -
      have "length rest < length bs" using assms(1) that by (auto simp: consumes_def)
      with Suc.prems n show ?thesis by (intro Suc.IH) auto
    qed
    show ?thesis
    proof (cases "dec bs")
      case (Ok y)
      with * [of "fst y" "snd y"] show ?thesis
        by (cases y) (simp add: Cons n)
    qed (simp_all add: Cons n)
  qed
qed

text \<open>With a decoder that consumes, the loop panics only where the decoder itself does.\<close>

lemma decode_many_not_panic:
  assumes "consumes dec" and "\<And>bs. dec bs \<noteq> Panic"
  shows "length bs \<le> n \<Longrightarrow> decode_many n dec bs \<noteq> Panic"
proof (induction n arbitrary: bs)
  case 0
  then show ?case by simp
next
  case (Suc n)
  have IH: "decode_many n dec rest \<noteq> Panic" if "dec bs = Ok (x, rest)" for x rest
  proof (rule Suc.IH)
    have "length rest < length bs" using assms(1) that by (auto simp: consumes_def)
    then show "length rest \<le> n" using Suc.prems by simp
  qed
  show ?case
  proof (cases "dec bs")
    case (Ok y)
    with IH [of "fst y" "snd y"] show ?thesis
      by (cases bs; cases y) (auto simp: obind_eq_Panic_iff)
  qed (use assms(2) [of bs] in \<open>cases bs; simp\<close>)+
qed

lemma decode_all_not_panic:
  "consumes dec \<Longrightarrow> (\<And>bs. dec bs \<noteq> Panic) \<Longrightarrow> decode_all dec bs \<noteq> Panic"
  by (simp add: decode_all_def decode_many_not_panic)

context stream_codec
begin

lemma decode_many_encode:
  "list_all valid xs \<Longrightarrow> length (concat (map encode xs)) \<le> n \<Longrightarrow>
     decode_many n decode (concat (map encode xs)) = Ok xs"
proof (induction xs arbitrary: n)
  case Nil
  then show ?case by simp
next
  case (Cons x xs)
  let ?bs = "encode x @ concat (map encode xs)"
  from Cons.prems encode_nonempty obtain b bs where bs: "?bs = b # bs"
    by (cases "encode x") auto
  with Cons.prems obtain m where n: "n = Suc m" by (cases n) auto
  have "encode x \<noteq> []" using Cons.prems encode_nonempty by simp
  then have "1 \<le> length (encode x)" by (cases "encode x") simp_all
  moreover have "length (encode x) + length (concat (map encode xs)) \<le> Suc m"
    using Cons.prems n by simp
  ultimately have "length (concat (map encode xs)) \<le> m" by linarith
  then have "decode_many m decode (concat (map encode xs)) = Ok xs"
    using Cons by simp
  moreover have "decode (b # bs) = Ok (x, concat (map encode xs))"
    using decode_rest [of x "concat (map encode xs)"] Cons.prems bs by simp
  ultimately show ?case by (simp add: bs n)
qed

lemma decode_all_encode: "list_all valid xs \<Longrightarrow> decode_all decode (concat (map encode xs)) = Ok xs"
  by (simp add: decode_all_def decode_many_encode)

end

end
