(* ===== verification/Knx_Service.thy ===== *)
theory Knx_Service
  imports Wire_Codec Knx_Error
begin

text \<open>
  KNXnet/IP service types, \<^verbatim>\<open>mabi-knx/src/frame/service.rs\<close>: the service identifiers
  with their numeric values, the conversion from a received number, the families, and
  the request/response pairing. An enumeration cast \<^verbatim>\<open>self as u16\<close> is \<open>ServiceType_to_u16\<close>.
\<close>

datatype (plugins only: code size) ServiceType =
    ST_SearchRequest | ST_SearchResponse | ST_DescriptionRequest | ST_DescriptionResponse |
  ST_ConnectRequest | ST_ConnectResponse | ST_ConnectionStateRequest |
  ST_ConnectionStateResponse | ST_DisconnectRequest | ST_DisconnectResponse |
  ST_SearchRequestExtended | ST_SearchResponseExtended | ST_DeviceConfigurationRequest |
  ST_DeviceConfigurationAck | ST_TunnellingRequest | ST_TunnellingAck |
  ST_TunnellingFeatureGet | ST_TunnellingFeatureResponse | ST_TunnellingFeatureSet |
  ST_TunnellingFeatureInfo | ST_RoutingIndication | ST_RoutingLostMessage | ST_RoutingBusy |
  ST_RoutingSystemBroadcast | ST_RemoteDiagnosticRequest | ST_RemoteDiagnosticResponse |
  ST_RemoteBasicConfigRequest | ST_RemoteResetRequest | ST_ObjectServerRequest

fun ServiceType_to_u16 :: "ServiceType \<Rightarrow> u16" where
  "ServiceType_to_u16 ST_SearchRequest = 0x0201"
| "ServiceType_to_u16 ST_SearchResponse = 0x0202"
| "ServiceType_to_u16 ST_DescriptionRequest = 0x0203"
| "ServiceType_to_u16 ST_DescriptionResponse = 0x0204"
| "ServiceType_to_u16 ST_ConnectRequest = 0x0205"
| "ServiceType_to_u16 ST_ConnectResponse = 0x0206"
| "ServiceType_to_u16 ST_ConnectionStateRequest = 0x0207"
| "ServiceType_to_u16 ST_ConnectionStateResponse = 0x0208"
| "ServiceType_to_u16 ST_DisconnectRequest = 0x0209"
| "ServiceType_to_u16 ST_DisconnectResponse = 0x020A"
| "ServiceType_to_u16 ST_SearchRequestExtended = 0x020B"
| "ServiceType_to_u16 ST_SearchResponseExtended = 0x020C"
| "ServiceType_to_u16 ST_DeviceConfigurationRequest = 0x0310"
| "ServiceType_to_u16 ST_DeviceConfigurationAck = 0x0311"
| "ServiceType_to_u16 ST_TunnellingRequest = 0x0420"
| "ServiceType_to_u16 ST_TunnellingAck = 0x0421"
| "ServiceType_to_u16 ST_TunnellingFeatureGet = 0x0422"
| "ServiceType_to_u16 ST_TunnellingFeatureResponse = 0x0423"
| "ServiceType_to_u16 ST_TunnellingFeatureSet = 0x0424"
| "ServiceType_to_u16 ST_TunnellingFeatureInfo = 0x0425"
| "ServiceType_to_u16 ST_RoutingIndication = 0x0530"
| "ServiceType_to_u16 ST_RoutingLostMessage = 0x0531"
| "ServiceType_to_u16 ST_RoutingBusy = 0x0532"
| "ServiceType_to_u16 ST_RoutingSystemBroadcast = 0x0533"
| "ServiceType_to_u16 ST_RemoteDiagnosticRequest = 0x0740"
| "ServiceType_to_u16 ST_RemoteDiagnosticResponse = 0x0741"
| "ServiceType_to_u16 ST_RemoteBasicConfigRequest = 0x0742"
| "ServiceType_to_u16 ST_RemoteResetRequest = 0x0743"
| "ServiceType_to_u16 ST_ObjectServerRequest = 0x0800"

definition ServiceType_try_from :: "u16 \<Rightarrow> ServiceType KnxResult" where
  "ServiceType_try_from value =
    (if value = 0x0201 then Ok ST_SearchRequest
     else if value = 0x0202 then Ok ST_SearchResponse
     else if value = 0x0203 then Ok ST_DescriptionRequest
     else if value = 0x0204 then Ok ST_DescriptionResponse
     else if value = 0x0205 then Ok ST_ConnectRequest
     else if value = 0x0206 then Ok ST_ConnectResponse
     else if value = 0x0207 then Ok ST_ConnectionStateRequest
     else if value = 0x0208 then Ok ST_ConnectionStateResponse
     else if value = 0x0209 then Ok ST_DisconnectRequest
     else if value = 0x020A then Ok ST_DisconnectResponse
     else if value = 0x020B then Ok ST_SearchRequestExtended
     else if value = 0x020C then Ok ST_SearchResponseExtended
     else if value = 0x0310 then Ok ST_DeviceConfigurationRequest
     else if value = 0x0311 then Ok ST_DeviceConfigurationAck
     else if value = 0x0420 then Ok ST_TunnellingRequest
     else if value = 0x0421 then Ok ST_TunnellingAck
     else if value = 0x0422 then Ok ST_TunnellingFeatureGet
     else if value = 0x0423 then Ok ST_TunnellingFeatureResponse
     else if value = 0x0424 then Ok ST_TunnellingFeatureSet
     else if value = 0x0425 then Ok ST_TunnellingFeatureInfo
     else if value = 0x0530 then Ok ST_RoutingIndication
     else if value = 0x0531 then Ok ST_RoutingLostMessage
     else if value = 0x0532 then Ok ST_RoutingBusy
     else if value = 0x0533 then Ok ST_RoutingSystemBroadcast
     else if value = 0x0740 then Ok ST_RemoteDiagnosticRequest
     else if value = 0x0741 then Ok ST_RemoteDiagnosticResponse
     else if value = 0x0742 then Ok ST_RemoteBasicConfigRequest
     else if value = 0x0743 then Ok ST_RemoteResetRequest
     else if value = 0x0800 then Ok ST_ObjectServerRequest
     else Err (UnknownServiceType value))"

datatype ServiceFamily =
    SF_Core | SF_DeviceManagement | SF_Tunnelling | SF_Routing | SF_RemoteLogging
  | SF_RemoteConfiguration | SF_ObjectServer | SF_Unknown

fun ServiceFamily_id :: "ServiceFamily \<Rightarrow> u8" where
  "ServiceFamily_id SF_Core = 0x02"
| "ServiceFamily_id SF_DeviceManagement = 0x03"
| "ServiceFamily_id SF_Tunnelling = 0x04"
| "ServiceFamily_id SF_Routing = 0x05"
| "ServiceFamily_id SF_RemoteLogging = 0x06"
| "ServiceFamily_id SF_RemoteConfiguration = 0x07"
| "ServiceFamily_id SF_ObjectServer = 0x08"
| "ServiceFamily_id SF_Unknown = 0x00"

definition ServiceFamily_from_id :: "u8 \<Rightarrow> ServiceFamily" where
  "ServiceFamily_from_id i =
    (if i = 0x02 then SF_Core
     else if i = 0x03 then SF_DeviceManagement
     else if i = 0x04 then SF_Tunnelling
     else if i = 0x05 then SF_Routing
     else if i = 0x06 then SF_RemoteLogging
     else if i = 0x07 then SF_RemoteConfiguration
     else if i = 0x08 then SF_ObjectServer
     else SF_Unknown)"

definition ServiceType_family :: "ServiceType \<Rightarrow> ServiceFamily" where
  "ServiceType_family st =
    (let hi = drop_bit 8 (ServiceType_to_u16 st) in
     if hi = 0x02 then SF_Core
     else if hi = 0x03 then SF_DeviceManagement
     else if hi = 0x04 then SF_Tunnelling
     else if hi = 0x05 then SF_Routing
     else if hi = 0x06 then SF_RemoteLogging
     else if hi = 0x07 then SF_RemoteConfiguration
     else if hi = 0x08 then SF_ObjectServer
     else SF_Unknown)"

definition ServiceType_is_request :: "ServiceType \<Rightarrow> bool" where
  "ServiceType_is_request st \<longleftrightarrow> st \<in>
    {ST_SearchRequest, ST_DescriptionRequest, ST_ConnectRequest, ST_ConnectionStateRequest,
     ST_DisconnectRequest, ST_DeviceConfigurationRequest, ST_TunnellingRequest,
     ST_TunnellingFeatureGet, ST_TunnellingFeatureSet, ST_RemoteDiagnosticRequest,
     ST_RemoteBasicConfigRequest, ST_RemoteResetRequest, ST_ObjectServerRequest}"

definition ServiceType_is_response :: "ServiceType \<Rightarrow> bool" where
  "ServiceType_is_response st \<longleftrightarrow> st \<in>
    {ST_SearchResponse, ST_DescriptionResponse, ST_ConnectResponse, ST_ConnectionStateResponse,
     ST_DisconnectResponse, ST_TunnellingFeatureResponse, ST_RemoteDiagnosticResponse}"

definition ServiceType_is_ack :: "ServiceType \<Rightarrow> bool" where
  "ServiceType_is_ack st \<longleftrightarrow> st \<in> {ST_DeviceConfigurationAck, ST_TunnellingAck}"

fun ServiceType_expected_response :: "ServiceType \<Rightarrow> ServiceType option" where
  "ServiceType_expected_response ST_SearchRequest = Some ST_SearchResponse"
| "ServiceType_expected_response ST_DescriptionRequest = Some ST_DescriptionResponse"
| "ServiceType_expected_response ST_ConnectRequest = Some ST_ConnectResponse"
| "ServiceType_expected_response ST_ConnectionStateRequest = Some ST_ConnectionStateResponse"
| "ServiceType_expected_response ST_DisconnectRequest = Some ST_DisconnectResponse"
| "ServiceType_expected_response ST_TunnellingRequest = Some ST_TunnellingAck"
| "ServiceType_expected_response ST_DeviceConfigurationRequest = Some ST_DeviceConfigurationAck"
| "ServiceType_expected_response ST_TunnellingFeatureGet = Some ST_TunnellingFeatureResponse"
| "ServiceType_expected_response _ = None"

lemma ServiceType_try_from_to_u16 [simp]: "ServiceType_try_from (ServiceType_to_u16 st) = Ok st"
  by (cases st) (simp_all add: ServiceType_try_from_def)

lemma ServiceType_try_from_OkD: "ServiceType_try_from w = Ok st \<Longrightarrow> w = ServiceType_to_u16 st"
  by (auto simp: ServiceType_try_from_def split: if_splits)

lemma ServiceType_try_from_eq_Ok_iff:
  "ServiceType_try_from w = Ok st \<longleftrightarrow> w = ServiceType_to_u16 st"
  by (auto dest: ServiceType_try_from_OkD)

lemma ServiceType_try_from_not_Panic [simp]: "ServiceType_try_from w \<noteq> Panic"
  by (simp add: ServiceType_try_from_def)

lemma ServiceType_to_u16_inject: "ServiceType_to_u16 s = ServiceType_to_u16 t \<longleftrightarrow> s = t"
  using ServiceType_try_from_eq_Ok_iff [of "ServiceType_to_u16 s" t] by simp

lemma ServiceFamily_from_id_id [simp]: "ServiceFamily_from_id (ServiceFamily_id f) = f"
  by (cases f) (simp_all add: ServiceFamily_from_id_def)

text \<open>
  The answer to a request belongs to the request's family, and no answer is itself a
  request.
\<close>

lemma expected_response_family:
  "ServiceType_expected_response st = Some r \<Longrightarrow>
     ServiceType_family r = ServiceType_family st \<and> ServiceType_is_request st \<and>
     (ServiceType_is_response r \<or> ServiceType_is_ack r) \<and> \<not> ServiceType_is_request r"
  by (cases st) (auto simp: ServiceType_family_def ServiceType_is_request_def
    ServiceType_is_response_def ServiceType_is_ack_def)

end
