(* ===== verification/Knx_Frame.thy ===== *)
theory Knx_Frame
  imports Knx_Service
begin

text \<open>
  The KNXnet/IP frame layer, \<^verbatim>\<open>mabi-knx/src/frame/header.rs\<close>, \<^verbatim>\<open>hpai.rs\<close> and
  \<^verbatim>\<open>mod.rs\<close>: the six-byte header, the eight-byte endpoint address (HPAI), the frame
  itself and the frame builder. Every encoder and decoder takes the buffer operations
  of the \<^verbatim>\<open>bytes\<close> crate as its first argument.
\<close>

section \<open>Header\<close>

definition HEADER_SIZE :: u8 where "HEADER_SIZE = 0x06"
definition PROTOCOL_VERSION :: u8 where "PROTOCOL_VERSION = 0x10"

record KnxNetIpHeader =
  hdr_service_type :: ServiceType
  hdr_total_length :: u16

definition KnxNetIpHeader_new :: "ServiceType \<Rightarrow> usize \<Rightarrow> KnxNetIpHeader" where
  "KnxNetIpHeader_new st body_length =
     \<lparr>hdr_service_type = st, hdr_total_length = as_u16 (unat HEADER_SIZE + body_length)\<rparr>"

definition KnxNetIpHeader_encode :: "KnxNetIpHeader \<Rightarrow> bytes" where
  "KnxNetIpHeader_encode h =
     [HEADER_SIZE, PROTOCOL_VERSION] @ u16_to_be (ServiceType_to_u16 (hdr_service_type h)) @
     u16_to_be (hdr_total_length h)"

definition KnxNetIpHeader_encode_to :: "buf_api \<Rightarrow> KnxNetIpHeader \<Rightarrow> bytes \<Rightarrow> bytes" where
  "KnxNetIpHeader_encode_to B h buf =
    (let buf = api_put_u8 B buf HEADER_SIZE;
         buf = api_put_u8 B buf PROTOCOL_VERSION;
         buf = api_put_u16 B buf (ServiceType_to_u16 (hdr_service_type h))
     in api_put_u16 B buf (hdr_total_length h))"

definition KnxNetIpHeader_decode :: "buf_api \<Rightarrow> bytes \<Rightarrow> KnxNetIpHeader KnxResult" where
  "KnxNetIpHeader_decode B data =
    (if length data < unat HEADER_SIZE
     then Err (KnxError_frame_too_short (unat HEADER_SIZE) (length data))
     else obind (get_u8 B data) (\<lambda>(header_size, buf).
       if header_size \<noteq> HEADER_SIZE
       then Err (InvalidHeader (''Invalid header size: expected '' @ show_word HEADER_SIZE @
                                '', got '' @ show_word header_size))
       else obind (get_u8 B buf) (\<lambda>(version, buf).
         if version \<noteq> PROTOCOL_VERSION then Err (InvalidProtocolVersion PROTOCOL_VERSION version)
         else obind (get_u16 B buf) (\<lambda>(st, buf).
           obind (ServiceType_try_from st) (\<lambda>service_type.
           obind (get_u16 B buf) (\<lambda>(total_length, buf).
             Ok \<lparr>hdr_service_type = service_type, hdr_total_length = total_length\<rparr>))))))"


section \<open>Host protocol address information\<close>

type_synonym Ipv4Addr = "u8 \<times> u8 \<times> u8 \<times> u8"
type_synonym SocketAddrV4 = "Ipv4Addr \<times> u16"

fun Ipv4Addr_octets :: "Ipv4Addr \<Rightarrow> bytes" where
  "Ipv4Addr_octets (a, b, c, d) = [a, b, c, d]"

fun Ipv4Addr_fmt :: "Ipv4Addr \<Rightarrow> string" where
  "Ipv4Addr_fmt (a, b, c, d) =
     show_word a @ ''.'' @ show_word b @ ''.'' @ show_word c @ ''.'' @ show_word d"

definition HPAI_SIZE :: u8 where "HPAI_SIZE = 8"

datatype HostProtocol = Udp4 | Tcp4

fun HostProtocol_to_u8 :: "HostProtocol \<Rightarrow> u8" where
  "HostProtocol_to_u8 Udp4 = 0x01"
| "HostProtocol_to_u8 Tcp4 = 0x02"

definition HostProtocol_from_u8 :: "u8 \<Rightarrow> HostProtocol option" where
  "HostProtocol_from_u8 v = (if v = 0x01 then Some Udp4 else if v = 0x02 then Some Tcp4 else None)"

record Hpai =
  hp_protocol :: HostProtocol
  hp_ip_address :: Ipv4Addr
  hp_port :: u16

definition Hpai_udp_ipv4 :: "Ipv4Addr \<Rightarrow> u16 \<Rightarrow> Hpai" where
  "Hpai_udp_ipv4 ip p = \<lparr>hp_protocol = Udp4, hp_ip_address = ip, hp_port = p\<rparr>"

definition Hpai_nat :: Hpai where "Hpai_nat = Hpai_udp_ipv4 (0, 0, 0, 0) 0"

definition Hpai_is_nat :: "Hpai \<Rightarrow> bool" where
  "Hpai_is_nat h \<longleftrightarrow> hp_ip_address h = (0, 0, 0, 0) \<and> hp_port h = 0"

definition Hpai_to_socket_addr :: "Hpai \<Rightarrow> SocketAddrV4" where
  "Hpai_to_socket_addr h = (hp_ip_address h, hp_port h)"

definition Hpai_encode_to :: "buf_api \<Rightarrow> Hpai \<Rightarrow> bytes \<Rightarrow> bytes" where
  "Hpai_encode_to B h buf =
    (let buf = api_put_u8 B buf HPAI_SIZE;
         buf = api_put_u8 B buf (HostProtocol_to_u8 (hp_protocol h));
         buf = api_put_slice B buf (Ipv4Addr_octets (hp_ip_address h))
     in api_put_u16 B buf (hp_port h))"

definition Hpai_encode :: "buf_api \<Rightarrow> Hpai \<Rightarrow> bytes" where
  "Hpai_encode B h = Hpai_encode_to B h []"

definition Hpai_decode :: "buf_api \<Rightarrow> bytes \<Rightarrow> Hpai KnxResult" where
  "Hpai_decode B data =
    (if length data < unat HPAI_SIZE
     then Err (KnxError_frame_too_short (unat HPAI_SIZE) (length data))
     else obind (get_u8 B data) (\<lambda>(len, buf).
       if len \<noteq> HPAI_SIZE
       then Err (InvalidHpai (''Invalid HPAI length: expected '' @ show_word HPAI_SIZE @
                              '', got '' @ show_word len))
       else obind (get_u8 B buf) (\<lambda>(protocol_code, buf).
         obind (ok_or (HostProtocol_from_u8 protocol_code)
                  (InvalidHpai (''Unknown protocol code: '' @ hex_prefixed_u8 protocol_code)))
           (\<lambda>protocol.
         obind (get_u8 B buf) (\<lambda>(a, buf). obind (get_u8 B buf) (\<lambda>(b, buf).
         obind (get_u8 B buf) (\<lambda>(c, buf). obind (get_u8 B buf) (\<lambda>(d, buf).
         obind (get_u16 B buf) (\<lambda>(port, buf).
           Ok \<lparr>hp_protocol = protocol, hp_ip_address = (a, b, c, d), hp_port = port\<rparr>)))))))))"

definition Hpai_decode_from :: "buf_api \<Rightarrow> bytes \<Rightarrow> (Hpai \<times> bytes) KnxResult" where
  "Hpai_decode_from B buf =
     obind (Hpai_decode B buf) (\<lambda>hpai.
     obind (slice_from buf (unat HPAI_SIZE)) (\<lambda>rest. Ok (hpai, rest)))"


section \<open>Frames\<close>

record KnxFrame =
  kf_service_type :: ServiceType
  kf_body :: bytes

definition KnxFrame_new :: "ServiceType \<Rightarrow> bytes \<Rightarrow> KnxFrame" where
  "KnxFrame_new st body = \<lparr>kf_service_type = st, kf_body = body\<rparr>"

definition KnxFrame_total_length :: "KnxFrame \<Rightarrow> usize" where
  "KnxFrame_total_length f = unat HEADER_SIZE + length (kf_body f)"

definition KnxFrame_encode :: "buf_api \<Rightarrow> KnxFrame \<Rightarrow> bytes" where
  "KnxFrame_encode B f =
    (let total_length = KnxFrame_total_length f;
         buf = api_put_u8 B [] HEADER_SIZE;
         buf = api_put_u8 B buf PROTOCOL_VERSION;
         buf = api_put_u16 B buf (ServiceType_to_u16 (kf_service_type f));
         buf = api_put_u16 B buf (as_u16 total_length)
     in api_put_slice B buf (kf_body f))"

definition KnxFrame_decode :: "buf_api \<Rightarrow> bytes \<Rightarrow> KnxFrame KnxResult" where
  "KnxFrame_decode B data =
    (if length data < unat HEADER_SIZE
     then Err (KnxError_frame_too_short (unat HEADER_SIZE) (length data))
     else obind (get_u8 B data) (\<lambda>(header_size, buf).
       if header_size \<noteq> HEADER_SIZE
       then Err (InvalidHeader (''Expected header size '' @ show_word HEADER_SIZE @
                                '', got '' @ show_word header_size))
       else obind (get_u8 B buf) (\<lambda>(version, buf).
         if version \<noteq> PROTOCOL_VERSION then Err (InvalidProtocolVersion PROTOCOL_VERSION version)
         else obind (get_u16 B buf) (\<lambda>(st, buf).
           obind (ServiceType_try_from st) (\<lambda>service_type.
           obind (get_u16 B buf) (\<lambda>(tl, buf).
             let total_length = unat tl in
             if length data < total_length then Err (FrameLengthMismatch total_length (length data))
             else obind (usub total_length (unat HEADER_SIZE)) (\<lambda>n.
                  obind (slice_to buf n) (\<lambda>body.
                    Ok \<lparr>kf_service_type = service_type, kf_body = body\<rparr>))))))))"

record FrameBuilder =
  fb_service_type :: ServiceType
  fb_body :: bytes

definition FrameBuilder_new :: "ServiceType \<Rightarrow> FrameBuilder" where
  "FrameBuilder_new st = \<lparr>fb_service_type = st, fb_body = []\<rparr>"

definition FrameBuilder_put_bytes :: "buf_api \<Rightarrow> FrameBuilder \<Rightarrow> bytes \<Rightarrow> FrameBuilder" where
  "FrameBuilder_put_bytes B fb data = fb\<lparr>fb_body := api_put_slice B (fb_body fb) data\<rparr>"

definition FrameBuilder_put_u8 :: "buf_api \<Rightarrow> FrameBuilder \<Rightarrow> u8 \<Rightarrow> FrameBuilder" where
  "FrameBuilder_put_u8 B fb v = fb\<lparr>fb_body := api_put_u8 B (fb_body fb) v\<rparr>"

definition FrameBuilder_put_u16 :: "buf_api \<Rightarrow> FrameBuilder \<Rightarrow> u16 \<Rightarrow> FrameBuilder" where
  "FrameBuilder_put_u16 B fb v = fb\<lparr>fb_body := api_put_u16 B (fb_body fb) v\<rparr>"

definition FrameBuilder_put_u32 :: "buf_api \<Rightarrow> FrameBuilder \<Rightarrow> u32 \<Rightarrow> FrameBuilder" where
  "FrameBuilder_put_u32 B fb v = fb\<lparr>fb_body := api_put_u32 B (fb_body fb) v\<rparr>"

definition FrameBuilder_put_hpai :: "buf_api \<Rightarrow> FrameBuilder \<Rightarrow> Hpai \<Rightarrow> FrameBuilder" where
  "FrameBuilder_put_hpai B fb h = FrameBuilder_put_bytes B fb (Hpai_encode B h)"

definition FrameBuilder_build :: "FrameBuilder \<Rightarrow> KnxFrame" where
  "FrameBuilder_build fb = \<lparr>kf_service_type = fb_service_type fb, kf_body = fb_body fb\<rparr>"

lemmas frame_consts = HEADER_SIZE_def PROTOCOL_VERSION_def HPAI_SIZE_def

lemmas [wire_defs] =
  KnxNetIpHeader_encode_def KnxNetIpHeader_encode_to_def KnxNetIpHeader_decode_def
  Hpai_encode_to_def Hpai_encode_def Hpai_decode_def Hpai_decode_from_def
  KnxFrame_encode_def KnxFrame_decode_def

definition KnxFrame_fits :: "KnxFrame \<Rightarrow> bool" where
  "KnxFrame_fits f \<longleftrightarrow> KnxFrame_total_length f \<le> 65535"


section \<open>Codec laws\<close>

lemma HostProtocol_from_u8_to_u8 [simp]: "HostProtocol_from_u8 (HostProtocol_to_u8 p) = Some p"
  by (cases p) (simp_all add: HostProtocol_from_u8_def)

lemma HostProtocol_from_u8_eq_Some_iff:
  "HostProtocol_from_u8 v = Some p \<longleftrightarrow> v = HostProtocol_to_u8 p"
  by (cases p) (auto simp: HostProtocol_from_u8_def)

text \<open>Lists of at least six and eight bytes, opened for evaluation.\<close>

lemma list_ge6E:
  assumes "6 \<le> length xs"
  obtains a b c d e f ys where "xs = a # b # c # d # e # f # ys"
proof -
  have "Suc (Suc (Suc (Suc (Suc (Suc 0))))) \<le> length xs" using assms by simp
  then show ?thesis using that by (auto simp: Suc_le_length_iff)
qed

lemma list_ge8E:
  assumes "8 \<le> length xs"
  obtains a b c d e f g h ys where "xs = a # b # c # d # e # f # g # h # ys"
proof -
  have "Suc (Suc (Suc (Suc (Suc (Suc (Suc (Suc 0))))))) \<le> length xs" using assms by simp
  then show ?thesis using that by (auto simp: Suc_le_length_iff)
qed

context bytes_crate
begin

lemma header_encode_to: "KnxNetIpHeader_encode_to B h buf = buf @ KnxNetIpHeader_encode h"
  by (simp add: wire_defs put_laws)

lemma header_decode_encode: "KnxNetIpHeader_decode B (KnxNetIpHeader_encode h @ rest) = Ok h"
  by (simp add: wire_defs frame_consts u16_to_be_def get_laws)

lemma hpai_encode_to: "Hpai_encode_to B h buf = buf @ Hpai_encode B h"
  by (simp add: wire_defs put_laws)

lemma hpai_encode:
  "Hpai_encode B h =
     [8, HostProtocol_to_u8 (hp_protocol h)] @ Ipv4Addr_octets (hp_ip_address h) @ u16_to_be (hp_port h)"
  by (simp add: wire_defs put_laws frame_consts)

lemma length_hpai_encode [simp]: "length (Hpai_encode B h) = 8"
  by (cases "hp_ip_address h") (simp add: hpai_encode)

lemma hpai_decode_encode: "Hpai_decode B (Hpai_encode B h @ rest) = Ok h"
  by (cases "hp_ip_address h")
    (simp add: hpai_encode Hpai_decode_def frame_consts u16_to_be_def get_laws)

lemma hpai_decode_cons:
  "Hpai_decode B (l # p # a # b # c # d # q # r # ys) =
    (if l \<noteq> 8 then Err (InvalidHpai (''Invalid HPAI length: expected '' @ show_word HPAI_SIZE @
                              '', got '' @ show_word l))
     else case HostProtocol_from_u8 p of
       None \<Rightarrow> Err (InvalidHpai (''Unknown protocol code: '' @ hex_prefixed_u8 p))
     | Some prot \<Rightarrow> Ok \<lparr>hp_protocol = prot, hp_ip_address = (a, b, c, d), hp_port = u16_of_be q r\<rparr>)"
  by (simp add: Hpai_decode_def frame_consts get_laws split: option.split)

lemma hpai_decode_short: "length data < 8 \<Longrightarrow> Hpai_decode B data = Err (FrameTooShort 8 (length data))"
  by (simp add: Hpai_decode_def frame_consts KnxError_frame_too_short_def)

lemma hpai_decode_OkD:
  assumes "Hpai_decode B data = Ok h"
  shows "\<exists>rest. data = Hpai_encode B h @ rest"
proof (cases "length data < 8")
  case False
  then have "8 \<le> length data" by simp
  then obtain l p a b c d q r ys where data: "data = l # p # a # b # c # d # q # r # ys"
    by (rule list_ge8E)
  from assms show ?thesis
    by (auto simp: data hpai_decode_cons hpai_encode u16_to_be_def HostProtocol_from_u8_eq_Some_iff
        split: if_splits option.splits)
qed (use assms in \<open>simp add: hpai_decode_short\<close>)

lemma hpai_decode_iff: "Hpai_decode B data = Ok h \<longleftrightarrow> (\<exists>rest. data = Hpai_encode B h @ rest)"
  using hpai_decode_OkD hpai_decode_encode by blast

lemma hpai_decode_not_panic: "Hpai_decode B data \<noteq> Panic"
proof (cases "length data < 8")
  case False
  then have "8 \<le> length data" by simp
  then obtain l p a b c d q r ys where data: "data = l # p # a # b # c # d # q # r # ys"
    by (rule list_ge8E)
  show ?thesis by (simp add: data hpai_decode_cons split: option.split)
qed (simp add: hpai_decode_short)

lemma hpai_decode_from_encode: "Hpai_decode_from B (Hpai_encode B h @ rest) = Ok (h, rest)"
  by (simp add: Hpai_decode_from_def hpai_decode_encode frame_consts slice_from_def)

lemma hpai_decode_from_iff:
  "Hpai_decode_from B data = Ok (h, rest) \<longleftrightarrow> data = Hpai_encode B h @ rest"
proof
  assume *: "Hpai_decode_from B data = Ok (h, rest)"
  then have "Hpai_decode B data = Ok h" by (auto simp: Hpai_decode_from_def obind_eq_Ok_iff)
  then obtain r where data: "data = Hpai_encode B h @ r" using hpai_decode_OkD by blast
  with * show "data = Hpai_encode B h @ rest" by (simp add: hpai_decode_from_encode)
qed (simp add: hpai_decode_from_encode)

lemma frame_encode:
  "KnxFrame_encode B f =
     [6, 0x10] @ u16_to_be (ServiceType_to_u16 (kf_service_type f)) @
     u16_to_be (as_u16 (KnxFrame_total_length f)) @ kf_body f"
  by (simp add: wire_defs put_laws frame_consts)

lemma total_length: "KnxFrame_total_length f = 6 + length (kf_body f)"
  by (simp add: KnxFrame_total_length_def frame_consts)

lemma frame_decode_cons:
  "KnxFrame_decode B (a # b # c # d # e # f # ys) =
    (if a \<noteq> 6 then Err (InvalidHeader (''Expected header size '' @ show_word HEADER_SIZE @
                                '', got '' @ show_word a))
     else if b \<noteq> 0x10 then Err (InvalidProtocolVersion 0x10 b)
     else obind (ServiceType_try_from (u16_of_be c d)) (\<lambda>st.
       let n = unat (u16_of_be e f) in
       if length ys + 6 < n then Err (FrameLengthMismatch n (length ys + 6))
       else if n < 6 then Panic
       else Ok \<lparr>kf_service_type = st, kf_body = take (n - 6) ys\<rparr>))"
  by (cases "ServiceType_try_from (u16_of_be c d)")
    (auto simp: KnxFrame_decode_def frame_consts get_laws usub_def slice_to_def Let_def)

lemma frame_decode_short: "length data < 6 \<Longrightarrow> KnxFrame_decode B data = Err (FrameTooShort 6 (length data))"
  by (simp add: KnxFrame_decode_def frame_consts KnxError_frame_too_short_def)

lemma frame_decode_encode: "KnxFrame_fits f \<Longrightarrow> KnxFrame_decode B (KnxFrame_encode B f @ rest) = Ok f"
  by (simp add: frame_encode u16_to_be_def frame_decode_cons Let_def KnxFrame_fits_def unat_as_u16)
    (simp add: total_length)

lemma frame_decode_OkD:
  assumes "KnxFrame_decode B data = Ok f"
  shows "KnxFrame_fits f \<and> (\<exists>rest. data = KnxFrame_encode B f @ rest)"
proof (cases "length data < 6")
  case False
  then have "6 \<le> length data" by simp
  then obtain a b c d e g ys where data: "data = a # b # c # d # e # g # ys"
    by (rule list_ge6E)
  define n where "n = unat (u16_of_be e g)"
  from assms have ab: "a = 6" "b = 0x10" and cd: "u16_of_be c d = ServiceType_to_u16 (kf_service_type f)"
    and body: "kf_body f = take (n - 6) ys" and n: "6 \<le> n" "n \<le> length ys + 6"
    by (auto simp: data frame_decode_cons obind_eq_Ok_iff Let_def n_def
        ServiceType_try_from_eq_Ok_iff split: if_splits)
  have len: "KnxFrame_total_length f = n" using body n by (simp add: total_length)
  have "as_u16 n = u16_of_be e g" by (simp add: n_def)
  then have "data = KnxFrame_encode B f @ drop (n - 6) ys"
    using ab body by (simp add: frame_encode len data u16_to_be_def flip: cd)
  moreover have "n \<le> 65535" unfolding n_def by (rule unat_u16_le)
  ultimately show ?thesis
    using len by (auto simp: KnxFrame_fits_def)
qed (use assms in \<open>simp add: frame_decode_short\<close>)

lemma frame_decode_iff:
  "KnxFrame_decode B data = Ok f \<longleftrightarrow> KnxFrame_fits f \<and> (\<exists>rest. data = KnxFrame_encode B f @ rest)"
  using frame_decode_OkD frame_decode_encode by blast

lemma frame_decode_panic_iff:
  "KnxFrame_decode B data = Panic \<longleftrightarrow>
     6 \<le> length data \<and> data ! 0 = 6 \<and> data ! 1 = 0x10 \<and>
     (\<exists>st. u16_of_be (data ! 2) (data ! 3) = ServiceType_to_u16 st) \<and>
     unat (u16_of_be (data ! 4) (data ! 5)) < 6"
proof (cases "length data < 6")
  case False
  then have "6 \<le> length data" by simp
  then obtain a b c d e g ys where data: "data = a # b # c # d # e # g # ys"
    by (rule list_ge6E)
  show ?thesis
    by (auto simp: data frame_decode_cons obind_eq_Panic_iff Let_def ServiceType_try_from_eq_Ok_iff)
qed (simp add: frame_decode_short)

end

sublocale bytes_crate \<subseteq> knx_header: prefix_codec "\<lambda>_. True" KnxNetIpHeader_encode "KnxNetIpHeader_decode B"
  by unfold_locales (rule header_decode_encode)

sublocale bytes_crate \<subseteq> knx_frame: prefix_codec KnxFrame_fits "KnxFrame_encode B" "KnxFrame_decode B"
  by unfold_locales (rule frame_decode_encode)

sublocale bytes_crate \<subseteq> hpai: stream_codec "\<lambda>_. True" "Hpai_encode B" "Hpai_decode_from B"
  by unfold_locales (rule hpai_decode_from_encode, simp add: hpai_encode)


section \<open>Properties\<close>

text \<open>
  C21. The frame decoder accepts exactly the encodings of frames whose total length fits
  the 16-bit length field, followed by any bytes: it returns the frame that was encoded,
  and every accepted datagram starts with the encoding of what was returned.
\<close>

theorem knx_frame_decode_exact:
  assumes "bytes_crate B"
  shows "KnxFrame_decode B data = Ok f \<longleftrightarrow>
           KnxFrame_fits f \<and> (\<exists>rest. data = KnxFrame_encode B f @ rest)"
  by (rule bytes_crate.frame_decode_iff [OF assms])

theorem knx_frame_decode_exact_witness:
  "bytes_crate std_buf \<and>
   KnxFrame_decode std_buf [6, 0x10, 0x04, 0x21, 0, 10, 4, 1, 7, 0, 99] =
     Ok \<lparr>kf_service_type = ST_TunnellingAck, kf_body = [4, 1, 7, 0]\<rparr>"
proof -
  let ?f = "\<lparr>kf_service_type = ST_TunnellingAck, kf_body = [4, 1, 7, 0]\<rparr> :: KnxFrame"
  have "[6, 0x10, 0x04, 0x21, 0, 10, 4, 1, 7, 0, 99] = KnxFrame_encode std_buf ?f @ [99]"
    by (simp add: std.frame_encode u16_to_be_def u16_be_hi_def u16_be_lo_def std.total_length)
  moreover have "KnxFrame_fits ?f" by (simp add: KnxFrame_fits_def std.total_length)
  ultimately show ?thesis
    using knx_frame_decode_exact [OF bytes_crate_std, of _ ?f] bytes_crate_std by blast
qed

text \<open>
  C22. The frame decoder panics exactly on the datagrams with a well-formed header, a
  known service type and a length field below the header size: the body length is
  computed as \<^verbatim>\<open>total_length - HEADER_SIZE\<close> without a check.
\<close>

theorem knx_frame_decode_panics_iff:
  assumes "bytes_crate B"
  shows "KnxFrame_decode B data = Panic \<longleftrightarrow>
     6 \<le> length data \<and> data ! 0 = HEADER_SIZE \<and> data ! 1 = PROTOCOL_VERSION \<and>
     (\<exists>st. u16_of_be (data ! 2) (data ! 3) = ServiceType_to_u16 st) \<and>
     unat (u16_of_be (data ! 4) (data ! 5)) < unat HEADER_SIZE"
  using bytes_crate.frame_decode_panic_iff [OF assms] by (simp add: frame_consts)

theorem knx_frame_decode_panics_iff_witness:
  "bytes_crate std_buf \<and> KnxFrame_decode std_buf [6, 0x10, 0x02, 0x01, 0, 0] = Panic"
proof -
  have "\<exists>st. ServiceType_to_u16 st = 0x0201" by (rule exI [of _ ST_SearchRequest]) simp
  then show ?thesis
    using knx_frame_decode_panics_iff [OF bytes_crate_std, of "[6, 0x10, 0x02, 0x01, 0, 0]"]
    by (auto simp: bytes_crate_std frame_consts u16_of_be_def)
qed

text \<open>
  Reading an endpoint address never panics, on any input, and succeeds exactly on
  the encoding of the address it returns, leaving the bytes after it.
\<close>

lemma hpai_decode_from_exact:
  assumes "bytes_crate B"
  shows "Hpai_decode B data \<noteq> Panic \<and>
    (Hpai_decode_from B data = Ok (h, rest) \<longleftrightarrow> data = Hpai_encode B h @ rest)"
  using bytes_crate.hpai_decode_not_panic [OF assms] bytes_crate.hpai_decode_from_iff [OF assms]
  by simp

end
