(* ===== verification/Knx_Address.thy ===== *)
theory Knx_Address
  imports Knx_Error
begin

text \<open>
  KNX individual and group addresses (\<^verbatim>\<open>crates/mabi-knx/src/address.rs\<close>): construction,
  the 16-bit encodings, printing and parsing, and ranges of group addresses.
\<close>


section \<open>Individual addresses\<close>

record IndividualAddress =
  ia_area :: u8
  ia_line :: u8
  ia_device :: u8

definition IndividualAddress_MAX_AREA :: u8 where "IndividualAddress_MAX_AREA = 15"
definition IndividualAddress_MAX_LINE :: u8 where "IndividualAddress_MAX_LINE = 15"

definition IndividualAddress_new :: "u8 \<Rightarrow> u8 \<Rightarrow> u8 \<Rightarrow> ('e, IndividualAddress) outcome" where
  "IndividualAddress_new area line device =
     (if \<not> area \<le> IndividualAddress_MAX_AREA then Panic
      else if \<not> line \<le> IndividualAddress_MAX_LINE then Panic
      else Ok \<lparr>ia_area = area, ia_line = line, ia_device = device\<rparr>)"

definition IndividualAddress_try_new :: "u8 \<Rightarrow> u8 \<Rightarrow> u8 \<Rightarrow> IndividualAddress KnxResult" where
  "IndividualAddress_try_new area line device =
     (if area > IndividualAddress_MAX_AREA
      then Err (AddressOutOfRange (''area='' @ show_word area) ''0-15'')
      else if line > IndividualAddress_MAX_LINE
      then Err (AddressOutOfRange (''line='' @ show_word line) ''0-15'')
      else Ok \<lparr>ia_area = area, ia_line = line, ia_device = device\<rparr>)"

definition IndividualAddress_encode :: "IndividualAddress \<Rightarrow> u16" where
  "IndividualAddress_encode a =
     push_bit 12 (ucast (ia_area a)) OR push_bit 8 (ucast (ia_line a)) OR ucast (ia_device a)"

definition IndividualAddress_decode :: "u16 \<Rightarrow> IndividualAddress" where
  "IndividualAddress_decode v =
     \<lparr>ia_area = ucast (drop_bit 12 v AND 0x0F),
      ia_line = ucast (drop_bit 8 v AND 0x0F),
      ia_device = ucast (v AND 0xFF)\<rparr>"

definition IndividualAddress_to_bytes :: "IndividualAddress \<Rightarrow> bytes" where
  "IndividualAddress_to_bytes a = u16_to_be (IndividualAddress_encode a)"

definition IndividualAddress_is_broadcast :: "IndividualAddress \<Rightarrow> bool" where
  "IndividualAddress_is_broadcast a \<longleftrightarrow> ia_area a = 0 \<and> ia_line a = 0 \<and> ia_device a = 0"

definition IndividualAddress_fmt :: "IndividualAddress \<Rightarrow> string" where
  "IndividualAddress_fmt a =
     show_word (ia_area a) @ ''.'' @ show_word (ia_line a) @ ''.'' @ show_word (ia_device a)"

definition IndividualAddress_from_str :: "string \<Rightarrow> IndividualAddress KnxResult" where
  "IndividualAddress_from_str s =
     (let parts = split_on (CHR ''.'') s in
      if length parts \<noteq> 3
      then Err (InvalidIndividualAddress
             (''Expected format '' @ quoted ''area.line.device'' @ '', got '' @ quoted s))
      else
        obind (ok_or (parse_u8 (parts ! 0))
                (InvalidIndividualAddress (''Invalid area: '' @ parts ! 0))) (\<lambda>area.
        obind (ok_or (parse_u8 (parts ! 1))
                (InvalidIndividualAddress (''Invalid line: '' @ parts ! 1))) (\<lambda>line.
        obind (ok_or (parse_u8 (parts ! 2))
                (InvalidIndividualAddress (''Invalid device: '' @ parts ! 2))) (\<lambda>device.
        map_err (\<lambda>_. InvalidIndividualAddress s)
          (IndividualAddress_try_new area line device)))))"

text \<open>The type invariant that both constructors establish: four bits of area and of line.\<close>

definition valid_ia :: "IndividualAddress \<Rightarrow> bool" where
  "valid_ia a \<longleftrightarrow> ia_area a \<le> IndividualAddress_MAX_AREA \<and> ia_line a \<le> IndividualAddress_MAX_LINE"


section \<open>Group addresses\<close>

record GroupAddress =
  ga_raw :: u16

definition GroupAddress_MAX_MAIN :: u8 where "GroupAddress_MAX_MAIN = 31"
definition GroupAddress_MAX_MIDDLE :: u8 where "GroupAddress_MAX_MIDDLE = 7"

definition GroupAddress_three_level :: "u8 \<Rightarrow> u8 \<Rightarrow> u8 \<Rightarrow> ('e, GroupAddress) outcome" where
  "GroupAddress_three_level main middle sub =
     (if \<not> main \<le> GroupAddress_MAX_MAIN then Panic
      else if \<not> middle \<le> GroupAddress_MAX_MIDDLE then Panic
      else Ok \<lparr>ga_raw = push_bit 11 (ucast main AND 0x1F) OR push_bit 8 (ucast middle AND 0x07)
                         OR (ucast sub AND 0xFF)\<rparr>)"

definition GroupAddress_try_three_level :: "u8 \<Rightarrow> u8 \<Rightarrow> u8 \<Rightarrow> GroupAddress KnxResult" where
  "GroupAddress_try_three_level main middle sub =
     (if main > GroupAddress_MAX_MAIN
      then Err (AddressOutOfRange (''main='' @ show_word main) ''0-31'')
      else if middle > GroupAddress_MAX_MIDDLE
      then Err (AddressOutOfRange (''middle='' @ show_word middle) ''0-7'')
      else GroupAddress_three_level main middle sub)"

definition GroupAddress_two_level :: "u8 \<Rightarrow> u16 \<Rightarrow> ('e, GroupAddress) outcome" where
  "GroupAddress_two_level main sub =
     (if \<not> main \<le> GroupAddress_MAX_MAIN then Panic
      else if \<not> sub \<le> 0x07FF then Panic
      else Ok \<lparr>ga_raw = push_bit 11 (ucast main AND 0x1F) OR (sub AND 0x07FF)\<rparr>)"

definition GroupAddress_from_raw :: "u16 \<Rightarrow> GroupAddress" where
  "GroupAddress_from_raw raw = \<lparr>ga_raw = raw\<rparr>"

definition GroupAddress_as_three_level :: "GroupAddress \<Rightarrow> u8 \<times> u8 \<times> u8" where
  "GroupAddress_as_three_level g =
     (ucast (drop_bit 11 (ga_raw g) AND 0x1F),
      ucast (drop_bit 8 (ga_raw g) AND 0x07),
      ucast (ga_raw g AND 0xFF))"

definition GroupAddress_as_two_level :: "GroupAddress \<Rightarrow> u8 \<times> u16" where
  "GroupAddress_as_two_level g = (ucast (drop_bit 11 (ga_raw g) AND 0x1F), ga_raw g AND 0x07FF)"

definition GroupAddress_format_three_level :: "GroupAddress \<Rightarrow> string" where
  "GroupAddress_format_three_level g =
     (case GroupAddress_as_three_level g of
        (main, middle, sub) \<Rightarrow> show_word main @ ''/'' @ show_word middle @ ''/'' @ show_word sub)"

definition GroupAddress_format_two_level :: "GroupAddress \<Rightarrow> string" where
  "GroupAddress_format_two_level g =
     (case GroupAddress_as_two_level g of (main, sub) \<Rightarrow> show_word main @ ''/'' @ show_word sub)"

definition GroupAddress_from_str :: "string \<Rightarrow> GroupAddress KnxResult" where
  "GroupAddress_from_str s =
     (let parts = split_on (CHR ''/'') s in
      if length parts = 3 then
        obind (ok_or (parse_u8 (parts ! 0))
                (InvalidGroupAddress (''Invalid main group: '' @ parts ! 0))) (\<lambda>main.
        obind (ok_or (parse_u8 (parts ! 1))
                (InvalidGroupAddress (''Invalid middle group: '' @ parts ! 1))) (\<lambda>middle.
        obind (ok_or (parse_u8 (parts ! 2))
                (InvalidGroupAddress (''Invalid sub group: '' @ parts ! 2))) (\<lambda>sub.
        GroupAddress_try_three_level main middle sub)))
      else if length parts = 2 then
        obind (ok_or (parse_u8 (parts ! 0))
                (InvalidGroupAddress (''Invalid main group: '' @ parts ! 0))) (\<lambda>main.
        obind (ok_or (parse_u16 (parts ! 1))
                (InvalidGroupAddress (''Invalid sub group: '' @ parts ! 1))) (\<lambda>sub.
        if main > GroupAddress_MAX_MAIN
        then Err (AddressOutOfRange (''main='' @ show_word main) ''0-31'')
        else if sub > 0x07FF
        then Err (AddressOutOfRange (''sub='' @ show_word sub) ''0-2047'')
        else GroupAddress_two_level main sub))
      else if length parts = 1 then
        obind (ok_or (parse_u16 (parts ! 0)) (InvalidGroupAddress s)) (\<lambda>raw.
        Ok (GroupAddress_from_raw raw))
      else Err (InvalidGroupAddress
             (''Invalid format: expected '' @ quoted ''main/middle/sub'' @ '', ''
              @ quoted ''main/sub'' @ '', or raw value, got '' @ quoted s)))"


section \<open>Address type bit and address ranges\<close>

datatype AddressType = AddrIndividual | AddrGroup

definition AddressType_from_bit :: "bool \<Rightarrow> AddressType" where
  "AddressType_from_bit b = (if b then AddrGroup else AddrIndividual)"

record GroupAddressRange =
  gr_start :: GroupAddress
  gr_end :: GroupAddress

definition GroupAddressRange_contains :: "GroupAddressRange \<Rightarrow> GroupAddress \<Rightarrow> bool" where
  "GroupAddressRange_contains r a \<longleftrightarrow>
     ga_raw a \<ge> ga_raw (gr_start r) \<and> ga_raw a \<le> ga_raw (gr_end r)"

definition GroupAddressRange_iter :: "GroupAddressRange \<Rightarrow> GroupAddress list" where
  "GroupAddressRange_iter r =
     map (\<lambda>n. GroupAddress_from_raw (of_nat n))
       [unat (ga_raw (gr_start r)) ..< Suc (unat (ga_raw (gr_end r)))]"

text \<open>
  \<^verbatim>\<open>(end - start + 1) as usize\<close> is computed in 16 bits: the subtraction underflows on an
  inverted range and the addition overflows on the full range. Both are overflow panics
  in a build with overflow checks; without them the result wraps (to 0 on the full range).
\<close>

definition GroupAddressRange_len :: "GroupAddressRange \<Rightarrow> ('e, usize) outcome" where
  "GroupAddressRange_len r =
     obind (usub (unat (ga_raw (gr_end r))) (unat (ga_raw (gr_start r)))) (\<lambda>d.
     if d + 1 < 65536 then Ok (d + 1) else Panic)"

definition GroupAddressRange_is_empty :: "GroupAddressRange \<Rightarrow> bool" where
  "GroupAddressRange_is_empty r \<longleftrightarrow> ga_raw (gr_start r) > ga_raw (gr_end r)"


section \<open>Correctness of individual addresses\<close>

lemmas ia_consts = IndividualAddress_MAX_AREA_def IndividualAddress_MAX_LINE_def
lemmas ga_consts = GroupAddress_MAX_MAIN_def GroupAddress_MAX_MIDDLE_def

lemma IndividualAddress_try_new_valid:
  "IndividualAddress_try_new a l d = Ok x \<Longrightarrow> valid_ia x"
  by (auto simp: IndividualAddress_try_new_def valid_ia_def split: if_splits)

lemma IndividualAddress_new_agrees:
  "IndividualAddress_new a l d = Ok x \<longleftrightarrow> IndividualAddress_try_new a l d = Ok x"
  by (auto simp: IndividualAddress_try_new_def IndividualAddress_new_def)

lemma IndividualAddress_try_new_not_panic [simp]: "IndividualAddress_try_new a l d \<noteq> Panic"
  by (simp add: IndividualAddress_try_new_def)

lemma IndividualAddress_decode_valid [simp]: "valid_ia (IndividualAddress_decode v)"
proof -
  have *: "ucast (w AND 0x0F) \<le> (15::u8)" for w :: u16
  proof -
    have "unat (w AND 0x0F) \<le> 15"
      using word_and_le1 [of w "0x0F"] by (simp add: word_le_nat_alt)
    then show ?thesis by (simp add: word_le_nat_alt unsigned_ucast_eq take_bit_nat_eq_self)
  qed
  show ?thesis by (simp add: valid_ia_def IndividualAddress_decode_def ia_consts *)
qed

lemma IndividualAddress_decode_encode [simp]:
  "valid_ia a \<Longrightarrow> IndividualAddress_decode (IndividualAddress_encode a) = a"
proof -
  assume v: "valid_ia a"
  have area: "k < 4" if "bit (ia_area a) k" for k
    using v that word_mask_bits(1) by (auto simp: valid_ia_def ia_consts)
  have line: "k < 4" if "bit (ia_line a) k" for k
    using v that word_mask_bits(1) by (auto simp: valid_ia_def ia_consts)
  have dev: "k < 8" if "bit (ia_device a) k" for k
    using that bit_imp_le_length [of "ia_device a" k] by simp
  have "ucast (drop_bit 12 (IndividualAddress_encode a) AND 0x0F) = ia_area a"
    by (rule bit_word_eqI) (auto simp: IndividualAddress_encode_def bit_simps dest: area line dev)
  moreover have "ucast (drop_bit 8 (IndividualAddress_encode a) AND 0x0F) = ia_line a"
    by (rule bit_word_eqI) (auto simp: IndividualAddress_encode_def bit_simps dest: area line dev)
  moreover have "ucast (IndividualAddress_encode a AND 0xFF) = ia_device a"
    by (rule bit_word_eqI) (auto simp: IndividualAddress_encode_def bit_simps dest: area line dev)
  ultimately show ?thesis by (simp add: IndividualAddress_decode_def)
qed

lemma IndividualAddress_encode_decode [simp]:
  "IndividualAddress_encode (IndividualAddress_decode v) = v"
proof (rule bit_word_eqI)
  fix n assume "n < LENGTH(16)"
  then show "bit (IndividualAddress_encode (IndividualAddress_decode v)) n = bit v n"
    by (cases "n < 8"; cases "n < 12")
      (auto simp: IndividualAddress_encode_def IndividualAddress_decode_def bit_simps)
qed

lemma split_dots:
  "split_on (CHR ''.'') (show_word a @ ''.'' @ show_word b @ ''.'' @ show_word c)
     = [show_word a, show_word b, show_word c]"
  using split_on_sep [of "CHR ''.''" "show_word a" "show_word b @ ''.'' @ show_word c"]
    split_on_sep [of "CHR ''.''" "show_word b" "show_word c"]
    split_on_no_sep [of "CHR ''.''" "show_word c"]
  by simp

lemma IndividualAddress_from_str_fmt [simp]:
  "valid_ia a \<Longrightarrow> IndividualAddress_from_str (IndividualAddress_fmt a) = Ok a"
  by (simp add: IndividualAddress_from_str_def IndividualAddress_fmt_def split_dots [simplified]
      IndividualAddress_try_new_def valid_ia_def not_less)

lemma IndividualAddress_from_str_valid:
  "IndividualAddress_from_str s = Ok a \<Longrightarrow> valid_ia a"
  by (auto simp: IndividualAddress_from_str_def Let_def obind_eq_Ok_iff IndividualAddress_try_new_def
      valid_ia_def not_less split: if_splits)

lemma IndividualAddress_from_str_not_panic: "IndividualAddress_from_str s \<noteq> Panic"
  by (auto simp: IndividualAddress_from_str_def Let_def obind_eq_Panic_iff)


section \<open>Correctness of group addresses\<close>

lemma GroupAddress_three_level_components:
  "GroupAddress_three_level m i s = Ok g \<Longrightarrow> GroupAddress_as_three_level g = (m, i, s)"
proof -
  assume "GroupAddress_three_level m i s = Ok g"
  then have m: "m \<le> 0x1F" and i: "i \<le> 0x07"
    and g: "g = \<lparr>ga_raw = push_bit 11 (ucast m AND 0x1F) OR push_bit 8 (ucast i AND 0x07)
                         OR (ucast s AND 0xFF)\<rparr>"
    by (auto simp: GroupAddress_three_level_def ga_consts split: if_splits)
  note bits = word_mask_bits(2) [OF _ m] word_mask_bits(3) [OF _ i] bit_imp_le_length [where w = s, simplified]
  have "ucast (drop_bit 11 (ga_raw g) AND 0x1F) = m"
    by (rule bit_word_eqI) (auto simp: g bit_simps dest: bits)
  moreover have "ucast (drop_bit 8 (ga_raw g) AND 0x07) = i"
    by (rule bit_word_eqI) (auto simp: g bit_simps dest: bits)
  moreover have "ucast (ga_raw g AND 0xFF) = s"
    by (rule bit_word_eqI) (auto simp: g bit_simps dest: bits)
  ultimately show ?thesis by (simp add: GroupAddress_as_three_level_def)
qed

lemma ucast_and_le:
  "ucast (w AND 0x1F) \<le> (31::u8)" "ucast (w AND 0x07) \<le> (7::u8)" for w :: u16
proof -
  have "unat (w AND 0x1F) \<le> 31" "unat (w AND 0x07) \<le> 7"
    using word_and_le1 [of w "0x1F"] word_and_le1 [of w "0x07"] by (simp_all add: word_le_nat_alt)
  then show "ucast (w AND 0x1F) \<le> (31::u8)" "ucast (w AND 0x07) \<le> (7::u8)"
    by (simp_all add: word_le_nat_alt unsigned_ucast_eq take_bit_nat_eq_self)
qed

lemma GroupAddress_three_level_of_components:
  "GroupAddress_as_three_level g = (m, i, s) \<Longrightarrow> GroupAddress_try_three_level m i s = Ok g"
proof -
  assume "GroupAddress_as_three_level g = (m, i, s)"
  then have m: "m = ucast (drop_bit 11 (ga_raw g) AND 0x1F)" and i: "i = ucast (drop_bit 8 (ga_raw g) AND 0x07)"
    and s: "s = ucast (ga_raw g AND 0xFF)"
    by (auto simp: GroupAddress_as_three_level_def)
  let ?raw = "push_bit 11 (ucast m AND 0x1F) OR push_bit 8 (ucast i AND 0x07) OR (ucast s AND 0xFF) :: u16"
  have "?raw = ga_raw g"
  proof (rule bit_word_eqI)
    fix n assume "n < LENGTH(16)"
    then show "bit ?raw n = bit (ga_raw g) n"
      by (cases "n < 8"; cases "n < 11") (auto simp: m i s bit_simps)
  qed
  moreover have "m \<le> 31" "i \<le> 7" by (simp_all add: m i ucast_and_le)
  ultimately show ?thesis
    by (simp add: GroupAddress_try_three_level_def GroupAddress_three_level_def ga_consts not_less)
qed

lemma GroupAddress_two_level_of_components:
  "GroupAddress_as_two_level g = (m, s) \<Longrightarrow> m \<le> GroupAddress_MAX_MAIN \<and> s \<le> 0x07FF \<and>
     GroupAddress_two_level m s = (Ok g :: ('e, GroupAddress) outcome)"
proof -
  assume "GroupAddress_as_two_level g = (m, s)"
  then have m: "m = ucast (drop_bit 11 (ga_raw g) AND 0x1F)" and s: "s = ga_raw g AND 0x07FF"
    by (auto simp: GroupAddress_as_two_level_def)
  have "push_bit 11 (ucast m AND 0x1F) OR (s AND 0x07FF) = ga_raw g"
  proof (rule bit_word_eqI)
    fix n assume "n < LENGTH(16)"
    then show "bit (push_bit 11 (ucast m AND 0x1F) OR (s AND 0x07FF)) n = bit (ga_raw g) n"
      by (cases "n < 11") (auto simp: m s bit_simps)
  qed
  moreover have "m \<le> 31" "s \<le> 0x07FF"
    by (simp_all add: m s ucast_and_le word_and_le1)
  ultimately show ?thesis by (simp add: GroupAddress_two_level_def ga_consts)
qed

lemma split_slashes:
  "split_on (CHR ''/'') (show_word a @ ''/'' @ show_word b @ ''/'' @ show_word c)
     = [show_word a, show_word b, show_word c]"
  "split_on (CHR ''/'') (show_word a @ ''/'' @ show_word b) = [show_word a, show_word b]"
  using split_on_sep [of "CHR ''/''" "show_word a" "show_word b @ ''/'' @ show_word c"]
    split_on_sep [of "CHR ''/''" "show_word a" "show_word b"]
    split_on_sep [of "CHR ''/''" "show_word b" "show_word c"]
    split_on_no_sep [of "CHR ''/''" "show_word c"] split_on_no_sep [of "CHR ''/''" "show_word b"]
  by simp_all

lemma GroupAddress_from_str_three_level:
  "GroupAddress_from_str (GroupAddress_format_three_level g) = Ok g"
proof -
  obtain m i s where c: "GroupAddress_as_three_level g = (m, i, s)"
    by (cases "GroupAddress_as_three_level g") auto
  then show ?thesis
    by (simp add: GroupAddress_from_str_def GroupAddress_format_three_level_def split_slashes [simplified]
        GroupAddress_three_level_of_components)
qed

lemma GroupAddress_from_str_two_level:
  "GroupAddress_from_str (GroupAddress_format_two_level g) = Ok g"
proof -
  obtain m s where c: "GroupAddress_as_two_level g = (m, s)"
    by (cases "GroupAddress_as_two_level g") auto
  from GroupAddress_two_level_of_components [OF c, where ?'e = KnxError] c show ?thesis
    by (simp add: GroupAddress_from_str_def GroupAddress_format_two_level_def split_slashes [simplified]
        not_less)
qed

lemma GroupAddress_from_str_raw:
  "GroupAddress_from_str (show_word (ga_raw g)) = Ok g"
  by (simp add: GroupAddress_from_str_def split_on_no_sep GroupAddress_from_raw_def)

lemma GroupAddress_from_str_not_panic: "GroupAddress_from_str s \<noteq> Panic"
  by (auto simp: GroupAddress_from_str_def Let_def obind_eq_Panic_iff GroupAddress_try_three_level_def
      GroupAddress_three_level_def GroupAddress_two_level_def not_less split: if_splits)


section \<open>Correctness of address ranges\<close>

lemma GroupAddressRange_contains_iter:
  "GroupAddressRange_contains r a \<longleftrightarrow> a \<in> set (GroupAddressRange_iter r)"
proof
  let ?lo = "unat (ga_raw (gr_start r))" and ?hi = "unat (ga_raw (gr_end r))"
  assume "GroupAddressRange_contains r a"
  then have "unat (ga_raw a) \<in> {?lo..<Suc ?hi}"
    by (simp add: GroupAddressRange_contains_def word_le_nat_alt)
  moreover have "GroupAddress_from_raw (of_nat (unat (ga_raw a))) = a"
    by (simp add: GroupAddress_from_raw_def)
  ultimately show "a \<in> set (GroupAddressRange_iter r)"
    unfolding GroupAddressRange_iter_def set_map set_upt by (metis image_eqI)
next
  let ?lo = "unat (ga_raw (gr_start r))" and ?hi = "unat (ga_raw (gr_end r))"
  assume "a \<in> set (GroupAddressRange_iter r)"
  then obtain n where n: "?lo \<le> n" "n \<le> ?hi" and a: "a = GroupAddress_from_raw (of_nat n)"
    by (auto simp: GroupAddressRange_iter_def)
  have "n < 65536" using n(2) unat_u16_le [of "ga_raw (gr_end r)"] by linarith
  then have "unat (ga_raw a) = n" by (simp add: a GroupAddress_from_raw_def unat_of_nat)
  with n show "GroupAddressRange_contains r a"
    by (simp add: GroupAddressRange_contains_def word_le_nat_alt)
qed

lemma GroupAddressRange_iter_distinct: "distinct (GroupAddressRange_iter r)"
proof -
  have "inj_on (\<lambda>n. GroupAddress_from_raw (of_nat n)) {unat (ga_raw (gr_start r))..unat (ga_raw (gr_end r))}"
  proof (rule inj_onI)
    fix x y assume x: "x \<in> {unat (ga_raw (gr_start r))..unat (ga_raw (gr_end r))}"
      and y: "y \<in> {unat (ga_raw (gr_start r))..unat (ga_raw (gr_end r))}"
      and eq: "GroupAddress_from_raw (of_nat x) = GroupAddress_from_raw (of_nat y)"
    have "x < 65536" "y < 65536"
      using x y unat_u16_le [of "ga_raw (gr_end r)"] by auto
    moreover have "unat (of_nat x :: u16) = unat (of_nat y :: u16)"
      using eq by (simp add: GroupAddress_from_raw_def)
    ultimately show "x = y" by (simp add: unat_of_nat)
  qed
  then show ?thesis
    by (simp add: GroupAddressRange_iter_def distinct_map atLeastLessThanSuc_atLeastAtMost del: upt_Suc)
qed

lemma GroupAddressRange_len_cases:
  "GroupAddressRange_len r =
     (if GroupAddressRange_is_empty r \<or> length (GroupAddressRange_iter r) = 65536 then Panic
      else Ok (length (GroupAddressRange_iter r)))"
  using unat_u16_le [of "ga_raw (gr_end r)"]
  by (simp add: GroupAddressRange_len_def GroupAddressRange_is_empty_def GroupAddressRange_iter_def
      usub_def word_less_nat_alt del: upt_Suc) linarith


section \<open>Properties\<close>

text \<open>
  The 16-bit encoding and the textual form of an individual address are both
  lossless: an address inside its ranges comes back from \<^verbatim>\<open>decode(encode(a))\<close> and from
  \<^verbatim>\<open>from_str(to_string(a))\<close>; every 16-bit value decodes to an address inside its ranges
  that encodes to the same value; parsing never panics, whatever the text.
\<close>

theorem individual_address_roundtrip:
  assumes "valid_ia a"
  shows "IndividualAddress_decode (IndividualAddress_encode a) = a \<and>
    IndividualAddress_from_str (IndividualAddress_fmt a) = Ok a \<and>
    valid_ia (IndividualAddress_decode v) \<and>
    IndividualAddress_encode (IndividualAddress_decode v) = v \<and>
    \<not> is_panic (IndividualAddress_from_str s)"
  using assms IndividualAddress_from_str_not_panic by (simp add: is_panic_iff)

theorem individual_address_roundtrip_witness:
  "valid_ia \<lparr>ia_area = 1, ia_line = 2, ia_device = 250\<rparr> \<and>
   IndividualAddress_decode (IndividualAddress_encode \<lparr>ia_area = 1, ia_line = 2, ia_device = 250\<rparr>)
     = \<lparr>ia_area = 1, ia_line = 2, ia_device = 250\<rparr>"
proof -
  have v: "valid_ia \<lparr>ia_area = 1, ia_line = 2, ia_device = 250\<rparr>"
    by (simp add: valid_ia_def ia_consts)
  show ?thesis using v individual_address_roundtrip [OF v] by simp
qed

text \<open>
  Every group address is recovered from its three-level text, its two-level text
  and its raw decimal text, from its three-level and two-level components, and parsing
  never panics: the assertions in \<^verbatim>\<open>three_level\<close> and \<^verbatim>\<open>two_level\<close> are unreachable from
  \<^verbatim>\<open>from_str\<close>.
\<close>

theorem group_address_text_roundtrip:
  "GroupAddress_from_str (GroupAddress_format_three_level g) = Ok g \<and>
   GroupAddress_from_str (GroupAddress_format_two_level g) = Ok g \<and>
   GroupAddress_from_str (show_word (ga_raw g)) = Ok g \<and>
   (case GroupAddress_as_three_level g of (m, i, s) \<Rightarrow> GroupAddress_try_three_level m i s = Ok g) \<and>
   \<not> is_panic (GroupAddress_from_str str)"
  by (auto simp: GroupAddress_from_str_three_level GroupAddress_from_str_two_level
      GroupAddress_from_str_raw GroupAddress_three_level_of_components
      GroupAddress_from_str_not_panic is_panic_iff split: prod.splits)

text \<open>
  A range of group addresses contains exactly the addresses its iterator yields,
  without repetition, and \<^verbatim>\<open>len\<close> is their number, except that it overflows its 16-bit
  arithmetic on an empty range and on the range of all 65536 addresses.
\<close>

lemma group_range_len:
  "(GroupAddressRange_contains r a \<longleftrightarrow> a \<in> set (GroupAddressRange_iter r)) \<and>
   distinct (GroupAddressRange_iter r) \<and>
   GroupAddressRange_len r =
     (if GroupAddressRange_is_empty r \<or> length (GroupAddressRange_iter r) = 65536 then Panic
      else Ok (length (GroupAddressRange_iter r)))"
  using GroupAddressRange_contains_iter GroupAddressRange_iter_distinct GroupAddressRange_len_cases
  by blast

end
