(* ===== verification/Knx_Cemi.thy ===== *)
theory Knx_Cemi
  imports Knx_Frame Knx_Address
begin

text \<open>
  The common external message interface, \<^verbatim>\<open>mabi-knx/src/cemi.rs\<close>: message codes,
  priorities, the application control field (APCI), additional information blocks, and
  the frame with its constructors, encoder and decoder.
\<close>

section \<open>Message codes\<close>

datatype (plugins only: code size) MessageCode =
    MC_LDataReq | MC_LDataCon | MC_LDataInd | MC_LBusmonInd | MC_LRawReq | MC_LRawInd | MC_LRawCon
  | MC_MPropReadReq | MC_MPropReadCon | MC_MPropWriteReq | MC_MPropWriteCon | MC_MResetReq
  | MC_MResetInd

fun MessageCode_to_u8 :: "MessageCode \<Rightarrow> u8" where
  "MessageCode_to_u8 MC_LDataReq = 0x11"
| "MessageCode_to_u8 MC_LDataCon = 0x2E"
| "MessageCode_to_u8 MC_LDataInd = 0x29"
| "MessageCode_to_u8 MC_LBusmonInd = 0x2B"
| "MessageCode_to_u8 MC_LRawReq = 0x10"
| "MessageCode_to_u8 MC_LRawInd = 0x2D"
| "MessageCode_to_u8 MC_LRawCon = 0x2F"
| "MessageCode_to_u8 MC_MPropReadReq = 0xFC"
| "MessageCode_to_u8 MC_MPropReadCon = 0xFB"
| "MessageCode_to_u8 MC_MPropWriteReq = 0xF6"
| "MessageCode_to_u8 MC_MPropWriteCon = 0xF5"
| "MessageCode_to_u8 MC_MResetReq = 0xF1"
| "MessageCode_to_u8 MC_MResetInd = 0xF0"

definition MessageCode_try_from_u8 :: "u8 \<Rightarrow> MessageCode option" where
  "MessageCode_try_from_u8 v =
    (if v = 0x11 then Some MC_LDataReq
     else if v = 0x2E then Some MC_LDataCon
     else if v = 0x29 then Some MC_LDataInd
     else if v = 0x2B then Some MC_LBusmonInd
     else if v = 0x10 then Some MC_LRawReq
     else if v = 0x2D then Some MC_LRawInd
     else if v = 0x2F then Some MC_LRawCon
     else if v = 0xFC then Some MC_MPropReadReq
     else if v = 0xFB then Some MC_MPropReadCon
     else if v = 0xF6 then Some MC_MPropWriteReq
     else if v = 0xF5 then Some MC_MPropWriteCon
     else if v = 0xF1 then Some MC_MResetReq
     else if v = 0xF0 then Some MC_MResetInd
     else None)"

definition MessageCode_is_data :: "MessageCode \<Rightarrow> bool" where
  "MessageCode_is_data c \<longleftrightarrow> c \<in> {MC_LDataReq, MC_LDataCon, MC_LDataInd}"

definition MessageCode_is_property_service :: "MessageCode \<Rightarrow> bool" where
  "MessageCode_is_property_service c \<longleftrightarrow>
     c \<in> {MC_MPropReadReq, MC_MPropReadCon, MC_MPropWriteReq, MC_MPropWriteCon}"

definition MessageCode_is_reset_service :: "MessageCode \<Rightarrow> bool" where
  "MessageCode_is_reset_service c \<longleftrightarrow> c \<in> {MC_MResetReq, MC_MResetInd}"

fun MessageCode_to_confirmation :: "MessageCode \<Rightarrow> MessageCode option" where
  "MessageCode_to_confirmation MC_LDataReq = Some MC_LDataCon"
| "MessageCode_to_confirmation MC_LRawReq = Some MC_LRawCon"
| "MessageCode_to_confirmation MC_MPropReadReq = Some MC_MPropReadCon"
| "MessageCode_to_confirmation MC_MPropWriteReq = Some MC_MPropWriteCon"
| "MessageCode_to_confirmation MC_MResetReq = Some MC_MResetInd"
| "MessageCode_to_confirmation _ = None"


section \<open>Priority\<close>

datatype Priority = Prio_System | Prio_Normal | Prio_Urgent | Prio_Low

fun Priority_to_bits :: "Priority \<Rightarrow> u8" where
  "Priority_to_bits Prio_System = 0"
| "Priority_to_bits Prio_Normal = 1"
| "Priority_to_bits Prio_Urgent = 2"
| "Priority_to_bits Prio_Low = 3"

definition Priority_from_bits :: "u8 \<Rightarrow> Priority" where
  "Priority_from_bits v =
    (let b = v AND 0x03 in
     if b = 0 then Prio_System else if b = 1 then Prio_Normal else if b = 2 then Prio_Urgent
     else Prio_Low)"


section \<open>APCI\<close>

datatype (plugins only: code size) Apci =
    Apci_GroupValueRead | Apci_GroupValueResponse | Apci_GroupValueWrite
  | Apci_IndividualAddressWrite | Apci_IndividualAddressRead | Apci_IndividualAddressResponse
  | Apci_AdcRead | Apci_AdcResponse | Apci_MemoryRead | Apci_MemoryResponse | Apci_MemoryWrite
  | Apci_UserMessage | Apci_DeviceDescriptorRead | Apci_DeviceDescriptorResponse | Apci_Restart
  | Apci_Escape | Apci_Unknown u16

definition Apci_decode :: "u16 \<Rightarrow> Apci" where
  "Apci_decode value =
    (let apci = value AND 0x03FF in
     if apci = 0x0000 then Apci_GroupValueRead
     else if 0x0040 \<le> apci \<and> apci \<le> 0x007F then Apci_GroupValueResponse
     else if 0x0080 \<le> apci \<and> apci \<le> 0x00FF then Apci_GroupValueWrite
     else if 0x0100 \<le> apci \<and> apci \<le> 0x013F then Apci_IndividualAddressWrite
     else if 0x0140 \<le> apci \<and> apci \<le> 0x017F then Apci_IndividualAddressRead
     else if 0x0180 \<le> apci \<and> apci \<le> 0x01BF then Apci_IndividualAddressResponse
     else if 0x01C0 \<le> apci \<and> apci \<le> 0x01FF then Apci_AdcRead
     else if 0x0200 \<le> apci \<and> apci \<le> 0x023F then Apci_AdcResponse
     else if 0x0240 \<le> apci \<and> apci \<le> 0x027F then Apci_MemoryRead
     else if 0x0280 \<le> apci \<and> apci \<le> 0x02BF then Apci_MemoryResponse
     else if 0x02C0 \<le> apci \<and> apci \<le> 0x02FF then Apci_MemoryWrite
     else if 0x0300 \<le> apci \<and> apci \<le> 0x033F then Apci_UserMessage
     else if 0x0340 \<le> apci \<and> apci \<le> 0x037F then Apci_DeviceDescriptorRead
     else if 0x0380 \<le> apci \<and> apci \<le> 0x03BF then Apci_DeviceDescriptorResponse
     else if 0x03C0 \<le> apci \<and> apci \<le> 0x03DF then Apci_Restart
     else if 0x03E0 \<le> apci \<and> apci \<le> 0x03FF then Apci_Escape
     else Apci_Unknown value)"

definition Apci_decode_simple :: "u16 \<Rightarrow> Apci" where
  "Apci_decode_simple value =
    (let base = value AND 0x03C0 in
     if base = 0x0000 then Apci_GroupValueRead
     else if base = 0x0040 then Apci_GroupValueResponse
     else if base = 0x0080 then Apci_GroupValueWrite
     else if base = 0x00C0 then Apci_GroupValueWrite
     else if base = 0x0100 then Apci_IndividualAddressWrite
     else if base = 0x0140 then Apci_IndividualAddressRead
     else if base = 0x0180 then Apci_IndividualAddressResponse
     else if base = 0x01C0 then Apci_AdcRead
     else if base = 0x0200 then Apci_AdcResponse
     else if base = 0x0240 then Apci_MemoryRead
     else if base = 0x0280 then Apci_MemoryResponse
     else if base = 0x02C0 then Apci_MemoryWrite
     else if base = 0x0300 then Apci_UserMessage
     else if base = 0x0340 then Apci_DeviceDescriptorRead
     else if base = 0x0380 then Apci_DeviceDescriptorResponse
     else if base = 0x03C0 then Apci_Restart
     else Apci_Unknown value)"

fun Apci_encode :: "Apci \<Rightarrow> u16" where
  "Apci_encode Apci_GroupValueRead = 0x0000"
| "Apci_encode Apci_GroupValueResponse = 0x0040"
| "Apci_encode Apci_GroupValueWrite = 0x0080"
| "Apci_encode Apci_IndividualAddressWrite = 0x0100"
| "Apci_encode Apci_IndividualAddressRead = 0x0100"
| "Apci_encode Apci_IndividualAddressResponse = 0x0140"
| "Apci_encode Apci_AdcRead = 0x0180"
| "Apci_encode Apci_AdcResponse = 0x01C0"
| "Apci_encode Apci_MemoryRead = 0x0200"
| "Apci_encode Apci_MemoryResponse = 0x0240"
| "Apci_encode Apci_MemoryWrite = 0x0280"
| "Apci_encode Apci_UserMessage = 0x02C0"
| "Apci_encode Apci_DeviceDescriptorRead = 0x0300"
| "Apci_encode Apci_DeviceDescriptorResponse = 0x0340"
| "Apci_encode Apci_Restart = 0x0380"
| "Apci_encode Apci_Escape = 0x03C0"
| "Apci_encode (Apci_Unknown v) = v"

fun Apci_is_group_value :: "Apci \<Rightarrow> bool" where
  "Apci_is_group_value Apci_GroupValueRead = True"
| "Apci_is_group_value Apci_GroupValueResponse = True"
| "Apci_is_group_value Apci_GroupValueWrite = True"
| "Apci_is_group_value _ = False"


section \<open>Additional information\<close>

datatype (plugins only: code size) AdditionalInfoType =
    AI_PlMediumInfo | AI_RfMediumInfo | AI_BusMonitorInfo | AI_TimestampRelative | AI_TimeDelayUntil
  | AI_ExtendedTimestamp | AI_BiBatInfo | AI_RfMultiInfo | AI_PreamblePostamble | AI_RfFastAckInfo
  | AI_ManufacturerData

fun AdditionalInfoType_to_u8 :: "AdditionalInfoType \<Rightarrow> u8" where
  "AdditionalInfoType_to_u8 AI_PlMediumInfo = 0x01"
| "AdditionalInfoType_to_u8 AI_RfMediumInfo = 0x02"
| "AdditionalInfoType_to_u8 AI_BusMonitorInfo = 0x03"
| "AdditionalInfoType_to_u8 AI_TimestampRelative = 0x04"
| "AdditionalInfoType_to_u8 AI_TimeDelayUntil = 0x05"
| "AdditionalInfoType_to_u8 AI_ExtendedTimestamp = 0x06"
| "AdditionalInfoType_to_u8 AI_BiBatInfo = 0x07"
| "AdditionalInfoType_to_u8 AI_RfMultiInfo = 0x08"
| "AdditionalInfoType_to_u8 AI_PreamblePostamble = 0x09"
| "AdditionalInfoType_to_u8 AI_RfFastAckInfo = 0x0A"
| "AdditionalInfoType_to_u8 AI_ManufacturerData = 0xFE"

record AdditionalInfo =
  ai_info_type :: u8
  ai_data :: bytes

definition AdditionalInfo_new :: "u8 \<Rightarrow> bytes \<Rightarrow> AdditionalInfo" where
  "AdditionalInfo_new t d = \<lparr>ai_info_type = t, ai_data = d\<rparr>"

definition AdditionalInfo_encode :: "buf_api \<Rightarrow> bytes \<Rightarrow> AdditionalInfo \<Rightarrow> bytes" where
  "AdditionalInfo_encode B buf info =
    (let buf = api_put_u8 B buf (ai_info_type info);
         buf = api_put_u8 B buf (as_u8 (length (ai_data info)))
     in api_put_slice B buf (ai_data info))"

definition AdditionalInfo_encoded_len :: "AdditionalInfo \<Rightarrow> usize" where
  "AdditionalInfo_encoded_len info = 2 + length (ai_data info)"

definition AdditionalInfo_decode :: "buf_api \<Rightarrow> bytes \<Rightarrow> (AdditionalInfo \<times> bytes) KnxResult" where
  "AdditionalInfo_decode B buf =
    (if length buf < 2 then Err (KnxError_frame_too_short 2 (length buf))
     else obind (get_u8 B buf) (\<lambda>(info_type, buf). obind (get_u8 B buf) (\<lambda>(len, buf).
       if length buf < unat len then Err (KnxError_frame_too_short (unat len) (length buf))
       else obind (slice_to buf (unat len)) (\<lambda>data. obind (slice_from buf (unat len)) (\<lambda>rest.
         Ok (\<lparr>ai_info_type = info_type, ai_data = data\<rparr>, rest))))))"


section \<open>Frames\<close>

record CemiFrame =
  cf_message_code :: MessageCode
  cf_additional_info :: "AdditionalInfo list"
  cf_source :: IndividualAddress
  cf_destination :: u16
  cf_address_type :: AddressType
  cf_hop_count :: u8
  cf_priority :: Priority
  cf_confirm :: bool
  cf_ack_request :: bool
  cf_system_broadcast :: bool
  cf_apci :: Apci
  cf_data :: bytes

text \<open>\<^verbatim>\<open>IndividualAddress::new(0, 0, 0)\<close>, whose assertions hold.\<close>

definition zero_ia :: IndividualAddress where
  "zero_ia = \<lparr>ia_area = 0, ia_line = 0, ia_device = 0\<rparr>"

definition CemiFrame_group_value_write :: "IndividualAddress \<Rightarrow> GroupAddress \<Rightarrow> bytes \<Rightarrow> CemiFrame" where
  "CemiFrame_group_value_write src dst data =
     \<lparr>cf_message_code = MC_LDataInd, cf_additional_info = [],
      cf_source = src, cf_destination = ga_raw dst, cf_address_type = AddrGroup,
      cf_hop_count = 6, cf_priority = Prio_Low, cf_confirm = False, cf_ack_request = False,
      cf_system_broadcast = False, cf_apci = Apci_GroupValueWrite, cf_data = data\<rparr>"

definition CemiFrame_group_value_read :: "IndividualAddress \<Rightarrow> GroupAddress \<Rightarrow> CemiFrame" where
  "CemiFrame_group_value_read src dst =
     \<lparr>cf_message_code = MC_LDataInd, cf_additional_info = [],
      cf_source = src, cf_destination = ga_raw dst, cf_address_type = AddrGroup,
      cf_hop_count = 6, cf_priority = Prio_Low, cf_confirm = False, cf_ack_request = False,
      cf_system_broadcast = False, cf_apci = Apci_GroupValueRead, cf_data = []\<rparr>"

definition CemiFrame_group_value_response :: "IndividualAddress \<Rightarrow> GroupAddress \<Rightarrow> bytes \<Rightarrow> CemiFrame" where
  "CemiFrame_group_value_response src dst data =
     \<lparr>cf_message_code = MC_LDataInd, cf_additional_info = [],
      cf_source = src, cf_destination = ga_raw dst, cf_address_type = AddrGroup,
      cf_hop_count = 6, cf_priority = Prio_Low, cf_confirm = False, cf_ack_request = False,
      cf_system_broadcast = False, cf_apci = Apci_GroupValueResponse, cf_data = data\<rparr>"

definition CemiFrame_bus_monitor_indication :: "bytes \<Rightarrow> u8 \<Rightarrow> u16 \<Rightarrow> CemiFrame" where
  "CemiFrame_bus_monitor_indication raw_frame status timestamp_ms =
     \<lparr>cf_message_code = MC_LBusmonInd, cf_additional_info = 
        [AdditionalInfo_new (AdditionalInfoType_to_u8 AI_BusMonitorInfo) [status],
         AdditionalInfo_new (AdditionalInfoType_to_u8 AI_TimestampRelative) (u16_to_be timestamp_ms)],
      cf_source = zero_ia, cf_destination = 0, cf_address_type = AddrGroup,
      cf_hop_count = 7, cf_priority = Prio_Low, cf_confirm = False, cf_ack_request = False,
      cf_system_broadcast = False, cf_apci = Apci_Unknown 0, cf_data = raw_frame\<rparr>"

definition CemiFrame_bus_monitor_indication_ext :: "bytes \<Rightarrow> u8 \<Rightarrow> u16 \<Rightarrow> u32 \<Rightarrow> CemiFrame" where
  "CemiFrame_bus_monitor_indication_ext raw_frame status timestamp_ms timestamp_us =
    (let frame = CemiFrame_bus_monitor_indication raw_frame status timestamp_ms
     in frame\<lparr>cf_additional_info := cf_additional_info frame @
          [AdditionalInfo_new (AdditionalInfoType_to_u8 AI_ExtendedTimestamp) (u32_to_be timestamp_us)]\<rparr>)"

text \<open>The field \<^verbatim>\<open>((count as u16) << 12) | (start_index as u16 & 0x0FFF)\<close>.\<close>

definition count_index_field :: "u8 \<Rightarrow> u8 \<Rightarrow> u16" where
  "count_index_field count start_index = push_bit 12 (ucast count) OR (ucast start_index AND 0x0FFF)"

definition CemiFrame_prop_read_con :: "u16 \<Rightarrow> u16 \<Rightarrow> u8 \<Rightarrow> u8 \<Rightarrow> bytes \<Rightarrow> CemiFrame" where
  "CemiFrame_prop_read_con object_index property_id count start_index value =
     \<lparr>cf_message_code = MC_MPropReadCon, cf_additional_info = [],
      cf_source = zero_ia, cf_destination = 0, cf_address_type = AddrIndividual,
      cf_hop_count = 7, cf_priority = Prio_System, cf_confirm = False, cf_ack_request = False,
      cf_system_broadcast = False, cf_apci = Apci_Unknown 0, cf_data = 
        u16_to_be object_index @ u16_to_be property_id @
        u16_to_be (count_index_field count start_index) @ value\<rparr>"

definition CemiFrame_prop_write_con :: "u16 \<Rightarrow> u16 \<Rightarrow> u8 \<Rightarrow> u8 \<Rightarrow> bool \<Rightarrow> CemiFrame" where
  "CemiFrame_prop_write_con object_index property_id count start_index success =
     \<lparr>cf_message_code = MC_MPropWriteCon, cf_additional_info = [],
      cf_source = zero_ia, cf_destination = 0, cf_address_type = AddrIndividual,
      cf_hop_count = 7, cf_priority = Prio_System, cf_confirm = (\<not> success), cf_ack_request = False,
      cf_system_broadcast = False, cf_apci = Apci_Unknown 0, cf_data = 
        u16_to_be object_index @ u16_to_be property_id @
        u16_to_be (count_index_field (if success then count else 0) start_index)\<rparr>"

definition CemiFrame_reset_ind :: CemiFrame where
  "CemiFrame_reset_ind =
     \<lparr>cf_message_code = MC_MResetInd, cf_additional_info = [],
      cf_source = zero_ia, cf_destination = 0, cf_address_type = AddrIndividual,
      cf_hop_count = 7, cf_priority = Prio_System, cf_confirm = False, cf_ack_request = False,
      cf_system_broadcast = False, cf_apci = Apci_Unknown 0, cf_data = []\<rparr>"

definition CemiFrame_parse_property_request ::
  "CemiFrame \<Rightarrow> (u16 \<times> u16 \<times> u8 \<times> u8 \<times> bytes) option" where
  "CemiFrame_parse_property_request f =
    (let d = cf_data f in
     if length d < 6 then None
     else let object_index = u16_of_be (d ! 0) (d ! 1);
              property_id = u16_of_be (d ! 2) (d ! 3);
              count_index = u16_of_be (d ! 4) (d ! 5)
          in Some (object_index, property_id, ucast (drop_bit 12 count_index),
                   ucast (count_index AND 0x0FFF), drop 6 d))"

definition CemiFrame_destination_group :: "CemiFrame \<Rightarrow> GroupAddress option" where
  "CemiFrame_destination_group f =
    (if cf_address_type f = AddrGroup then Some (GroupAddress_from_raw (cf_destination f)) else None)"

text \<open>
  The encoder. \<open>cemi_npdu\<close> is the tail that the code writes after the addresses: the
  NPDU length, the control byte and the data.
\<close>

definition cemi_ctrl1 :: "CemiFrame \<Rightarrow> u8" where
  "cemi_ctrl1 f =
     0x80 OR (if cf_ack_request f then 0x00 else 0x20) OR (if \<not> cf_confirm f then 0x00 else 0x01) OR
     push_bit 2 (Priority_to_bits (cf_priority f) AND 0x03)"

definition cemi_ctrl2 :: "CemiFrame \<Rightarrow> u8" where
  "cemi_ctrl2 f = (if cf_address_type f = AddrGroup then 0x80 else 0x00) OR (cf_hop_count f AND 0x07)"

definition cemi_npdu :: "buf_api \<Rightarrow> CemiFrame \<Rightarrow> bytes \<Rightarrow> bytes" where
  "cemi_npdu B f buf =
    (let apci_byte = ucast (Apci_encode (cf_apci f)); data = cf_data f in
     if data = [] then api_put_u8 B (api_put_u8 B buf 1) apci_byte
     else if length data = 1 \<and> data ! 0 \<le> 0x3F
     then api_put_u8 B (api_put_u8 B buf 1) (apci_byte OR (data ! 0 AND 0x3F))
     else api_put_slice B
            (api_put_u8 B (api_put_u8 B buf (as_u8 (length data + 1))) apci_byte) data)"

definition CemiFrame_encode :: "buf_api \<Rightarrow> CemiFrame \<Rightarrow> bytes" where
  "CemiFrame_encode B f =
    (let buf = api_put_u8 B [] (MessageCode_to_u8 (cf_message_code f));
         add_info_len = sum_list (map AdditionalInfo_encoded_len (cf_additional_info f));
         buf = api_put_u8 B buf (as_u8 add_info_len);
         buf = foldl (AdditionalInfo_encode B) buf (cf_additional_info f)
     in if MessageCode_is_property_service (cf_message_code f) \<or>
           MessageCode_is_reset_service (cf_message_code f)
        then api_put_slice B buf (cf_data f)
        else if cf_message_code f = MC_LBusmonInd then api_put_slice B buf (cf_data f)
        else let buf = api_put_u8 B buf (cemi_ctrl1 f);
                 buf = api_put_u8 B buf (cemi_ctrl2 f);
                 buf = api_put_u16 B buf (IndividualAddress_encode (cf_source f));
                 buf = api_put_u16 B buf (cf_destination f)
             in cemi_npdu B f buf)"

text \<open>
  The decoder, in the order of the code: the additional information, the two body
  formats that carry raw data, and the standard format with its two NPDU layouts.
\<close>

definition cemi_decode_additional_info ::
  "buf_api \<Rightarrow> usize \<Rightarrow> bytes \<Rightarrow> (AdditionalInfo list \<times> bytes) KnxResult" where
  "cemi_decode_additional_info B add_info_len buf =
    (if 0 < add_info_len then
       if length buf < add_info_len then Err (KnxError_frame_too_short add_info_len (length buf))
       else obind (slice_to buf add_info_len) (\<lambda>add_info_buf.
            obind (decode_all (AdditionalInfo_decode B) add_info_buf) (\<lambda>infos.
            obind (slice_from buf add_info_len) (\<lambda>buf. Ok (infos, buf))))
     else Ok ([], buf))"

definition small_data :: "u8 \<Rightarrow> bytes" where
  "small_data b = (let small = b AND 0x3F in if small \<noteq> 0 then [small] else [])"

definition cemi_decode_npdu :: "buf_api \<Rightarrow> usize \<Rightarrow> bytes \<Rightarrow> (Apci \<times> bytes) KnxResult" where
  "cemi_decode_npdu B npdu_len buf =
    obind (get_u8 B buf) (\<lambda>(apci_byte1, buf).
      if 2 \<le> npdu_len \<and> apci_byte1 AND 0xFC = 0
      then obind (get_u8 B buf) (\<lambda>(apci_byte2, buf).
        let apci_raw = push_bit 8 (ucast (apci_byte1 AND 0x03)) OR ucast apci_byte2;
            remaining_len = npdu_len - 2
        in if remaining_len = 0 then Ok (Apci_decode apci_raw, small_data apci_byte2)
           else obind (slice_to buf remaining_len) (\<lambda>d. Ok (Apci_decode apci_raw, d)))
      else if npdu_len \<le> 1 then Ok (Apci_decode (ucast apci_byte1), small_data apci_byte1)
      else obind (slice_to buf (npdu_len - 1)) (\<lambda>d. Ok (Apci_decode (ucast apci_byte1), d)))"

definition cemi_decode_standard ::
  "buf_api \<Rightarrow> MessageCode \<Rightarrow> AdditionalInfo list \<Rightarrow> bytes \<Rightarrow> CemiFrame KnxResult" where
  "cemi_decode_standard B message_code additional_info buf =
    (if length buf < 7 then Err (KnxError_frame_too_short 7 (length buf))
     else obind (get_u8 B buf) (\<lambda>(ctrl1, buf). obind (get_u8 B buf) (\<lambda>(ctrl2, buf).
       obind (get_u16 B buf) (\<lambda>(src, buf). obind (get_u16 B buf) (\<lambda>(dst, buf).
       obind (get_u8 B buf) (\<lambda>(npdu, buf).
         if length buf < unat npdu then Err (KnxError_frame_too_short (unat npdu) (length buf))
         else obind (cemi_decode_npdu B (unat npdu) buf) (\<lambda>(apci, frame_data).
           Ok \<lparr>cf_message_code = message_code, cf_additional_info = additional_info,
             cf_source = IndividualAddress_decode src, cf_destination = dst,
             cf_address_type = AddressType_from_bit (ctrl2 AND 0x80 \<noteq> 0),
             cf_hop_count = ctrl2 AND 0x07,
             cf_priority = Priority_from_bits (drop_bit 2 ctrl1 AND 0x03),
             cf_confirm = (ctrl1 AND 0x01 \<noteq> 0), cf_ack_request = (ctrl1 AND 0x20 = 0),
             cf_system_broadcast = (ctrl1 AND 0x10 \<noteq> 0), cf_apci = apci,
             cf_data = frame_data\<rparr>)))))))"

definition CemiFrame_decode :: "buf_api \<Rightarrow> bytes \<Rightarrow> CemiFrame KnxResult" where
  "CemiFrame_decode B data =
    (if length data < 2 then Err (KnxError_frame_too_short 2 (length data))
     else obind (get_u8 B data) (\<lambda>(mc, buf).
       obind (ok_or (MessageCode_try_from_u8 mc) (UnknownMessageCode (data ! 0))) (\<lambda>message_code.
       obind (get_u8 B buf) (\<lambda>(add_info_len, buf).
       obind (cemi_decode_additional_info B (unat add_info_len) buf) (\<lambda>(additional_info, buf).
       if MessageCode_is_property_service message_code \<or> MessageCode_is_reset_service message_code
       then Ok \<lparr>cf_message_code = message_code, cf_additional_info = additional_info,
              cf_source = zero_ia, cf_destination = 0, cf_address_type = AddrIndividual,
              cf_hop_count = 7, cf_priority = Prio_System, cf_confirm = False,
              cf_ack_request = False, cf_system_broadcast = False, cf_apci = Apci_Unknown 0,
              cf_data = buf\<rparr>
       else if message_code = MC_LBusmonInd
       then Ok \<lparr>cf_message_code = message_code, cf_additional_info = additional_info,
              cf_source = zero_ia, cf_destination = 0, cf_address_type = AddrGroup,
              cf_hop_count = 7, cf_priority = Prio_Low, cf_confirm = False,
              cf_ack_request = False, cf_system_broadcast = False, cf_apci = Apci_Unknown 0,
              cf_data = buf\<rparr>
       else cemi_decode_standard B message_code additional_info buf)))))"


section \<open>What the wire format can represent\<close>

text \<open>
  The frames that the encoder writes without loss: the additional information fits its
  one-byte length; property, reset and bus monitor frames have the field values that
  their format does not carry; a data frame has a valid source, a three-bit hop count,
  no system broadcast flag and a group value service whose data fits and is not the
  single byte zero (which is written like no data at all).
\<close>

definition cemi_infos_fit :: "AdditionalInfo list \<Rightarrow> bool" where
  "cemi_infos_fit infos \<longleftrightarrow> sum_list (map AdditionalInfo_encoded_len infos) \<le> 255"

definition cemi_raw_fields :: "CemiFrame \<Rightarrow> AddressType \<Rightarrow> Priority \<Rightarrow> bool" where
  "cemi_raw_fields f at prio \<longleftrightarrow>
     cf_source f = zero_ia \<and> cf_destination f = 0 \<and> cf_address_type f = at \<and> cf_hop_count f = 7 \<and>
     cf_priority f = prio \<and> \<not> cf_confirm f \<and> \<not> cf_ack_request f \<and> \<not> cf_system_broadcast f \<and>
     cf_apci f = Apci_Unknown 0"

definition cemi_group_service :: "Apci \<Rightarrow> bytes \<Rightarrow> bool" where
  "cemi_group_service apci data \<longleftrightarrow>
     apci = Apci_GroupValueRead \<and> data = [] \<or>
     apci \<in> {Apci_GroupValueResponse, Apci_GroupValueWrite} \<and> data \<noteq> [0] \<and> length data \<le> 254"

definition CemiFrame_representable :: "CemiFrame \<Rightarrow> bool" where
  "CemiFrame_representable f \<longleftrightarrow> cemi_infos_fit (cf_additional_info f) \<and>
    (if MessageCode_is_property_service (cf_message_code f) \<or>
        MessageCode_is_reset_service (cf_message_code f)
     then cemi_raw_fields f AddrIndividual Prio_System
     else if cf_message_code f = MC_LBusmonInd then cemi_raw_fields f AddrGroup Prio_Low
     else valid_ia (cf_source f) \<and> cf_hop_count f \<le> 7 \<and> \<not> cf_system_broadcast f \<and>
          cemi_group_service (cf_apci f) (cf_data f))"


section \<open>Lemmas on the fields\<close>

lemma MessageCode_try_from_to_u8 [simp]: "MessageCode_try_from_u8 (MessageCode_to_u8 c) = Some c"
  by (cases c) (simp_all add: MessageCode_try_from_u8_def)

lemma MessageCode_try_from_u8_SomeD:
  "MessageCode_try_from_u8 v = Some c \<Longrightarrow> v = MessageCode_to_u8 c"
  by (auto simp: MessageCode_try_from_u8_def split: if_splits)

lemma zero_ia_new: "IndividualAddress_new 0 0 0 = Ok zero_ia"
  by (simp add: IndividualAddress_new_def zero_ia_def
      IndividualAddress_MAX_AREA_def IndividualAddress_MAX_LINE_def)

text \<open>Reading the control bytes back.\<close>

lemma ctrl1_fields:
  "Priority_from_bits (drop_bit 2 (cemi_ctrl1 f) AND 0x03) = cf_priority f"
  "cemi_ctrl1 f AND 0x01 \<noteq> 0 \<longleftrightarrow> cf_confirm f"
  "cemi_ctrl1 f AND 0x20 = 0 \<longleftrightarrow> cf_ack_request f"
  "cemi_ctrl1 f AND 0x10 = 0"
  by (cases "cf_priority f"; simp add: cemi_ctrl1_def Priority_from_bits_def Let_def)+

lemma and7_le: "h AND 0x07 = h" if "h \<le> 7" for h :: u8
  by (rule bit_word_eqI) (use that in \<open>auto simp: bit_simps dest: word_mask_bits(3)\<close>)

lemma ctrl2_fields:
  assumes "cf_hop_count f \<le> 7"
  shows "AddressType_from_bit (cemi_ctrl2 f AND 0x80 \<noteq> 0) = cf_address_type f"
    and "cemi_ctrl2 f AND 0x07 = cf_hop_count f"
proof -
  have 1: "(h AND 0x07) AND 0x80 = 0" for h :: u8
    by (simp add: and.assoc)
  have 2: "(0x80 OR (h AND 0x07)) AND 0x80 = 0x80" for h :: u8
    using 1 [of h] by (simp add: bit.conj_disj_distrib2)
  have 3: "(0x80 OR (h AND 0x07)) AND 0x07 = h AND 0x07" for h :: u8
    by (simp add: bit.conj_disj_distrib2 and.assoc)
  show "AddressType_from_bit (cemi_ctrl2 f AND 0x80 \<noteq> 0) = cf_address_type f"
    by (cases "cf_address_type f") (simp_all add: cemi_ctrl2_def 1 2 AddressType_from_bit_def)
  show "cemi_ctrl2 f AND 0x07 = cf_hop_count f"
    using assms 3 [of "cf_hop_count f"] by (simp add: cemi_ctrl2_def and7_le)
qed

text \<open>The compact control byte of a group response or write with six data bits.\<close>

lemma and3F_le: "d AND 0x3F = d" if "d \<le> 0x3F" for d :: u8
proof (rule bit_word_eqI)
  fix n assume "n < LENGTH(8)"
  have "d < 2 ^ 6" using that le_less_trans [of d "0x3F" "2 ^ 6"] by simp
  then have "bit d n \<Longrightarrow> n < 6" by (rule bit_less_exp [rotated])
  then show "bit (d AND 0x3F) n = bit d n" by (auto simp: bit_simps)
qed

lemma Apci_decode_u8:
  fixes b :: u8
  shows "b = 0 \<Longrightarrow> Apci_decode (ucast b) = Apci_GroupValueRead"
    and "0x40 \<le> b \<Longrightarrow> b \<le> 0x7F \<Longrightarrow> Apci_decode (ucast b) = Apci_GroupValueResponse"
    and "0x80 \<le> b \<Longrightarrow> Apci_decode (ucast b) = Apci_GroupValueWrite"
proof -
  have m: "(ucast b :: u16) AND 0x3FF = ucast b"
    by (rule bit_word_eqI) (auto simp: bit_simps dest: bit_imp_le_length)
  have z: "(ucast b :: u16) \<noteq> 0" if "0 < unat b"
  proof
    assume "(ucast b :: u16) = 0"
    then have "unat (ucast b :: u16) = 0" by simp
    with that show False by simp
  qed
  show "Apci_decode (ucast b) = Apci_GroupValueRead" if "b = 0"
    using that by (simp add: Apci_decode_def)
  show "Apci_decode (ucast b) = Apci_GroupValueResponse" if "0x40 \<le> b" "b \<le> 0x7F"
    using that z by (simp add: Apci_decode_def m word_le_nat_alt)
  show "Apci_decode (ucast b) = Apci_GroupValueWrite" if "0x80 \<le> b"
    using that z unat_u8_le [of b] by (simp add: Apci_decode_def m word_le_nat_alt)
qed

lemma compact_apci:
  assumes "d \<le> (0x3F :: u8)"
  shows "0x40 \<le> 0x40 OR d \<and> 0x40 OR d \<le> 0x7F" and "0x80 \<le> 0x80 OR d"
    and "(0x40 OR d) AND 0x3F = d" and "(0x80 OR d) AND 0x3F = d"
proof -
  have d: "unat d \<le> 63" using assms by (simp add: word_le_nat_alt)
  have m: "d AND 0x3F = d" by (rule and3F_le [OF assms])
  have bits: "bit d k \<Longrightarrow> k < 6" for k
    using m by (metis bit_and_iff bit_mask_literals(5) bit_numeral_word_iff)
  have "0x40 OR d = 0x40 + d"
    by (rule disjunctive_add [symmetric]) (use bits in \<open>fastforce simp: bit_simps\<close>)
  moreover have "0x80 OR d = 0x80 + d"
    by (rule disjunctive_add [symmetric]) (use bits in \<open>fastforce simp: bit_simps\<close>)
  ultimately have "unat (0x40 OR d) = 64 + unat d" "unat (0x80 OR d) = 128 + unat d"
    using d by (simp_all add: unat_word_ariths)
  then show "0x40 \<le> 0x40 OR d \<and> 0x40 OR d \<le> 0x7F" "0x80 \<le> 0x80 OR d"
    using d by (simp_all add: word_le_nat_alt)
  show "(0x40 OR d) AND 0x3F = d" "(0x80 OR d) AND 0x3F = d"
    by (simp_all add: bit.conj_disj_distrib2 m)
qed

lemma small_data_nonzero: "d \<noteq> 0 \<Longrightarrow> b AND 0x3F = d \<Longrightarrow> small_data b = [d]"
  by (simp add: small_data_def)

lemma Apci_decode_block:
  fixes v :: u16
  defines "n \<equiv> unat (v AND 0x03FF)"
  assumes "n div 64 = k" and "1 \<le> k" and "k \<le> 15"
  shows "Apci_decode v \<noteq> Apci_Unknown v"
proof -
  have n: "64 * k \<le> n" "n < 64 * k + 64" using assms(2) by linarith+
  have v0: "v AND 0x03FF \<noteq> 0"
  proof
    assume "v AND 0x03FF = 0"
    then have "n = 0" by (simp add: n_def)
    with n(1) assms(3) show False by simp
  qed
  have "k = 1 \<or> k = 2 \<or> k = 3 \<or> k = 4 \<or> k = 5 \<or> k = 6 \<or> k = 7 \<or> k = 8 \<or> k = 9 \<or>
    k = 10 \<or> k = 11 \<or> k = 12 \<or> k = 13 \<or> k = 14 \<or> k = 15"
    using assms(3,4) by presburger
  then show ?thesis
    using v0 n unfolding n_def
    by (elim disjE; simp add: Apci_decode_def Let_def word_le_nat_alt)
qed

lemma Apci_decode_Unknown_iff:
  "Apci_decode v = Apci_Unknown v \<longleftrightarrow> 0 < unat (v AND 0x03FF) \<and> unat (v AND 0x03FF) < 0x40"
proof -
  have "v AND 0x03FF \<le> 0x03FF" by (rule word_and_le1)
  then have n: "unat (v AND 0x03FF) \<le> 1023" by (simp add: word_le_nat_alt)
  consider (z) "v AND 0x03FF = 0" | (s) "0 < unat (v AND 0x03FF)" "unat (v AND 0x03FF) < 64"
    | (l) "64 \<le> unat (v AND 0x03FF)"
    by (meson not_le unat_gt_0)
  then show ?thesis
  proof cases
    case z
    then show ?thesis by (simp add: Apci_decode_def)
  next
    case s
    then have "v AND 0x03FF \<noteq> 0" by (simp add: unat_gt_0)
    with s show ?thesis by (simp add: Apci_decode_def word_le_nat_alt)
  next
    case l
    then have "1 \<le> unat (v AND 0x03FF) div 64" "unat (v AND 0x03FF) div 64 \<le> 15"
      using n by linarith+
    with l show ?thesis using Apci_decode_block [OF refl] by auto
  qed
qed

lemma Apci_decode_encode_iff:
  "Apci_decode (Apci_encode a) = a \<longleftrightarrow>
     a \<in> {Apci_GroupValueRead, Apci_GroupValueResponse, Apci_GroupValueWrite,
          Apci_IndividualAddressWrite} \<or>
     (\<exists>v. a = Apci_Unknown v \<and> 0 < unat (v AND 0x03FF) \<and> unat (v AND 0x03FF) < 0x40)"
proof (cases a)
  case (Apci_Unknown v)
  then show ?thesis by (simp add: Apci_decode_Unknown_iff)
qed (simp_all add: Apci_decode_def)

lemma list_ge2E:
  assumes "2 \<le> length xs"
  obtains a b ys where "xs = a # b # ys"
proof -
  have "Suc (Suc 0) \<le> length xs" using assms by simp
  then show ?thesis using that by (auto simp: Suc_le_length_iff)
qed

lemma list_ge7E:
  assumes "7 \<le> length xs"
  obtains a b c d e f g ys where "xs = a # b # c # d # e # f # g # ys"
proof -
  have "Suc (Suc (Suc (Suc (Suc (Suc (Suc 0)))))) \<le> length xs" using assms by simp
  then show ?thesis using that by (auto simp: Suc_le_length_iff)
qed


section \<open>Codec laws\<close>

context bytes_crate
begin

lemma info_encode:
  "AdditionalInfo_encode B buf i = buf @ [ai_info_type i, as_u8 (length (ai_data i))] @ ai_data i"
  by (simp add: AdditionalInfo_encode_def put_laws)

lemma infos_encode:
  "foldl (AdditionalInfo_encode B) buf infos = buf @ concat (map (AdditionalInfo_encode B []) infos)"
  by (induction infos arbitrary: buf) (simp_all add: info_encode)

lemma info_decode_cons:
  "AdditionalInfo_decode B (t # l # ys) =
     (if length ys < unat l then Err (FrameTooShort (unat l) (length ys))
      else Ok (\<lparr>ai_info_type = t, ai_data = take (unat l) ys\<rparr>, drop (unat l) ys))"
  by (simp add: AdditionalInfo_decode_def get_laws KnxError_frame_too_short_def slice_to_def
      slice_from_def)

lemma info_decode_short:
  "length bs < 2 \<Longrightarrow> AdditionalInfo_decode B bs = Err (FrameTooShort 2 (length bs))"
  by (simp add: AdditionalInfo_decode_def KnxError_frame_too_short_def)

lemma info_decode_encode:
  "length (ai_data i) \<le> 255 \<Longrightarrow>
     AdditionalInfo_decode B (AdditionalInfo_encode B [] i @ rest) = Ok (i, rest)"
  by (simp add: info_encode info_decode_cons unat_as_u8)

lemma info_decode_consumes: "consumes (AdditionalInfo_decode B)"
  unfolding consumes_def
proof (intro allI impI)
  fix bs i rest assume *: "AdditionalInfo_decode B bs = Ok (i, rest)"
  then have "2 \<le> length bs" using info_decode_short [of bs] by (cases "length bs < 2") auto
  then obtain t l ys where "bs = t # l # ys" by (rule list_ge2E)
  with * show "length rest < length bs"
    by (auto simp: info_decode_cons split: if_splits)
qed

lemma info_decode_not_panic: "AdditionalInfo_decode B bs \<noteq> Panic"
proof (cases "length bs < 2")
  case False
  then have "2 \<le> length bs" by simp
  then obtain t l ys where "bs = t # l # ys" by (rule list_ge2E)
  then show ?thesis by (simp add: info_decode_cons)
qed (simp add: info_decode_short)

lemma additional_info_not_panic: "cemi_decode_additional_info B n buf \<noteq> Panic"
  by (auto simp: cemi_decode_additional_info_def obind_eq_Panic_iff slice_to_def slice_from_def
      decode_all_not_panic [OF info_decode_consumes info_decode_not_panic])

end

sublocale bytes_crate \<subseteq> cemi_info:
  stream_codec "\<lambda>i. length (ai_data i) \<le> 255" "AdditionalInfo_encode B []" "AdditionalInfo_decode B"
  by unfold_locales (rule info_decode_encode, assumption, simp add: info_encode)

lemma infos_fit_each: "cemi_infos_fit infos \<Longrightarrow> list_all (\<lambda>i. length (ai_data i) \<le> 255) infos"
  by (induction infos) (auto simp: cemi_infos_fit_def AdditionalInfo_encoded_len_def)

context bytes_crate
begin

lemma infos_length:
  "length (concat (map (AdditionalInfo_encode B []) infos)) =
     sum_list (map AdditionalInfo_encoded_len infos)"
  by (induction infos) (simp_all add: info_encode AdditionalInfo_encoded_len_def)

lemma additional_info_decode_encode:
  assumes "cemi_infos_fit infos"
  shows "cemi_decode_additional_info B (unat (as_u8 (sum_list (map AdditionalInfo_encoded_len infos))))
           (concat (map (AdditionalInfo_encode B []) infos) @ rest) = Ok (infos, rest)"
proof -
  let ?bs = "concat (map (AdditionalInfo_encode B []) infos)"
  have n: "unat (as_u8 (sum_list (map AdditionalInfo_encoded_len infos))) = length ?bs"
    using assms by (simp add: infos_length cemi_infos_fit_def unat_as_u8)
  have "decode_all (AdditionalInfo_decode B) ?bs = Ok infos"
    by (rule cemi_info.decode_all_encode [OF infos_fit_each [OF assms]])
  moreover have "infos = []" if "length ?bs = 0"
    using that by (cases infos) (auto simp: info_encode)
  ultimately show ?thesis
    unfolding n by (auto simp: cemi_decode_additional_info_def slice_to_def slice_from_def)
qed

lemma npdu_append: "cemi_npdu B f buf = buf @ cemi_npdu B f []"
  by (simp add: cemi_npdu_def put_laws Let_def)

lemma npdu_decode_encode:
  assumes "cemi_group_service (cf_apci f) (cf_data f)"
  obtains n bs where "cemi_npdu B f [] = n # bs" and "length bs = unat n"
    and "cemi_decode_npdu B (unat n) (bs @ rest) = Ok (cf_apci f, cf_data f)"
proof -
  let ?d = "cf_data f"
  define b :: u8 where "b = ucast (Apci_encode (cf_apci f))"
  consider (none) "?d = []" | (small) d where "?d = [d]" "d \<le> 0x3F" "?d \<noteq> []"
    | (full) "?d \<noteq> []" "\<not> (length ?d = 1 \<and> ?d ! 0 \<le> 0x3F)"
    by (cases ?d) (auto simp: length_Suc_conv)
  then show ?thesis
  proof cases
    case none
    then have "cemi_npdu B f [] = [1, b]" by (simp add: cemi_npdu_def put_laws b_def)
    moreover have "cemi_decode_npdu B 1 (b # rest) = Ok (cf_apci f, ?d)"
      using assms none
      by (auto simp: cemi_group_service_def cemi_decode_npdu_def get_laws b_def Apci_decode_def small_data_def)
    ultimately show ?thesis using that [of 1 "[b]"] by simp
  next
    case (small d)
    then have d0: "d \<noteq> 0" and ap: "cf_apci f \<in> {Apci_GroupValueResponse, Apci_GroupValueWrite}"
      using assms by (auto simp: cemi_group_service_def)
    have "cemi_npdu B f [] = [1, b OR d]"
      using small by (simp add: cemi_npdu_def put_laws b_def and3F_le)
    moreover have "cemi_decode_npdu B 1 ((b OR d) # rest) = Ok (cf_apci f, ?d)"
      using ap small(1) d0 compact_apci [OF small(2)]
      by (auto simp: cemi_decode_npdu_def get_laws b_def Apci_decode_u8 small_data_nonzero)
    ultimately show ?thesis using that [of 1 "[b OR d]"] by simp
  next
    case full
    then have ap: "cf_apci f \<in> {Apci_GroupValueResponse, Apci_GroupValueWrite}"
      and len: "length ?d + 1 \<le> 255" using assms by (auto simp: cemi_group_service_def)
    have "cemi_npdu B f [] = as_u8 (length ?d + 1) # b # ?d"
      using full by (simp add: cemi_npdu_def put_laws b_def Let_def)
    moreover have "unat (as_u8 (length ?d + 1)) = length ?d + 1" using len by (rule unat_as_u8)
    moreover have "cemi_decode_npdu B (length ?d + 1) (b # ?d @ rest) = Ok (cf_apci f, ?d)"
      using ap full(1)
      by (auto simp: cemi_decode_npdu_def get_laws b_def Apci_decode_def slice_to_def)
    ultimately show ?thesis using that [of "as_u8 (length ?d + 1)" "b # ?d"] by simp
  qed
qed

lemma cemi_encode:
  "CemiFrame_encode B f =
     [MessageCode_to_u8 (cf_message_code f),
      as_u8 (sum_list (map AdditionalInfo_encoded_len (cf_additional_info f)))] @
     concat (map (AdditionalInfo_encode B []) (cf_additional_info f)) @
     (if MessageCode_is_property_service (cf_message_code f) \<or>
         MessageCode_is_reset_service (cf_message_code f) \<or> cf_message_code f = MC_LBusmonInd
      then cf_data f
      else [cemi_ctrl1 f, cemi_ctrl2 f] @ u16_to_be (IndividualAddress_encode (cf_source f)) @
           u16_to_be (cf_destination f) @ cemi_npdu B f [])"
  by (simp add: CemiFrame_encode_def put_laws infos_encode npdu_append [of f "_ @ _"]
      npdu_append [of f "_ # _"] Let_def)

lemma cemi_decode_raw:
  assumes "CemiFrame_representable f"
    and "MessageCode_is_property_service (cf_message_code f) \<or>
         MessageCode_is_reset_service (cf_message_code f) \<or> cf_message_code f = MC_LBusmonInd"
  shows "CemiFrame_decode B (CemiFrame_encode B f) = Ok f"
proof -
  have "cemi_infos_fit (cf_additional_info f)" using assms by (simp add: CemiFrame_representable_def)
  from additional_info_decode_encode [OF this] assms show ?thesis
    by (auto simp: cemi_encode CemiFrame_decode_def get_laws CemiFrame_representable_def
        cemi_raw_fields_def split: if_splits)
qed

lemma cemi_decode_data:
  assumes "CemiFrame_representable f"
    and "\<not> (MessageCode_is_property_service (cf_message_code f) \<or>
         MessageCode_is_reset_service (cf_message_code f) \<or> cf_message_code f = MC_LBusmonInd)"
  shows "CemiFrame_decode B (CemiFrame_encode B f @ rest) = Ok f"
proof -
  have fit: "cemi_infos_fit (cf_additional_info f)" and ia: "valid_ia (cf_source f)"
    and hop: "cf_hop_count f \<le> 7" and sb: "\<not> cf_system_broadcast f"
    and g: "cemi_group_service (cf_apci f) (cf_data f)"
    using assms by (auto simp: CemiFrame_representable_def)
  from g obtain n bs where npdu: "cemi_npdu B f [] = n # bs" "length bs = unat n"
      "cemi_decode_npdu B (unat n) (bs @ rest) = Ok (cf_apci f, cf_data f)"
    by (rule npdu_decode_encode)
  show ?thesis
    using additional_info_decode_encode [OF fit] assms(2) npdu ctrl1_fields [of f] ctrl2_fields [OF hop] sb
    by (simp add: cemi_encode CemiFrame_decode_def cemi_decode_standard_def get_laws u16_to_be_def
        IndividualAddress_decode_encode ia)
qed

lemma cemi_decode_encode: "CemiFrame_representable f \<Longrightarrow> CemiFrame_decode B (CemiFrame_encode B f) = Ok f"
  using cemi_decode_raw [of f] cemi_decode_data [of f "[]"] by auto

end

sublocale bytes_crate \<subseteq> cemi: wire_codec CemiFrame_representable "CemiFrame_encode B" "CemiFrame_decode B"
  by unfold_locales (rule cemi_decode_encode)

context bytes_crate
begin

lemma npdu_not_panic:
  "n \<le> length buf \<Longrightarrow> cemi_decode_npdu B n buf = Panic \<longleftrightarrow> buf = []"
proof (cases buf)
  case (Cons b ys)
  assume "n \<le> length buf"
  with Cons show ?thesis
    by (cases ys) (auto simp: cemi_decode_npdu_def get_laws obind_eq_Panic_iff slice_to_def Let_def)
qed (simp add: cemi_decode_npdu_def get_laws)

lemma cemi_decode_short: "length data < 2 \<Longrightarrow> CemiFrame_decode B data = Err (FrameTooShort 2 (length data))"
  by (simp add: CemiFrame_decode_def KnxError_frame_too_short_def)

lemma cemi_decode_standard_panic_iff:
  "cemi_decode_standard B mc infos buf = Panic \<longleftrightarrow> length buf = 7 \<and> buf ! 6 = 0"
proof (cases "length buf < 7")
  case False
  then have "7 \<le> length buf" by simp
  then obtain a b c d e f n ys where buf: "buf = a # b # c # d # e # f # n # ys"
    by (rule list_ge7E)
  have "unat n = 0 \<longleftrightarrow> n = 0" by (rule unat_eq_zero)
  then show ?thesis
    using npdu_not_panic [of "unat n" ys]
    by (auto simp: buf cemi_decode_standard_def get_laws obind_eq_Panic_iff)
qed (simp add: cemi_decode_standard_def)

lemma cemi_decode_panic_iff:
  "CemiFrame_decode B data = Panic \<longleftrightarrow>
     2 \<le> length data \<and> (\<exists>mc infos buf.
       MessageCode_try_from_u8 (data ! 0) = Some mc \<and> \<not> MessageCode_is_property_service mc \<and>
       \<not> MessageCode_is_reset_service mc \<and> mc \<noteq> MC_LBusmonInd \<and>
       cemi_decode_additional_info B (unat (data ! 1)) (drop 2 data) = Ok (infos, buf) \<and>
       length buf = 7 \<and> buf ! 6 = 0)"
proof (cases "length data < 2")
  case False
  then have "2 \<le> length data" by simp
  then obtain a b ys where data: "data = a # b # ys" by (rule list_ge2E)
  show ?thesis
  proof (cases "MessageCode_try_from_u8 a")
    case (Some mc)
    then show ?thesis
      by (cases "cemi_decode_additional_info B (unat b) ys")
        (auto simp: data CemiFrame_decode_def get_laws additional_info_not_panic
          cemi_decode_standard_panic_iff split: if_splits)
  qed (simp add: data CemiFrame_decode_def get_laws)
qed (simp add: cemi_decode_short)

end

text \<open>The count and the start index of a property service share one 16-bit field.\<close>

lemma count_index_fields:
  assumes "count \<le> 0x0F"
  shows "ucast (drop_bit 12 (count_index_field count start)) = count"
    and "ucast (count_index_field count start AND 0x0FFF) = start"
proof -
  show "ucast (drop_bit 12 (count_index_field count start)) = count"
    by (rule bit_word_eqI)
      (use assms in \<open>auto simp: count_index_field_def bit_simps dest: word_mask_bits(1) bit_imp_le_length\<close>)
  show "ucast (count_index_field count start AND 0x0FFF) = start"
    by (rule bit_word_eqI)
      (auto simp: count_index_field_def bit_simps dest: bit_imp_le_length)
qed


section \<open>Properties\<close>



text \<open>
  C24. The cEMI decoder panics on exactly one shape of input: a data or raw frame whose
  additional information is well formed and whose body is the seven fixed bytes with an
  NPDU length of zero. The control byte is then read from an empty buffer.
\<close>

theorem cemi_decode_panics_iff:
  assumes "bytes_crate B"
  shows "CemiFrame_decode B data = Panic \<longleftrightarrow>
     2 \<le> length data \<and> (\<exists>mc infos buf.
       MessageCode_try_from_u8 (data ! 0) = Some mc \<and> \<not> MessageCode_is_property_service mc \<and>
       \<not> MessageCode_is_reset_service mc \<and> mc \<noteq> MC_LBusmonInd \<and>
       cemi_decode_additional_info B (unat (data ! 1)) (drop 2 data) = Ok (infos, buf) \<and>
       length buf = 7 \<and> buf ! 6 = 0)"
  by (rule bytes_crate.cemi_decode_panic_iff [OF assms])

theorem cemi_decode_panics_iff_witness:
  "bytes_crate std_buf \<and>
   CemiFrame_decode std_buf [0x11, 0, 0xBC, 0xE0, 0x11, 0x01, 0x09, 0x01, 0] = Panic"
  using cemi_decode_panics_iff [OF bytes_crate_std, of "[0x11, 0, 0xBC, 0xE0, 0x11, 0x01, 0x09, 0x01, 0]"]
    bytes_crate_std
  by (simp add: MessageCode_try_from_u8_def MessageCode_is_property_service_def
      MessageCode_is_reset_service_def cemi_decode_additional_info_def)

text \<open>
  The APCI encoder and decoder are inverse on four of the sixteen named services (the
  three group value services and the individual address write) and on unknown codes
  between 1 and 63; every other service is decoded as a different one.
\<close>

theorem apci_roundtrip_iff:
  "Apci_decode (Apci_encode a) = a \<longleftrightarrow>
     a \<in> {Apci_GroupValueRead, Apci_GroupValueResponse, Apci_GroupValueWrite,
          Apci_IndividualAddressWrite} \<or>
     (\<exists>v. a = Apci_Unknown v \<and> 0 < unat (v AND 0x03FF) \<and> unat (v AND 0x03FF) < 0x40)"
  by (rule Apci_decode_encode_iff)

text \<open>
  A property confirmation carries its object, property, element count and start
  index so that the request parser reads them back, for every count that fits four bits;
  a failed write is always read back with count zero.
\<close>

lemma property_confirmation_parsed:
  assumes "count \<le> 0x0F"
  shows "CemiFrame_parse_property_request (CemiFrame_prop_read_con obj pid count start value) =
           Some (obj, pid, count, start, value) \<and>
         CemiFrame_parse_property_request (CemiFrame_prop_write_con obj pid count start success) =
           Some (obj, pid, if success then count else 0, start, [])"
  using count_index_fields [OF assms, of start] count_index_fields [of 0 start]
  by (simp add: CemiFrame_parse_property_request_def CemiFrame_prop_read_con_def
      CemiFrame_prop_write_con_def u16_to_be_def)

end
