(* ===== verification/Knx_Connection.thy ===== *)
theory Knx_Connection
  imports Knx_Cemi
begin

text \<open>
  The KNXnet/IP connection messages, \<^verbatim>\<open>mabi-knx/src/tunnel/connection.rs\<close>: connection
  request and response information, connect, tunnelling, connection state and disconnect
  messages, each with its encoder and decoder.
\<close>

section \<open>Connection types\<close>

datatype ConnectionType =
    CT_DeviceManagement | CT_Tunnel | CT_RemoteLogging | CT_RemoteConfiguration | CT_ObjectServer

fun ConnectionType_to_u8 :: "ConnectionType \<Rightarrow> u8" where
  "ConnectionType_to_u8 CT_DeviceManagement = 0x03"
| "ConnectionType_to_u8 CT_Tunnel = 0x04"
| "ConnectionType_to_u8 CT_RemoteLogging = 0x06"
| "ConnectionType_to_u8 CT_RemoteConfiguration = 0x07"
| "ConnectionType_to_u8 CT_ObjectServer = 0x08"

definition ConnectionType_from_u8 :: "u8 \<Rightarrow> ConnectionType option" where
  "ConnectionType_from_u8 v =
    (if v = 0x03 then Some CT_DeviceManagement
     else if v = 0x04 then Some CT_Tunnel
     else if v = 0x06 then Some CT_RemoteLogging
     else if v = 0x07 then Some CT_RemoteConfiguration
     else if v = 0x08 then Some CT_ObjectServer
     else None)"

datatype KnxLayer = KL_LinkLayer | KL_Raw | KL_BusMonitor

fun KnxLayer_to_u8 :: "KnxLayer \<Rightarrow> u8" where
  "KnxLayer_to_u8 KL_LinkLayer = 0x02"
| "KnxLayer_to_u8 KL_Raw = 0x04"
| "KnxLayer_to_u8 KL_BusMonitor = 0x80"

definition KnxLayer_from_u8 :: "u8 \<Rightarrow> KnxLayer option" where
  "KnxLayer_from_u8 v =
    (if v = 0x02 then Some KL_LinkLayer
     else if v = 0x04 then Some KL_Raw
     else if v = 0x80 then Some KL_BusMonitor
     else None)"


section \<open>Connect request and response\<close>

record ConnectionRequestInfo =
  cri_connection_type :: ConnectionType
  cri_knx_layer :: KnxLayer

definition ConnectionRequestInfo_tunnel :: "KnxLayer \<Rightarrow> ConnectionRequestInfo" where
  "ConnectionRequestInfo_tunnel layer = \<lparr>cri_connection_type = CT_Tunnel, cri_knx_layer = layer\<rparr>"

definition ConnectionRequestInfo_encode :: "buf_api \<Rightarrow> ConnectionRequestInfo \<Rightarrow> bytes" where
  "ConnectionRequestInfo_encode B cri =
    (let buf = api_put_u8 B [] 4;
         buf = api_put_u8 B buf (ConnectionType_to_u8 (cri_connection_type cri));
         buf = api_put_u8 B buf (KnxLayer_to_u8 (cri_knx_layer cri))
     in api_put_u8 B buf 0x00)"

definition ConnectionRequestInfo_decode :: "buf_api \<Rightarrow> bytes \<Rightarrow> ConnectionRequestInfo KnxResult" where
  "ConnectionRequestInfo_decode B data =
    (if length data < 4 then Err (KnxError_frame_too_short 4 (length data))
     else obind (get_u8 B data) (\<lambda>(len, buf).
       if len \<noteq> 4 then Err (InvalidHeader (''Invalid CRI length: '' @ show_word len))
       else obind (get_u8 B buf) (\<lambda>(ct, buf).
         obind (ok_or (ConnectionType_from_u8 ct) (InvalidHeader ''Unknown connection type''))
           (\<lambda>connection_type.
         obind (get_u8 B buf) (\<lambda>(kl, buf).
         obind (get_u8 B buf) (\<lambda>(_, buf).
           Ok \<lparr>cri_connection_type = connection_type,
               cri_knx_layer = (case KnxLayer_from_u8 kl of Some l \<Rightarrow> l | None \<Rightarrow> KL_LinkLayer)\<rparr>))))))"

record ConnectionResponseData =
  crd_individual_address :: IndividualAddress

definition ConnectionResponseData_new :: "IndividualAddress \<Rightarrow> ConnectionResponseData" where
  "ConnectionResponseData_new ia = \<lparr>crd_individual_address = ia\<rparr>"

definition ConnectionResponseData_encode :: "buf_api \<Rightarrow> ConnectionResponseData \<Rightarrow> bytes" where
  "ConnectionResponseData_encode B crd =
    (let buf = api_put_u8 B [] 4;
         buf = api_put_u8 B buf (ConnectionType_to_u8 CT_Tunnel)
     in api_put_u16 B buf (IndividualAddress_encode (crd_individual_address crd)))"

definition ConnectionResponseData_decode :: "buf_api \<Rightarrow> bytes \<Rightarrow> ConnectionResponseData KnxResult" where
  "ConnectionResponseData_decode B data =
    (if length data < 4 then Err (KnxError_frame_too_short 4 (length data))
     else obind (get_u8 B data) (\<lambda>(_, buf). obind (get_u8 B buf) (\<lambda>(_, buf).
       obind (get_u16 B buf) (\<lambda>(a, buf).
         Ok \<lparr>crd_individual_address = IndividualAddress_decode a\<rparr>))))"

datatype (plugins only: code size) ConnectStatus =
    CS_NoError | CS_ConnectionType | CS_ConnectionOption | CS_NoMoreConnections
  | CS_NoMoreUniqueConnections | CS_DataConnection | CS_KnxConnection | CS_TunnellingLayer

fun ConnectStatus_to_u8 :: "ConnectStatus \<Rightarrow> u8" where
  "ConnectStatus_to_u8 CS_NoError = 0x00"
| "ConnectStatus_to_u8 CS_ConnectionType = 0x22"
| "ConnectStatus_to_u8 CS_ConnectionOption = 0x23"
| "ConnectStatus_to_u8 CS_NoMoreConnections = 0x24"
| "ConnectStatus_to_u8 CS_NoMoreUniqueConnections = 0x25"
| "ConnectStatus_to_u8 CS_DataConnection = 0x26"
| "ConnectStatus_to_u8 CS_KnxConnection = 0x27"
| "ConnectStatus_to_u8 CS_TunnellingLayer = 0x29"

definition ConnectStatus_from_u8 :: "u8 \<Rightarrow> ConnectStatus" where
  "ConnectStatus_from_u8 v =
    (if v = 0x00 then CS_NoError
     else if v = 0x22 then CS_ConnectionType
     else if v = 0x23 then CS_ConnectionOption
     else if v = 0x24 then CS_NoMoreConnections
     else if v = 0x25 then CS_NoMoreUniqueConnections
     else if v = 0x26 then CS_DataConnection
     else if v = 0x27 then CS_KnxConnection
     else if v = 0x29 then CS_TunnellingLayer
     else CS_NoError)"

definition ConnectStatus_is_success :: "ConnectStatus \<Rightarrow> bool" where
  "ConnectStatus_is_success s \<longleftrightarrow> s = CS_NoError"

record ConnectRequest =
  cr_control_endpoint :: Hpai
  cr_data_endpoint :: Hpai
  cr_cri :: ConnectionRequestInfo

definition ConnectRequest_new :: "Hpai \<Rightarrow> Hpai \<Rightarrow> ConnectionRequestInfo \<Rightarrow> ConnectRequest" where
  "ConnectRequest_new control_ep data_ep cri =
     \<lparr>cr_control_endpoint = control_ep, cr_data_endpoint = data_ep, cr_cri = cri\<rparr>"

definition ConnectRequest_encode :: "buf_api \<Rightarrow> ConnectRequest \<Rightarrow> bytes" where
  "ConnectRequest_encode B r =
    (let buf = api_put_slice B [] (Hpai_encode B (cr_control_endpoint r));
         buf = api_put_slice B buf (Hpai_encode B (cr_data_endpoint r))
     in api_put_slice B buf (ConnectionRequestInfo_encode B (cr_cri r)))"

definition ConnectRequest_decode :: "buf_api \<Rightarrow> bytes \<Rightarrow> ConnectRequest KnxResult" where
  "ConnectRequest_decode B data =
    (if length data < 20 then Err (KnxError_frame_too_short 20 (length data))
     else obind (Hpai_decode B data) (\<lambda>control_endpoint.
       obind (slice_from data 8) (\<lambda>d. obind (Hpai_decode B d) (\<lambda>data_endpoint.
       obind (slice_from data 16) (\<lambda>d. obind (ConnectionRequestInfo_decode B d) (\<lambda>cri.
         Ok \<lparr>cr_control_endpoint = control_endpoint, cr_data_endpoint = data_endpoint,
             cr_cri = cri\<rparr>))))))"

record ConnectResponse =
  cp_channel_id :: u8
  cp_status :: ConnectStatus
  cp_data_endpoint :: Hpai
  cp_crd :: "ConnectionResponseData option"

definition ConnectResponse_success ::
  "u8 \<Rightarrow> Hpai \<Rightarrow> ConnectionResponseData \<Rightarrow> ConnectResponse" where
  "ConnectResponse_success ch ep crd =
     \<lparr>cp_channel_id = ch, cp_status = CS_NoError, cp_data_endpoint = ep, cp_crd = Some crd\<rparr>"

definition ConnectResponse_error :: "ConnectStatus \<Rightarrow> ConnectResponse" where
  "ConnectResponse_error st =
     \<lparr>cp_channel_id = 0, cp_status = st, cp_data_endpoint = Hpai_nat, cp_crd = None\<rparr>"

definition ConnectResponse_encode :: "buf_api \<Rightarrow> ConnectResponse \<Rightarrow> bytes" where
  "ConnectResponse_encode B r =
    (let buf = api_put_u8 B [] (cp_channel_id r);
         buf = api_put_u8 B buf (ConnectStatus_to_u8 (cp_status r));
         buf = api_put_slice B buf (Hpai_encode B (cp_data_endpoint r))
     in case cp_crd r of
          Some crd \<Rightarrow> api_put_slice B buf (ConnectionResponseData_encode B crd)
        | None \<Rightarrow> buf)"

definition ConnectResponse_decode :: "buf_api \<Rightarrow> bytes \<Rightarrow> ConnectResponse KnxResult" where
  "ConnectResponse_decode B data =
    (if length data < 2 then Err (KnxError_frame_too_short 2 (length data))
     else obind (get_u8 B data) (\<lambda>(channel_id, buf). obind (get_u8 B buf) (\<lambda>(st, buf).
       let status = ConnectStatus_from_u8 st in
       if \<not> ConnectStatus_is_success status then Ok (ConnectResponse_error status)
       else if length buf < 8 then Err (KnxError_frame_too_short 10 (length data))
       else obind (Hpai_decode B buf) (\<lambda>data_endpoint.
         obind (if 12 \<le> length buf
                then obind (slice_from buf 8) (\<lambda>d.
                     obind (ConnectionResponseData_decode B d) (\<lambda>crd. Ok (Some crd)))
                else Ok None) (\<lambda>crd.
           Ok \<lparr>cp_channel_id = channel_id, cp_status = status,
               cp_data_endpoint = data_endpoint, cp_crd = crd\<rparr>)))))"


section \<open>Tunnelling\<close>

record TunnellingRequest =
  tr_channel_id :: u8
  tr_sequence_counter :: u8
  tr_cemi :: CemiFrame

definition TunnellingRequest_new :: "u8 \<Rightarrow> u8 \<Rightarrow> CemiFrame \<Rightarrow> TunnellingRequest" where
  "TunnellingRequest_new ch sq f = \<lparr>tr_channel_id = ch, tr_sequence_counter = sq, tr_cemi = f\<rparr>"

definition TunnellingRequest_encode :: "buf_api \<Rightarrow> TunnellingRequest \<Rightarrow> bytes" where
  "TunnellingRequest_encode B r =
    (let cemi_data = CemiFrame_encode B (tr_cemi r);
         buf = api_put_u8 B [] 4;
         buf = api_put_u8 B buf (tr_channel_id r);
         buf = api_put_u8 B buf (tr_sequence_counter r);
         buf = api_put_u8 B buf 0
     in api_put_slice B buf cemi_data)"

definition TunnellingRequest_decode :: "buf_api \<Rightarrow> bytes \<Rightarrow> TunnellingRequest KnxResult" where
  "TunnellingRequest_decode B data =
    (if length data < 4 then Err (KnxError_frame_too_short 4 (length data))
     else obind (get_u8 B data) (\<lambda>(_, buf). obind (get_u8 B buf) (\<lambda>(channel_id, buf).
       obind (get_u8 B buf) (\<lambda>(sequence_counter, buf). obind (get_u8 B buf) (\<lambda>(_, buf).
       obind (CemiFrame_decode B buf) (\<lambda>cemi.
         Ok \<lparr>tr_channel_id = channel_id, tr_sequence_counter = sequence_counter,
             tr_cemi = cemi\<rparr>))))))"

record TunnellingAck =
  ta_channel_id :: u8
  ta_sequence_counter :: u8
  ta_status :: u8

definition TunnellingAck_ok :: "u8 \<Rightarrow> u8 \<Rightarrow> TunnellingAck" where
  "TunnellingAck_ok ch sq = \<lparr>ta_channel_id = ch, ta_sequence_counter = sq, ta_status = 0\<rparr>"

definition TunnellingAck_error :: "u8 \<Rightarrow> u8 \<Rightarrow> u8 \<Rightarrow> TunnellingAck" where
  "TunnellingAck_error ch sq st = \<lparr>ta_channel_id = ch, ta_sequence_counter = sq, ta_status = st\<rparr>"

definition TunnellingAck_encode :: "TunnellingAck \<Rightarrow> bytes" where
  "TunnellingAck_encode a = [4, ta_channel_id a, ta_sequence_counter a, ta_status a]"

definition TunnellingAck_decode :: "buf_api \<Rightarrow> bytes \<Rightarrow> TunnellingAck KnxResult" where
  "TunnellingAck_decode B data =
    (if length data < 4 then Err (KnxError_frame_too_short 4 (length data))
     else obind (get_u8 B data) (\<lambda>(_, buf). obind (get_u8 B buf) (\<lambda>(channel_id, buf).
       obind (get_u8 B buf) (\<lambda>(sequence_counter, buf). obind (get_u8 B buf) (\<lambda>(status, buf).
         Ok \<lparr>ta_channel_id = channel_id, ta_sequence_counter = sequence_counter,
             ta_status = status\<rparr>)))))"


section \<open>Connection state and disconnect\<close>

record ConnectionStateRequest =
  csr_channel_id :: u8
  csr_control_endpoint :: Hpai

definition ConnectionStateRequest_new :: "u8 \<Rightarrow> Hpai \<Rightarrow> ConnectionStateRequest" where
  "ConnectionStateRequest_new ch ep = \<lparr>csr_channel_id = ch, csr_control_endpoint = ep\<rparr>"

definition ConnectionStateRequest_encode :: "buf_api \<Rightarrow> ConnectionStateRequest \<Rightarrow> bytes" where
  "ConnectionStateRequest_encode B r =
    (let buf = api_put_u8 B [] (csr_channel_id r);
         buf = api_put_u8 B buf 0
     in api_put_slice B buf (Hpai_encode B (csr_control_endpoint r)))"

definition ConnectionStateRequest_decode :: "buf_api \<Rightarrow> bytes \<Rightarrow> ConnectionStateRequest KnxResult" where
  "ConnectionStateRequest_decode B data =
    (if length data < 10 then Err (KnxError_frame_too_short 10 (length data))
     else obind (get_u8 B data) (\<lambda>(channel_id, buf). obind (get_u8 B buf) (\<lambda>(_, buf).
       obind (Hpai_decode B buf) (\<lambda>control_endpoint.
         Ok \<lparr>csr_channel_id = channel_id, csr_control_endpoint = control_endpoint\<rparr>))))"

record ConnectionStateResponse =
  csp_channel_id :: u8
  csp_status :: u8

definition ConnectionStateResponse_ok :: "u8 \<Rightarrow> ConnectionStateResponse" where
  "ConnectionStateResponse_ok ch = \<lparr>csp_channel_id = ch, csp_status = 0\<rparr>"

definition ConnectionStateResponse_encode :: "ConnectionStateResponse \<Rightarrow> bytes" where
  "ConnectionStateResponse_encode r = [csp_channel_id r, csp_status r]"

definition ConnectionStateResponse_decode :: "bytes \<Rightarrow> ConnectionStateResponse KnxResult" where
  "ConnectionStateResponse_decode data =
    (if length data < 2 then Err (KnxError_frame_too_short 2 (length data))
     else obind (idx data 0) (\<lambda>ch. obind (idx data 1) (\<lambda>st.
       Ok \<lparr>csp_channel_id = ch, csp_status = st\<rparr>)))"

record DisconnectRequest =
  dr_channel_id :: u8
  dr_control_endpoint :: Hpai

definition DisconnectRequest_new :: "u8 \<Rightarrow> Hpai \<Rightarrow> DisconnectRequest" where
  "DisconnectRequest_new ch ep = \<lparr>dr_channel_id = ch, dr_control_endpoint = ep\<rparr>"

definition DisconnectRequest_encode :: "buf_api \<Rightarrow> DisconnectRequest \<Rightarrow> bytes" where
  "DisconnectRequest_encode B r =
    (let buf = api_put_u8 B [] (dr_channel_id r);
         buf = api_put_u8 B buf 0
     in api_put_slice B buf (Hpai_encode B (dr_control_endpoint r)))"

definition DisconnectRequest_decode :: "buf_api \<Rightarrow> bytes \<Rightarrow> DisconnectRequest KnxResult" where
  "DisconnectRequest_decode B data =
    (if length data < 10 then Err (KnxError_frame_too_short 10 (length data))
     else obind (get_u8 B data) (\<lambda>(channel_id, buf). obind (get_u8 B buf) (\<lambda>(_, buf).
       obind (Hpai_decode B buf) (\<lambda>control_endpoint.
         Ok \<lparr>dr_channel_id = channel_id, dr_control_endpoint = control_endpoint\<rparr>))))"

record DisconnectResponse =
  dp_channel_id :: u8
  dp_status :: u8

definition DisconnectResponse_ok :: "u8 \<Rightarrow> DisconnectResponse" where
  "DisconnectResponse_ok ch = \<lparr>dp_channel_id = ch, dp_status = 0\<rparr>"

definition DisconnectResponse_encode :: "DisconnectResponse \<Rightarrow> bytes" where
  "DisconnectResponse_encode r = [dp_channel_id r, dp_status r]"

definition DisconnectResponse_decode :: "bytes \<Rightarrow> DisconnectResponse KnxResult" where
  "DisconnectResponse_decode data =
    (if length data < 2 then Err (KnxError_frame_too_short 2 (length data))
     else obind (idx data 0) (\<lambda>ch. obind (idx data 1) (\<lambda>st.
       Ok \<lparr>dp_channel_id = ch, dp_status = st\<rparr>)))"


section \<open>Codec laws\<close>

lemma ConnectionType_from_to_u8 [simp]: "ConnectionType_from_u8 (ConnectionType_to_u8 c) = Some c"
  by (cases c) (simp_all add: ConnectionType_from_u8_def)

lemma KnxLayer_from_to_u8 [simp]: "KnxLayer_from_u8 (KnxLayer_to_u8 l) = Some l"
  by (cases l) (simp_all add: KnxLayer_from_u8_def)

lemma ConnectStatus_from_to_u8 [simp]: "ConnectStatus_from_u8 (ConnectStatus_to_u8 s) = s"
  by (cases s) (simp_all add: ConnectStatus_from_u8_def)

text \<open>
  A response can be transmitted when it is a success, in any form that assigns a valid
  address, or the error value that the constructor \<open>ConnectResponse_error\<close> builds.
\<close>

definition ConnectResponse_representable :: "ConnectResponse \<Rightarrow> bool" where
  "ConnectResponse_representable r \<longleftrightarrow>
     (if cp_status r = CS_NoError
      then (case cp_crd r of None \<Rightarrow> True | Some crd \<Rightarrow> valid_ia (crd_individual_address crd))
      else r = ConnectResponse_error (cp_status r))"

context bytes_crate
begin

lemma cri_encode:
  "ConnectionRequestInfo_encode B cri =
     [4, ConnectionType_to_u8 (cri_connection_type cri), KnxLayer_to_u8 (cri_knx_layer cri), 0]"
  by (simp add: ConnectionRequestInfo_encode_def put_laws)

lemma cri_decode_encode: "ConnectionRequestInfo_decode B (ConnectionRequestInfo_encode B cri @ rest) = Ok cri"
  by (simp add: cri_encode ConnectionRequestInfo_decode_def get_laws)

lemma crd_encode:
  "ConnectionResponseData_encode B crd = [4, 4] @ u16_to_be (IndividualAddress_encode (crd_individual_address crd))"
  by (simp add: ConnectionResponseData_encode_def put_laws)

lemma crd_decode_encode:
  "valid_ia (crd_individual_address crd) \<Longrightarrow>
     ConnectionResponseData_decode B (ConnectionResponseData_encode B crd @ rest) = Ok crd"
  by (simp add: crd_encode ConnectionResponseData_decode_def get_laws u16_to_be_def)

lemma length_cri_encode [simp]: "length (ConnectionRequestInfo_encode B cri) = 4"
  by (simp add: cri_encode)

lemma length_crd_encode [simp]: "length (ConnectionResponseData_encode B crd) = 4"
  by (simp add: crd_encode)

lemma connect_request_encode:
  "ConnectRequest_encode B r =
     Hpai_encode B (cr_control_endpoint r) @ Hpai_encode B (cr_data_endpoint r) @
     ConnectionRequestInfo_encode B (cr_cri r)"
  by (simp add: ConnectRequest_encode_def put_laws)

lemma connect_request_decode_encode:
  "ConnectRequest_decode B (ConnectRequest_encode B r @ rest) = Ok r"
  by (simp add: connect_request_encode ConnectRequest_decode_def slice_from_def hpai_decode_encode
      cri_decode_encode)

lemma connect_response_encode:
  "ConnectResponse_encode B r =
     [cp_channel_id r, ConnectStatus_to_u8 (cp_status r)] @ Hpai_encode B (cp_data_endpoint r) @
     (case cp_crd r of Some crd \<Rightarrow> ConnectionResponseData_encode B crd | None \<Rightarrow> [])"
  by (simp add: ConnectResponse_encode_def put_laws split: option.split)

lemma connect_response_decode_encode:
  assumes "ConnectResponse_representable r"
  shows "ConnectResponse_decode B (ConnectResponse_encode B r) = Ok r"
proof (cases "cp_status r = CS_NoError")
  case True
  with assms show ?thesis
    using hpai_decode_encode [of "cp_data_endpoint r" "[]"] crd_decode_encode [of _ "[]"]
    by (cases "cp_crd r")
      (simp_all add: connect_response_encode ConnectResponse_decode_def get_laws slice_from_def
        ConnectResponse_representable_def ConnectStatus_is_success_def hpai_decode_encode
        ConnectStatus_from_u8_def Let_def)
next
  case False
  with assms have "r = ConnectResponse_error (cp_status r)"
    by (simp add: ConnectResponse_representable_def)
  then show ?thesis
    using False
    by (simp add: connect_response_encode ConnectResponse_decode_def get_laws
        ConnectStatus_is_success_def)
qed

lemma crd_decode_valid: "ConnectionResponseData_decode B bs = Ok crd \<Longrightarrow> valid_ia (crd_individual_address crd)"
  by (auto simp: ConnectionResponseData_decode_def obind_eq_Ok_iff split: if_splits)

lemma connect_response_decode_representable:
  assumes "ConnectResponse_decode B data = Ok r"
  shows "ConnectResponse_representable r"
proof (cases "length data < 2")
  case False
  then have "2 \<le> length data" by simp
  then obtain ch st ys where "data = ch # st # ys" by (rule list_ge2E)
  with assms show ?thesis
    by (auto simp: ConnectResponse_decode_def get_laws ConnectResponse_representable_def
        ConnectStatus_is_success_def ConnectResponse_error_def Let_def obind_eq_Ok_iff
        dest!: crd_decode_valid split: if_splits)
qed (use assms in \<open>simp add: ConnectResponse_decode_def\<close>)

lemma tunnelling_request_encode:
  "TunnellingRequest_encode B r =
     [4, tr_channel_id r, tr_sequence_counter r, 0] @ CemiFrame_encode B (tr_cemi r)"
  by (simp add: TunnellingRequest_encode_def put_laws)

lemma tunnelling_request_decode_cons:
  "TunnellingRequest_decode B (h # ch # sq # rv # bs) =
     obind (CemiFrame_decode B bs) (\<lambda>f. Ok \<lparr>tr_channel_id = ch, tr_sequence_counter = sq, tr_cemi = f\<rparr>)"
  by (simp add: TunnellingRequest_decode_def get_laws)

lemma tunnelling_request_decode_encode:
  "CemiFrame_representable (tr_cemi r) \<Longrightarrow>
     TunnellingRequest_decode B (TunnellingRequest_encode B r) = Ok r"
  by (simp add: tunnelling_request_encode tunnelling_request_decode_cons cemi_decode_encode)

lemma tunnelling_ack_decode_encode: "TunnellingAck_decode B (TunnellingAck_encode a @ rest) = Ok a"
  by (simp add: TunnellingAck_decode_def TunnellingAck_encode_def get_laws)

lemma connection_state_request_decode_encode:
  "ConnectionStateRequest_decode B (ConnectionStateRequest_encode B r @ rest) = Ok r"
  by (simp add: ConnectionStateRequest_decode_def ConnectionStateRequest_encode_def put_laws get_laws
      hpai_decode_encode)

lemma disconnect_request_decode_encode:
  "DisconnectRequest_decode B (DisconnectRequest_encode B r @ rest) = Ok r"
  by (simp add: DisconnectRequest_decode_def DisconnectRequest_encode_def put_laws get_laws
      hpai_decode_encode)

end

lemma connection_state_response_decode_encode:
  "ConnectionStateResponse_decode (ConnectionStateResponse_encode r @ rest) = Ok r"
  by (simp add: ConnectionStateResponse_decode_def ConnectionStateResponse_encode_def idx_def)

lemma disconnect_response_decode_encode:
  "DisconnectResponse_decode (DisconnectResponse_encode r @ rest) = Ok r"
  by (simp add: DisconnectResponse_decode_def DisconnectResponse_encode_def idx_def)

sublocale bytes_crate \<subseteq> connect_request:
  prefix_codec "\<lambda>_. True" "ConnectRequest_encode B" "ConnectRequest_decode B"
  by unfold_locales (rule connect_request_decode_encode)

sublocale bytes_crate \<subseteq> connect_response:
  wire_codec ConnectResponse_representable "ConnectResponse_encode B" "ConnectResponse_decode B"
  by unfold_locales (rule connect_response_decode_encode)

sublocale bytes_crate \<subseteq> tunnelling_request:
  wire_codec "\<lambda>r. CemiFrame_representable (tr_cemi r)" "TunnellingRequest_encode B"
    "TunnellingRequest_decode B"
  by unfold_locales (rule tunnelling_request_decode_encode)

sublocale bytes_crate \<subseteq> tunnelling_ack:
  prefix_codec "\<lambda>_. True" TunnellingAck_encode "TunnellingAck_decode B"
  by unfold_locales (rule tunnelling_ack_decode_encode)

sublocale bytes_crate \<subseteq> connection_state_request:
  prefix_codec "\<lambda>_. True" "ConnectionStateRequest_encode B" "ConnectionStateRequest_decode B"
  by unfold_locales (rule connection_state_request_decode_encode)

sublocale bytes_crate \<subseteq> disconnect_request:
  prefix_codec "\<lambda>_. True" "DisconnectRequest_encode B" "DisconnectRequest_decode B"
  by unfold_locales (rule disconnect_request_decode_encode)

interpretation connection_state_response:
  prefix_codec "\<lambda>_. True" ConnectionStateResponse_encode ConnectionStateResponse_decode
  by unfold_locales (rule connection_state_response_decode_encode)

interpretation disconnect_response:
  prefix_codec "\<lambda>_. True" DisconnectResponse_encode DisconnectResponse_decode
  by unfold_locales (rule disconnect_response_decode_encode)


section \<open>Properties\<close>



text \<open>
  The connect response codec loses nothing on exactly the representable responses: a
  response comes back unchanged precisely when it is a success whose address, if any, is
  valid, or the error value of its status.
\<close>

lemma connect_response_roundtrip_iff:
  assumes "bytes_crate B"
  shows "ConnectResponse_decode B (ConnectResponse_encode B r) = Ok r \<longleftrightarrow>
           ConnectResponse_representable r"
  using bytes_crate.connect_response_decode_encode [OF assms]
    bytes_crate.connect_response_decode_representable [OF assms] by blast

text \<open>
  A connect response with a status byte outside the known error codes is accepted as
  a success: the decoder's default for an unknown status is \<open>CS_NoError\<close>, so a refusal
  with any other code is indistinguishable from an established connection.
\<close>

theorem connect_response_unknown_status:
  assumes "bytes_crate B" and "st \<notin> {0x22, 0x23, 0x24, 0x25, 0x26, 0x27, 0x29}"
  shows "ConnectResponse_decode B (ch # st # Hpai_encode B h) =
     Ok \<lparr>cp_channel_id = ch, cp_status = CS_NoError, cp_data_endpoint = h, cp_crd = None\<rparr>"
proof -
  have "ConnectStatus_from_u8 st = CS_NoError"
    using assms(2) by (simp add: ConnectStatus_from_u8_def)
  then show ?thesis
    using bytes_crate.hpai_decode_encode [OF assms(1), of h "[]"]
      bytes_crate.length_hpai_encode [OF assms(1), of h]
    by (simp add: ConnectResponse_decode_def bytes_crate.get_laws [OF assms(1)]
        ConnectStatus_is_success_def)
qed

theorem connect_response_unknown_status_witness:
  "ConnectResponse_decode std_buf (0 # 0x21 # Hpai_encode std_buf Hpai_nat) =
     Ok \<lparr>cp_channel_id = 0, cp_status = CS_NoError, cp_data_endpoint = Hpai_nat, cp_crd = None\<rparr>"
  by (rule connect_response_unknown_status [OF bytes_crate_std]) simp

end
