(* ===== verification/Knx_Sequence.thy ===== *)
theory Knx_Sequence
  imports Mabi_Prelude
begin

text \<open>
  Sequence numbers of a tunnel, \<^verbatim>\<open>mabi-knx/src/tunnel/sequence.rs\<close>. The tracker's atomics
  are plain fields of a record and its operations are functions on it; the statistics are
  64-bit counters that wrap as \<^verbatim>\<open>fetch_add\<close> does. The compare-and-swap loop of
  \<^verbatim>\<open>next_sno\<close> is modelled a second time as a step relation over any number of threads.
\<close>

definition FATAL_DESYNC_THRESHOLD :: u8 where "FATAL_DESYNC_THRESHOLD = 5"
definition FORWARD_BOUNDARY :: u8 where "FORWARD_BOUNDARY = 128"

datatype ReceivedValidation =
    RV_Valid u8
  | RV_Duplicate u8 u8
  | RV_OutOfOrder u8 u8 u8
  | RV_FatalDesync u8 u8 u8

fun ReceivedValidation_should_process :: "ReceivedValidation \<Rightarrow> bool" where
  "ReceivedValidation_should_process (RV_Valid _) = True"
| "ReceivedValidation_should_process (RV_OutOfOrder _ _ _) = True"
| "ReceivedValidation_should_process _ = False"

fun ReceivedValidation_should_ack :: "ReceivedValidation \<Rightarrow> bool" where
  "ReceivedValidation_should_ack (RV_FatalDesync _ _ _) = False"
| "ReceivedValidation_should_ack _ = True"

fun ReceivedValidation_requires_restart :: "ReceivedValidation \<Rightarrow> bool" where
  "ReceivedValidation_requires_restart (RV_FatalDesync _ _ _) = True"
| "ReceivedValidation_requires_restart _ = False"

datatype AckValidation = AV_Valid | AV_Mismatch u8 u8

record SequenceStats =
  st_frames_sent :: u64
  st_frames_received :: u64
  st_duplicates_detected :: u64
  st_out_of_order_detected :: u64
  st_fatal_desyncs :: u64
  st_resets :: u64

definition SequenceStats_default :: SequenceStats where
  "SequenceStats_default =
     \<lparr>st_frames_sent = 0, st_frames_received = 0, st_duplicates_detected = 0,
      st_out_of_order_detected = 0, st_fatal_desyncs = 0, st_resets = 0\<rparr>"

record SequenceTracker =
  sq_sno :: u8
  sq_rno :: u8
  sq_fatal_desync_threshold :: u8
  sq_stats :: SequenceStats

definition SequenceTracker_new :: SequenceTracker where
  "SequenceTracker_new =
     \<lparr>sq_sno = 0, sq_rno = 0, sq_fatal_desync_threshold = FATAL_DESYNC_THRESHOLD,
      sq_stats = SequenceStats_default\<rparr>"

definition SequenceTracker_with_desync_threshold :: "u8 \<Rightarrow> SequenceTracker" where
  "SequenceTracker_with_desync_threshold threshold =
     \<lparr>sq_sno = 0, sq_rno = 0, sq_fatal_desync_threshold = max threshold 2,
      sq_stats = SequenceStats_default\<rparr>"

definition SequenceTracker_next_sno :: "SequenceTracker \<Rightarrow> u8 \<times> SequenceTracker" where
  "SequenceTracker_next_sno t =
     (sq_sno t,
      t\<lparr>sq_sno := sq_sno t + 1,
        sq_stats := (sq_stats t)\<lparr>st_frames_sent := st_frames_sent (sq_stats t) + 1\<rparr>\<rparr>)"

definition SequenceTracker_current_sno :: "SequenceTracker \<Rightarrow> u8" where
  "SequenceTracker_current_sno t = sq_sno t"

definition SequenceTracker_validate_received ::
  "SequenceTracker \<Rightarrow> u8 \<Rightarrow> ReceivedValidation \<times> SequenceTracker" where
  "SequenceTracker_validate_received t sequence =
    (let expected = sq_rno t; st = sq_stats t in
     if sequence = expected
     then (RV_Valid sequence,
           t\<lparr>sq_rno := expected + 1,
             sq_stats := st\<lparr>st_frames_received := st_frames_received st + 1\<rparr>\<rparr>)
     else if sequence + 1 = expected
     then (RV_Duplicate sequence expected,
           t\<lparr>sq_stats := st\<lparr>st_duplicates_detected := st_duplicates_detected st + 1\<rparr>\<rparr>)
     else let distance = sequence - expected in
       if distance < FORWARD_BOUNDARY then
         if sq_fatal_desync_threshold t \<le> distance
         then (RV_FatalDesync sequence expected distance,
               t\<lparr>sq_stats := st\<lparr>st_fatal_desyncs := st_fatal_desyncs st + 1\<rparr>\<rparr>)
         else (RV_OutOfOrder sequence expected distance,
               t\<lparr>sq_stats := st\<lparr>st_out_of_order_detected := st_out_of_order_detected st + 1\<rparr>\<rparr>)
       else (RV_Duplicate sequence expected,
             t\<lparr>sq_stats := st\<lparr>st_duplicates_detected := st_duplicates_detected st + 1\<rparr>\<rparr>))"

definition SequenceTracker_validate_ack :: "SequenceTracker \<Rightarrow> u8 \<Rightarrow> AckValidation" where
  "SequenceTracker_validate_ack t acked =
    (let last_sent = sq_sno t - 1 in
     if acked = last_sent then AV_Valid else AV_Mismatch last_sent acked)"

definition SequenceTracker_reset :: "SequenceTracker \<Rightarrow> SequenceTracker" where
  "SequenceTracker_reset t =
     t\<lparr>sq_sno := 0, sq_rno := 0,
       sq_stats := (sq_stats t)\<lparr>st_resets := st_resets (sq_stats t) + 1\<rparr>\<rparr>"

definition SequenceTracker_stats_snapshot :: "SequenceTracker \<Rightarrow> SequenceStats" where
  "SequenceTracker_stats_snapshot t = sq_stats t"


section \<open>Validation\<close>

lemma distance_255: "s + 1 = e \<longleftrightarrow> s - e = 255" for s e :: u8
proof
  assume "s - e = 255"
  then have "s = 255 + e" by (simp add: diff_eq_eq)
  then show "s + 1 = e" by simp
qed auto

lemma validate_received_cases:
  fixes t :: SequenceTracker and s :: u8
  defines "d \<equiv> s - sq_rno t" and "v \<equiv> fst (SequenceTracker_validate_received t s)"
  shows "d = 0 \<Longrightarrow> v = RV_Valid s"
    and "128 \<le> d \<Longrightarrow> v = RV_Duplicate s (sq_rno t)"
    and "d \<noteq> 0 \<Longrightarrow> d < 128 \<Longrightarrow> d < sq_fatal_desync_threshold t \<Longrightarrow> v = RV_OutOfOrder s (sq_rno t) d"
    and "d \<noteq> 0 \<Longrightarrow> d < 128 \<Longrightarrow> sq_fatal_desync_threshold t \<le> d \<Longrightarrow> v = RV_FatalDesync s (sq_rno t) d"
proof -
  have dup: "s + 1 = sq_rno t \<longleftrightarrow> d = 255" unfolding d_def by (rule distance_255)
  show "v = RV_Valid s" if "d = 0"
    using that by (simp add: v_def d_def SequenceTracker_validate_received_def Let_def)
  show "v = RV_Duplicate s (sq_rno t)" if "128 \<le> d"
    using that
    by (auto simp: v_def d_def SequenceTracker_validate_received_def Let_def FORWARD_BOUNDARY_def)
  show "v = RV_OutOfOrder s (sq_rno t) d" if "d \<noteq> 0" "d < 128" "d < sq_fatal_desync_threshold t"
    using that dup
    by (auto simp: v_def d_def SequenceTracker_validate_received_def Let_def FORWARD_BOUNDARY_def)
  show "v = RV_FatalDesync s (sq_rno t) d" if "d \<noteq> 0" "d < 128" "sq_fatal_desync_threshold t \<le> d"
    using that dup
    by (auto simp: v_def d_def SequenceTracker_validate_received_def Let_def FORWARD_BOUNDARY_def)
qed

lemma validate_received_state:
  fixes t :: SequenceTracker and s :: u8
  defines "t' \<equiv> snd (SequenceTracker_validate_received t s)"
  shows "sq_rno t' = (if s = sq_rno t then sq_rno t + 1 else sq_rno t)"
    and "sq_sno t' = sq_sno t"
    and "sq_fatal_desync_threshold t' = sq_fatal_desync_threshold t"
  by (simp_all add: t'_def SequenceTracker_validate_received_def Let_def)


section \<open>A stream of requests\<close>

text \<open>
  The requests of one channel in arrival order: the sequence numbers whose frames are
  handed to the application, and the tracker at the end. A fatal desync closes the
  channel, so nothing is delivered after it.
\<close>

fun deliver :: "SequenceTracker \<Rightarrow> u8 list \<Rightarrow> u8 list \<times> SequenceTracker" where
  "deliver t [] = ([], t)"
| "deliver t (s # ss) =
    (let (v, t') = SequenceTracker_validate_received t s in
     if ReceivedValidation_requires_restart v then ([], t')
     else let (out, t'') = deliver t' ss in
          (if ReceivedValidation_should_process v then s # out else out, t''))"

text \<open>Each number once or more, in order: frame \<open>i\<close> is repeated \<open>k\<^sub>i\<close> extra times.\<close>

fun retransmitted :: "u8 \<Rightarrow> nat list \<Rightarrow> u8 list" where
  "retransmitted s [] = []"
| "retransmitted s (k # ks) = replicate (Suc k) s @ retransmitted (s + 1) ks"


lemma deliver_duplicates:
  "\<exists>t'. deliver t (replicate k (sq_rno t - 1) @ ss) = deliver t' ss \<and> sq_rno t' = sq_rno t"
proof (induction k arbitrary: t)
  case 0
  then show ?case by auto
next
  case (Suc k)
  let ?t = "snd (SequenceTracker_validate_received t (sq_rno t - 1))"
  have "fst (SequenceTracker_validate_received t (sq_rno t - 1)) = RV_Duplicate (sq_rno t - 1) (sq_rno t)"
    by (rule validate_received_cases(2)) simp
  then have v: "SequenceTracker_validate_received t (sq_rno t - 1) =
      (RV_Duplicate (sq_rno t - 1) (sq_rno t), ?t)" by (simp add: prod_eq_iff)
  have r: "sq_rno ?t = sq_rno t" by (simp add: validate_received_state)
  obtain t' where t': "deliver ?t (replicate k (sq_rno t - 1) @ ss) = deliver t' ss"
    and r': "sq_rno t' = sq_rno t"
    using Suc [of ?t] unfolding r by blast
  have "deliver t (replicate (Suc k) (sq_rno t - 1) @ ss) = deliver ?t (replicate k (sq_rno t - 1) @ ss)"
    by (subst replicate_Suc, subst append_Cons, subst deliver.simps, subst v)
      (simp del: deliver.simps split: prod.split)
  with t' r' show ?case by metis
qed

lemma deliver_retransmitted:
  "fst (deliver t (retransmitted (sq_rno t) ks)) = map (\<lambda>i. sq_rno t + of_nat i) [0..<length ks] \<and>
   sq_rno (snd (deliver t (retransmitted (sq_rno t) ks))) = sq_rno t + of_nat (length ks)"
proof (induction ks arbitrary: t)
  case Nil
  then show ?case by simp
next
  case (Cons k ks)
  let ?t = "snd (SequenceTracker_validate_received t (sq_rno t))"
  have "fst (SequenceTracker_validate_received t (sq_rno t)) = RV_Valid (sq_rno t)"
    by (rule validate_received_cases(1)) simp
  then have v: "SequenceTracker_validate_received t (sq_rno t) = (RV_Valid (sq_rno t), ?t)"
    by (simp add: prod_eq_iff)
  have r: "sq_rno ?t = sq_rno t + 1" by (simp add: validate_received_state)
  obtain t' where t': "deliver ?t (replicate k (sq_rno t) @ retransmitted (sq_rno t + 1) ks) =
      deliver t' (retransmitted (sq_rno t + 1) ks)" "sq_rno t' = sq_rno t + 1"
    using deliver_duplicates [of ?t k "retransmitted (sq_rno t + 1) ks"] unfolding r by auto
  have "map (\<lambda>i. sq_rno t + of_nat i) [0..<Suc (length ks)] =
      sq_rno t # map (\<lambda>i. sq_rno t + 1 + of_nat i) [0..<length ks]"
    by (rule nth_equalityI) (auto simp: nth_Cons ac_simps simp del: upt_Suc split: nat.split)
  moreover have "deliver t (retransmitted (sq_rno t) (k # ks)) =
      map_prod (Cons (sq_rno t)) id (deliver t' (retransmitted (sq_rno t + 1) ks))"
    by (subst retransmitted.simps, subst replicate_Suc, subst append_Cons, subst deliver.simps,
        subst v) (simp add: t' del: deliver.simps split: prod.split)
  ultimately show ?case
    using Cons [of t'] t'(2) by (simp del: upt_Suc deliver.simps retransmitted.simps add: ac_simps)
qed


section \<open>The compare-and-swap loop under interleaving\<close>

text \<open>
  Threads that call \<^verbatim>\<open>next_sno\<close> at the same time. A thread is before its load, holds the
  loaded value, has swapped, or has returned; a failed swap goes back to the load. The
  shared state is the atomic counter and the \<^verbatim>\<open>frames_sent\<close> counter; \<open>ghost_drawn\<close>
  records the successful swaps in their order, with the thread and its value.
\<close>

datatype sno_pc = PcLoad | PcLoaded u8 | PcSwapped u8 | PcReturned u8

record sno_state =
  cas_sno :: u8
  cas_frames_sent :: u64
  cas_pc :: "nat \<Rightarrow> sno_pc"
  ghost_drawn :: "(nat \<times> u8) list"

definition sno_init :: "u8 \<Rightarrow> u64 \<Rightarrow> sno_state" where
  "sno_init s n =
     \<lparr>cas_sno = s, cas_frames_sent = n, cas_pc = (\<lambda>_. PcLoad), ghost_drawn = []\<rparr>"

inductive next_sno_step :: "sno_state \<Rightarrow> sno_state \<Rightarrow> bool" where
  load: "cas_pc s i = PcLoad \<Longrightarrow> next_sno_step s (s\<lparr>cas_pc := (cas_pc s)(i := PcLoaded (cas_sno s))\<rparr>)"
| swap: "cas_pc s i = PcLoaded c \<Longrightarrow> cas_sno s = c \<Longrightarrow>
    next_sno_step s (s\<lparr>cas_sno := c + 1, cas_pc := (cas_pc s)(i := PcSwapped c),
      ghost_drawn := ghost_drawn s @ [(i, c)]\<rparr>)"
| retry: "cas_pc s i = PcLoaded c \<Longrightarrow> cas_sno s \<noteq> c \<Longrightarrow>
    next_sno_step s (s\<lparr>cas_pc := (cas_pc s)(i := PcLoad)\<rparr>)"
| count: "cas_pc s i = PcSwapped c \<Longrightarrow>
    next_sno_step s (s\<lparr>cas_frames_sent := cas_frames_sent s + 1,
      cas_pc := (cas_pc s)(i := PcReturned c)\<rparr>)"

inductive_cases next_sno_stepE: "next_sno_step s s'"

definition sno_linear :: "u8 \<Rightarrow> sno_state \<Rightarrow> bool" where
  "sno_linear s0 s \<longleftrightarrow>
     cas_sno s = s0 + of_nat (length (ghost_drawn s)) \<and>
     map snd (ghost_drawn s) = map (\<lambda>i. s0 + of_nat i) [0..<length (ghost_drawn s)]"

definition sno_owned :: "sno_state \<Rightarrow> bool" where
  "sno_owned s \<longleftrightarrow> distinct (map fst (ghost_drawn s)) \<and>
     (\<forall>i c. (i, c) \<in> set (ghost_drawn s) \<longleftrightarrow> cas_pc s i \<in> {PcSwapped c, PcReturned c})"

definition sno_returned :: "sno_state \<Rightarrow> (nat \<times> u8) set" where
  "sno_returned s = {(i, c). cas_pc s i = PcReturned c}"

lemma sno_linear_step: "next_sno_step s s' \<Longrightarrow> sno_linear s0 s \<Longrightarrow> sno_linear s0 s'"
  by (elim next_sno_stepE) (auto simp: sno_linear_def ac_simps)

lemma sno_owned_step:
  assumes "next_sno_step s s'" and "sno_owned s"
  shows "sno_owned s'"
  using assms(1)
proof cases
  case (swap i c)
  have "i \<notin> fst ` set (ghost_drawn s)"
  proof
    assume "i \<in> fst ` set (ghost_drawn s)"
    then obtain d where "(i, d) \<in> set (ghost_drawn s)" by auto
    with assms(2) have "cas_pc s i \<in> {PcSwapped d, PcReturned d}" by (auto simp: sno_owned_def)
    with swap show False by auto
  qed
  moreover have "(j, d) \<in> set (ghost_drawn s) \<longleftrightarrow> cas_pc s j \<in> {PcSwapped d, PcReturned d}" for j d
    using assms(2) by (auto simp: sno_owned_def)
  ultimately show ?thesis
    using swap assms(2) by (auto simp: sno_owned_def image_iff)
qed (use assms(2) in \<open>auto simp: sno_owned_def\<close>)

lemma sno_returned_finite: "sno_owned s \<Longrightarrow> finite (sno_returned s)"
  by (rule finite_subset [of _ "set (ghost_drawn s)"]) (auto simp: sno_owned_def sno_returned_def)

lemma sno_sent_step:
  assumes "next_sno_step s s'" and "sno_owned s"
    and "cas_frames_sent s = n0 + of_nat (card (sno_returned s))"
  shows "cas_frames_sent s' = n0 + of_nat (card (sno_returned s'))"
  using assms(1)
proof cases
  case (count i c)
  then have "sno_returned s' = insert (i, c) (sno_returned s)" and "(i, c) \<notin> sno_returned s"
    by (auto simp: sno_returned_def split: if_splits)
  with count assms(3) sno_returned_finite [OF assms(2)] show ?thesis by (simp add: ac_simps)
next
  case (load i)
  then have "sno_returned s' = sno_returned s" by (auto simp: sno_returned_def split: if_splits)
  with load assms(3) show ?thesis by simp
next
  case (swap i c)
  then have "sno_returned s' = sno_returned s" by (auto simp: sno_returned_def split: if_splits)
  with swap assms(3) show ?thesis by simp
next
  case (retry i c)
  then have "sno_returned s' = sno_returned s" by (auto simp: sno_returned_def split: if_splits)
  with retry assms(3) show ?thesis by simp
qed

lemma sno_reachable:
  assumes "next_sno_step\<^sup>*\<^sup>* (sno_init s0 n0) s"
  shows "sno_linear s0 s \<and> sno_owned s \<and> cas_frames_sent s = n0 + of_nat (card (sno_returned s))"
  using assms
proof (induction rule: rtranclp_induct)
  case base
  then show ?case by (simp add: sno_linear_def sno_owned_def sno_returned_def sno_init_def)
next
  case (step y z)
  then show ?case using sno_linear_step sno_owned_step sno_sent_step by blast
qed

text \<open>Consecutive bytes are distinct as long as there are at most 256 of them.\<close>

lemma distinct_consecutive: "n \<le> 256 \<Longrightarrow> distinct (map (\<lambda>i. s0 + of_nat i :: u8) [0..<n])"
  by (auto simp: distinct_map inj_on_def word_of_nat_eq_iff take_bit_nat_eq_self)


section \<open>Properties\<close>

text \<open>
  The validation of a received number is decided by its forward distance from the
  expected one, modulo 256: zero is valid, a distance of 128 or more is a duplicate, and
  a smaller one is out of order below the threshold and a fatal desync from it on. The
  expected number advances by one, wrapping, on a valid frame and is unchanged otherwise.
\<close>

lemma validate_received_classification:
  "let d = s - sq_rno t; (v, t') = SequenceTracker_validate_received t s in
     v = (if d = 0 then RV_Valid s
          else if 128 \<le> d then RV_Duplicate s (sq_rno t)
          else if d < sq_fatal_desync_threshold t then RV_OutOfOrder s (sq_rno t) d
          else RV_FatalDesync s (sq_rno t) d) \<and>
     sq_rno t' = (if d = 0 then sq_rno t + 1 else sq_rno t) \<and> sq_sno t' = sq_sno t"
proof -
  obtain v t' where vt: "SequenceTracker_validate_received t s = (v, t')" by fastforce
  then have "v = fst (SequenceTracker_validate_received t s)"
    and "t' = snd (SequenceTracker_validate_received t s)" by simp_all
  with vt show ?thesis
    using validate_received_cases [where t = t and s = s] validate_received_state [where t = t and s = s]
    by (auto simp: Let_def not_le not_less)
qed

text \<open>
  C18. In-order delivery is exactly once under retransmission: when every frame arrives
  once or several times in a row before the next one, the application receives each
  sequence number exactly once and in order, across the wrap from 255 to 0, and the
  tracker ends expecting the next one.
\<close>

theorem retransmissions_delivered_once:
  "fst (deliver t (retransmitted (sq_rno t) ks)) = map (\<lambda>i. sq_rno t + of_nat i) [0..<length ks] \<and>
   sq_rno (snd (deliver t (retransmitted (sq_rno t) ks))) = sq_rno t + of_nat (length ks)"
  by (rule deliver_retransmitted)

text \<open>
  A frame that arrives one place early is delivered twice: it is processed when it is
  classified as out of order, which does not record it, and again when its number becomes
  the expected one. This holds for every configured threshold.
\<close>

theorem early_frame_delivered_twice:
  "fst (deliver (SequenceTracker_with_desync_threshold thr) [1, 0, 1]) = [1, 0, 1]"
proof -
  have "\<not> max thr 2 \<le> (1 :: u8)" by (simp add: max_def word_le_nat_alt)
  then show ?thesis
    by (simp add: SequenceTracker_with_desync_threshold_def SequenceTracker_validate_received_def
        FORWARD_BOUNDARY_def)
qed

text \<open>
  C17. Concurrent callers of \<^verbatim>\<open>next_sno\<close> draw consecutive sequence numbers in the order of
  their swaps, and the statistics count the calls that have returned. Two callers among
  any 256 never receive the same number.
\<close>

theorem next_sno_linearizable:
  assumes "next_sno_step\<^sup>*\<^sup>* (sno_init s0 n0) s"
  shows "map snd (ghost_drawn s) = map (\<lambda>i. s0 + of_nat i) [0..<length (ghost_drawn s)] \<and>
    cas_frames_sent s = n0 + of_nat (card (sno_returned s)) \<and>
    (length (ghost_drawn s) \<le> 256 \<longrightarrow> i \<noteq> j \<longrightarrow> cas_pc s i = PcReturned c \<longrightarrow>
       cas_pc s j = PcReturned d \<longrightarrow> c \<noteq> d)"
proof (intro conjI impI)
  have lin: "sno_linear s0 s" and own: "sno_owned s" and sent: "cas_frames_sent s = n0 + of_nat (card (sno_returned s))"
    using sno_reachable [OF assms] by simp_all
  show "map snd (ghost_drawn s) = map (\<lambda>i. s0 + of_nat i) [0..<length (ghost_drawn s)]"
    using lin by (simp add: sno_linear_def)
  show "cas_frames_sent s = n0 + of_nat (card (sno_returned s))" by (rule sent)
  assume "length (ghost_drawn s) \<le> 256" and ij: "i \<noteq> j"
    and r: "cas_pc s i = PcReturned c" "cas_pc s j = PcReturned d"
  then have dist: "distinct (map snd (ghost_drawn s))"
    using lin by (simp add: sno_linear_def distinct_consecutive)
  have "(i, c) \<in> set (ghost_drawn s)" "(j, d) \<in> set (ghost_drawn s)"
    using own r by (auto simp: sno_owned_def)
  with dist ij show "c \<noteq> d"
    unfolding distinct_map by (metis inj_onD prod.inject snd_conv)
qed

theorem next_sno_linearizable_witness:
  "\<exists>s. next_sno_step\<^sup>*\<^sup>* (sno_init 255 0) s \<and> cas_pc s 0 = PcReturned 255 \<and>
     map snd (ghost_drawn s) = map (\<lambda>i. 255 + of_nat i) [0..<length (ghost_drawn s)]"
proof -
  let ?a = "sno_init 255 0"
  let ?b = "?a\<lparr>cas_pc := (cas_pc ?a)(0 := PcLoaded (cas_sno ?a))\<rparr>"
  let ?c = "?b\<lparr>cas_sno := 255 + 1, cas_pc := (cas_pc ?b)(0 := PcSwapped 255),
      ghost_drawn := ghost_drawn ?b @ [(0, 255)]\<rparr>"
  let ?d = "?c\<lparr>cas_frames_sent := cas_frames_sent ?c + 1, cas_pc := (cas_pc ?c)(0 := PcReturned 255)\<rparr>"
  have "next_sno_step ?a ?b" by (rule next_sno_step.load) (simp add: sno_init_def)
  moreover have "next_sno_step ?b ?c" by (rule next_sno_step.swap) (simp_all add: sno_init_def)
  moreover have "next_sno_step ?c ?d" by (rule next_sno_step.count) simp
  ultimately have r: "next_sno_step\<^sup>*\<^sup>* ?a ?d" by (meson converse_rtranclp_into_rtranclp rtranclp.rtrancl_refl)
  have "cas_pc ?d 0 = PcReturned 255" by simp
  with r next_sno_linearizable [OF r] show ?thesis by blast
qed

end
