(* ===== verification/Knx_Tunnel.thy ===== *)
theory Knx_Tunnel
  imports Knx_Connection Knx_Sequence
begin

text \<open>
  The tunnel connection, \<^verbatim>\<open>mabi-knx/src/tunnel/fsm.rs\<close>, \<^verbatim>\<open>ack_waiter.rs\<close> and the type
  \<^verbatim>\<open>TunnelConnection\<close> of \<^verbatim>\<open>connection.rs\<close>. Points in time (\<^verbatim>\<open>Instant\<close>) and durations
  are counted in microseconds; an operation that reads the clock takes the time as its
  argument \<open>now\<close>. The acknowledgement channel is the third-party \<^verbatim>\<open>tokio\<close> channel: the
  waiter is modelled on the sequence of events that its \<^verbatim>\<open>select!\<close> observes.
\<close>

type_synonym instant = nat
type_synonym duration = nat

section \<open>The tunnel state machine\<close>

datatype TunnelErrorReason =
    HandshakeFailed string
  | MaxReconnectExceeded u32
  | SequenceDesync u8 u8
  | GatewayRefused u8
  | SendErrorThreshold u32 u32

datatype TunnelState =
    TS_Disconnected
  | TS_Connecting
  | TS_Idle
  | TS_WaitingForAck (wa_sequence: u8) (wa_sent_at: instant) (wa_retry_count: u8)
  | TS_WaitingForConfirmation (wc_sequence: u8) (wc_sent_at: instant)
  | TS_Reconnecting u32
  | TS_Error TunnelErrorReason

fun TunnelState_can_send :: "TunnelState \<Rightarrow> bool" where
  "TunnelState_can_send TS_Idle = True"
| "TunnelState_can_send _ = False"

fun TunnelState_is_connected :: "TunnelState \<Rightarrow> bool" where
  "TunnelState_is_connected TS_Idle = True"
| "TunnelState_is_connected (TS_WaitingForAck _ _ _) = True"
| "TunnelState_is_connected (TS_WaitingForConfirmation _ _) = True"
| "TunnelState_is_connected _ = False"

fun TunnelState_name :: "TunnelState \<Rightarrow> string" where
  "TunnelState_name TS_Disconnected = ''Disconnected''"
| "TunnelState_name TS_Connecting = ''Connecting''"
| "TunnelState_name TS_Idle = ''Idle''"
| "TunnelState_name (TS_WaitingForAck _ _ _) = ''WaitingForAck''"
| "TunnelState_name (TS_WaitingForConfirmation _ _) = ''WaitingForConfirmation''"
| "TunnelState_name (TS_Reconnecting _) = ''Reconnecting''"
| "TunnelState_name (TS_Error _) = ''Error''"

fun TunnelErrorReason_fmt :: "TunnelErrorReason \<Rightarrow> string" where
  "TunnelErrorReason_fmt (HandshakeFailed message) = ''Handshake failed: '' @ message"
| "TunnelErrorReason_fmt (MaxReconnectExceeded attempts) =
     ''Max reconnect attempts ('' @ show_word attempts @ '') exceeded''"
| "TunnelErrorReason_fmt (SequenceDesync expected actual) =
     ''Sequence desync: expected '' @ show_word expected @ '', got '' @ show_word actual"
| "TunnelErrorReason_fmt (GatewayRefused status) =
     ''Gateway refused: status '' @ hex_prefixed_u8 status"
| "TunnelErrorReason_fmt (SendErrorThreshold errors threshold) =
     ''Send errors '' @ show_word errors @ '' >= threshold '' @ show_word threshold"

fun TunnelState_fmt :: "TunnelState \<Rightarrow> string" where
  "TunnelState_fmt (TS_WaitingForAck sequence _ retry_count) =
     ''WaitingForAck(seq='' @ show_word sequence @ '', retries='' @ show_word retry_count @ '')''"
| "TunnelState_fmt (TS_WaitingForConfirmation sequence _) =
     ''WaitingForConfirmation(seq='' @ show_word sequence @ '')''"
| "TunnelState_fmt (TS_Reconnecting attempt) =
     ''Reconnecting(attempt='' @ show_word attempt @ '')''"
| "TunnelState_fmt (TS_Error reason) = ''Error('' @ TunnelErrorReason_fmt reason @ '')''"
| "TunnelState_fmt s = TunnelState_name s"

record TunnelFsm =
  fsm_state :: TunnelState
  fsm_transitions :: u64

definition TunnelFsm_new :: TunnelFsm where
  "TunnelFsm_new = \<lparr>fsm_state = TS_Disconnected, fsm_transitions = 0\<rparr>"

definition TunnelFsm_connecting :: TunnelFsm where
  "TunnelFsm_connecting = \<lparr>fsm_state = TS_Connecting, fsm_transitions = 0\<rparr>"

definition fsm_set :: "TunnelState \<Rightarrow> TunnelFsm \<Rightarrow> TunnelFsm" where
  "fsm_set s f = f\<lparr>fsm_state := s, fsm_transitions := fsm_transitions f + 1\<rparr>"

definition TunnelFsm_on_connected :: "TunnelFsm \<Rightarrow> TunnelFsm" where
  "TunnelFsm_on_connected f = fsm_set TS_Idle f"

definition TunnelFsm_on_frame_sent :: "u8 \<Rightarrow> instant \<Rightarrow> TunnelFsm \<Rightarrow> TunnelFsm" where
  "TunnelFsm_on_frame_sent sequence now f = fsm_set (TS_WaitingForAck sequence now 0) f"

definition TunnelFsm_on_retry :: "u8 \<Rightarrow> u8 \<Rightarrow> instant \<Rightarrow> TunnelFsm \<Rightarrow> TunnelFsm" where
  "TunnelFsm_on_retry sequence retry_count now f = fsm_set (TS_WaitingForAck sequence now retry_count) f"

definition TunnelFsm_on_ack_received :: "u8 \<Rightarrow> instant \<Rightarrow> TunnelFsm \<Rightarrow> TunnelFsm" where
  "TunnelFsm_on_ack_received sequence now f = fsm_set (TS_WaitingForConfirmation sequence now) f"

definition TunnelFsm_on_ack_received_simple :: "TunnelFsm \<Rightarrow> TunnelFsm" where
  "TunnelFsm_on_ack_received_simple f = fsm_set TS_Idle f"

definition TunnelFsm_on_confirmation_received :: "TunnelFsm \<Rightarrow> TunnelFsm" where
  "TunnelFsm_on_confirmation_received f = fsm_set TS_Idle f"

definition TunnelFsm_on_disconnected :: "TunnelFsm \<Rightarrow> TunnelFsm" where
  "TunnelFsm_on_disconnected f = fsm_set TS_Disconnected f"

definition TunnelFsm_on_connection_lost :: "u32 \<Rightarrow> TunnelFsm \<Rightarrow> TunnelFsm" where
  "TunnelFsm_on_connection_lost attempt f = fsm_set (TS_Reconnecting attempt) f"

definition TunnelFsm_on_error :: "TunnelErrorReason \<Rightarrow> TunnelFsm \<Rightarrow> TunnelFsm" where
  "TunnelFsm_on_error reason f = fsm_set (TS_Error reason) f"

definition TunnelFsm_force_idle :: "TunnelFsm \<Rightarrow> TunnelFsm" where
  "TunnelFsm_force_idle f = fsm_set TS_Idle f"


section \<open>The acknowledgement waiter\<close>

datatype AckResult =
    AR_Success duration u8
  | AR_AckError u8 u8
  | AR_SendFailed string u8
  | AR_MaxRetriesExceeded u8 u32
  | AR_TunnelRestart u32 u32
  | AR_ChannelClosed

record AckMessage =
  am_channel_id :: u8
  am_sequence :: u8
  am_status :: u8

record AckWaiterStats =
  aw_total_waits :: u64
  aw_first_try_success :: u64
  aw_retry_success :: u64
  aw_failures :: u64
  aw_retransmissions :: u64
  aw_avg_ack_latency_us :: u64

definition AckWaiterStats_default :: AckWaiterStats where
  "AckWaiterStats_default =
     \<lparr>aw_total_waits = 0, aw_first_try_success = 0, aw_retry_success = 0, aw_failures = 0,
      aw_retransmissions = 0, aw_avg_ack_latency_us = 0\<rparr>"

record AckWaiter =
  aw_ack_timeout :: duration
  aw_max_retries :: u8
  aw_consecutive_send_errors :: u32
  aw_send_error_threshold :: u32
  aw_stats :: AckWaiterStats

definition AckWaiter_new :: AckWaiter where
  "AckWaiter_new =
     \<lparr>aw_ack_timeout = 1000000, aw_max_retries = 3, aw_consecutive_send_errors = 0,
      aw_send_error_threshold = 5, aw_stats = AckWaiterStats_default\<rparr>"

definition AckWaiter_with_config :: "duration \<Rightarrow> u8 \<Rightarrow> u32 \<Rightarrow> AckWaiter" where
  "AckWaiter_with_config ack_timeout max_retries send_error_threshold =
     \<lparr>aw_ack_timeout = ack_timeout, aw_max_retries = max_retries, aw_consecutive_send_errors = 0,
      aw_send_error_threshold = send_error_threshold, aw_stats = AckWaiterStats_default\<rparr>"

text \<open>
  What one \<^verbatim>\<open>select!\<close> sees: a message with the time elapsed since the wait began, the
  closed channel, or the timeout of the attempt.
\<close>

datatype ack_event = EvMessage AckMessage duration | EvClosed | EvTimeout

text \<open>
  A matching message ends the wait. A latency that does not fit 64 bits is cut by
  \<^verbatim>\<open>as u64\<close>; the product in the moving average overflows only beyond \<open>2\<^sup>6\<^sup>2\<close>
  microseconds, where it panics in a checked build, so the average is computed in the
  naturals with that check.
\<close>

definition ack_new_avg :: "u64 \<Rightarrow> u64 \<Rightarrow> u64 option" where
  "ack_new_avg prev current_us =
    (if prev = 0 then Some current_us
     else if unat prev * 4 + unat current_us < 2 ^ 64
     then Some (of_nat ((unat prev * 4 + unat current_us) div 5)) else None)"

definition ack_matched ::
  "AckWaiter \<Rightarrow> u8 \<Rightarrow> AckMessage \<Rightarrow> duration \<Rightarrow> (unit, AckResult \<times> AckWaiter) outcome" where
  "ack_matched w attempt ack latency =
    (if am_status ack \<noteq> 0 then Ok (AR_AckError (am_status ack) attempt, w)
     else obind (or_panic (ack_new_avg (aw_avg_ack_latency_us (aw_stats w)) (of_nat latency))) (\<lambda>avg.
       let st = (aw_stats w)\<lparr>aw_avg_ack_latency_us := avg\<rparr>;
           st = (if attempt = 0 then st\<lparr>aw_first_try_success := aw_first_try_success st + 1\<rparr>
                 else st\<lparr>aw_retry_success := aw_retry_success st + 1\<rparr>)
       in Ok (AR_Success latency attempt, w\<lparr>aw_consecutive_send_errors := 0, aw_stats := st\<rparr>)))"

text \<open>All retries exhausted; \<^verbatim>\<open>max_retries + 1\<close> is a checked \<^verbatim>\<open>u8\<close> addition.\<close>

definition ack_exhausted :: "AckWaiter \<Rightarrow> (unit, AckResult \<times> AckWaiter) outcome" where
  "ack_exhausted w =
    (let errors = aw_consecutive_send_errors w + 1;
         st = (aw_stats w)\<lparr>aw_failures := aw_failures (aw_stats w) + 1\<rparr>;
         w' = w\<lparr>aw_consecutive_send_errors := errors, aw_stats := st\<rparr>
     in if aw_consecutive_send_errors w = - 1 then Panic
        else if aw_send_error_threshold w \<le> errors
        then Ok (AR_TunnelRestart errors (aw_send_error_threshold w), w')
        else if aw_max_retries w = 255 then Panic
        else Ok (AR_MaxRetriesExceeded (aw_max_retries w + 1) errors, w'))"

text \<open>
  The two nested loops: \<open>attempt\<close> counts from 0 to \<open>max_retries\<close>, the inner loop skips
  messages that do not match. \<open>None\<close> is a wait that the given events do not end.
\<close>

fun ack_wait :: "AckWaiter \<Rightarrow> u8 \<Rightarrow> u8 \<Rightarrow> nat \<Rightarrow> ack_event list \<Rightarrow>
    (unit, AckResult \<times> AckWaiter) outcome option" where
  "ack_wait w sequence channel_id attempt [] = None"
| "ack_wait w sequence channel_id attempt (EvMessage ack latency # evs) =
    (if am_channel_id ack = channel_id \<and> am_sequence ack = sequence
     then Some (ack_matched w (of_nat attempt) ack latency)
     else ack_wait w sequence channel_id attempt evs)"
| "ack_wait w sequence channel_id attempt (EvClosed # evs) = Some (Ok (AR_ChannelClosed, w))"
| "ack_wait w sequence channel_id attempt (EvTimeout # evs) =
    (if attempt < unat (aw_max_retries w)
     then ack_wait (w\<lparr>aw_stats := (aw_stats w)\<lparr>aw_retransmissions := aw_retransmissions (aw_stats w) + 1\<rparr>\<rparr>)
            sequence channel_id (attempt + 1) evs
     else Some (ack_exhausted w))"

definition AckWaiter_wait_for_ack :: "AckWaiter \<Rightarrow> u8 \<Rightarrow> u8 \<Rightarrow> ack_event list \<Rightarrow>
    (unit, AckResult \<times> AckWaiter) outcome option" where
  "AckWaiter_wait_for_ack w expected_sequence channel_id evs =
     ack_wait (w\<lparr>aw_stats := (aw_stats w)\<lparr>aw_total_waits := aw_total_waits (aw_stats w) + 1\<rparr>\<rparr>)
       expected_sequence channel_id 0 evs"

definition AckWaiter_record_success :: "AckWaiter \<Rightarrow> AckWaiter" where
  "AckWaiter_record_success w = w\<lparr>aw_consecutive_send_errors := 0\<rparr>"

definition AckWaiter_consecutive_errors :: "AckWaiter \<Rightarrow> u32" where
  "AckWaiter_consecutive_errors w = aw_consecutive_send_errors w"

definition AckWaiter_reset_errors :: "AckWaiter \<Rightarrow> AckWaiter" where
  "AckWaiter_reset_errors w = w\<lparr>aw_consecutive_send_errors := 0\<rparr>"


section \<open>Tunnel connections\<close>

record TunnelConnection =
  tc_channel_id :: u8
  tc_client_addr :: SocketAddrV4
  tc_data_endpoint :: SocketAddrV4
  tc_individual_address :: IndividualAddress
  tc_sequence_tracker :: SequenceTracker
  tc_fsm :: TunnelFsm
  tc_last_activity :: instant
  tc_heartbeat_timeout :: duration
  tc_acks :: "AckMessage list"

definition TunnelConnection_new :: "u8 \<Rightarrow> SocketAddrV4 \<Rightarrow> SocketAddrV4 \<Rightarrow> IndividualAddress \<Rightarrow>
    duration \<Rightarrow> instant \<Rightarrow> TunnelConnection" where
  "TunnelConnection_new ch client data_ep ia heartbeat_timeout now =
     \<lparr>tc_channel_id = ch, tc_client_addr = client, tc_data_endpoint = data_ep,
      tc_individual_address = ia, tc_sequence_tracker = SequenceTracker_new,
      tc_fsm = TunnelFsm_connecting, tc_last_activity = now,
      tc_heartbeat_timeout = heartbeat_timeout, tc_acks = []\<rparr>"

definition TunnelConnection_with_desync_threshold :: "u8 \<Rightarrow> SocketAddrV4 \<Rightarrow> SocketAddrV4 \<Rightarrow>
    IndividualAddress \<Rightarrow> duration \<Rightarrow> u8 \<Rightarrow> instant \<Rightarrow> TunnelConnection" where
  "TunnelConnection_with_desync_threshold ch client data_ep ia heartbeat_timeout desync_threshold now =
     \<lparr>tc_channel_id = ch, tc_client_addr = client, tc_data_endpoint = data_ep,
      tc_individual_address = ia,
      tc_sequence_tracker = SequenceTracker_with_desync_threshold desync_threshold,
      tc_fsm = TunnelFsm_connecting, tc_last_activity = now,
      tc_heartbeat_timeout = heartbeat_timeout, tc_acks = []\<rparr>"

definition TunnelConnection_next_send_sequence :: "TunnelConnection \<Rightarrow> u8 \<times> TunnelConnection" where
  "TunnelConnection_next_send_sequence c =
    (let (s, t) = SequenceTracker_next_sno (tc_sequence_tracker c) in (s, c\<lparr>tc_sequence_tracker := t\<rparr>))"

definition TunnelConnection_validate_recv_sequence ::
  "TunnelConnection \<Rightarrow> u8 \<Rightarrow> ReceivedValidation \<times> TunnelConnection" where
  "TunnelConnection_validate_recv_sequence c s =
    (let (v, t) = SequenceTracker_validate_received (tc_sequence_tracker c) s
     in (v, c\<lparr>tc_sequence_tracker := t\<rparr>))"

definition TunnelConnection_check_recv_sequence ::
  "TunnelConnection \<Rightarrow> u8 \<Rightarrow> bool \<times> TunnelConnection" where
  "TunnelConnection_check_recv_sequence c s =
    (let (v, t) = SequenceTracker_validate_received (tc_sequence_tracker c) s
     in (case v of RV_Valid _ \<Rightarrow> True | _ \<Rightarrow> False, c\<lparr>tc_sequence_tracker := t\<rparr>))"

text \<open>The channel of acknowledgements has 32 places, and a message that finds no place is dropped. No code of the
  crate takes the receiver out of a connection, so messages only arrive.\<close>

definition TunnelConnection_feed_ack :: "AckMessage \<Rightarrow> TunnelConnection \<Rightarrow> TunnelConnection" where
  "TunnelConnection_feed_ack msg c = (if length (tc_acks c) < 32 then c\<lparr>tc_acks := tc_acks c @ [msg]\<rparr> else c)"

definition TunnelConnection_touch :: "instant \<Rightarrow> TunnelConnection \<Rightarrow> TunnelConnection" where
  "TunnelConnection_touch now c = c\<lparr>tc_last_activity := now\<rparr>"

definition TunnelConnection_idle_duration :: "instant \<Rightarrow> TunnelConnection \<Rightarrow> duration" where
  "TunnelConnection_idle_duration now c = now - tc_last_activity c"

definition TunnelConnection_is_timed_out :: "instant \<Rightarrow> TunnelConnection \<Rightarrow> bool" where
  "TunnelConnection_is_timed_out now c \<longleftrightarrow>
     tc_heartbeat_timeout c < TunnelConnection_idle_duration now c"

definition TunnelConnection_reset :: "TunnelConnection \<Rightarrow> TunnelConnection" where
  "TunnelConnection_reset c =
     c\<lparr>tc_sequence_tracker := SequenceTracker_reset (tc_sequence_tracker c),
       tc_fsm := TunnelFsm_force_idle (tc_fsm c)\<rparr>"


section \<open>Behaviour of the waiter\<close>

text \<open>The events that leave the wait running: timeouts and messages for others.\<close>

fun ack_skipped :: "u8 \<Rightarrow> u8 \<Rightarrow> ack_event \<Rightarrow> bool" where
  "ack_skipped sequence channel_id (EvMessage ack _) \<longleftrightarrow>
     \<not> (am_channel_id ack = channel_id \<and> am_sequence ack = sequence)"
| "ack_skipped sequence channel_id EvClosed \<longleftrightarrow> False"
| "ack_skipped sequence channel_id EvTimeout \<longleftrightarrow> True"

definition timeouts :: "ack_event list \<Rightarrow> nat" where
  "timeouts evs = length (filter (\<lambda>e. e = EvTimeout) evs)"

definition with_retransmissions :: "nat \<Rightarrow> AckWaiter \<Rightarrow> AckWaiter" where
  "with_retransmissions n w =
     w\<lparr>aw_stats := (aw_stats w)\<lparr>aw_retransmissions := aw_retransmissions (aw_stats w) + of_nat n\<rparr>\<rparr>"

lemma with_retransmissions_simps [simp]:
  "with_retransmissions 0 w = w"
  "with_retransmissions m (with_retransmissions n w) = with_retransmissions (n + m) w"
  "aw_max_retries (with_retransmissions n w) = aw_max_retries w"
  by (simp_all add: with_retransmissions_def ac_simps)

lemma ack_wait_timeout:
  "ack_wait w sq ch a (EvTimeout # evs) =
    (if a < unat (aw_max_retries w) then ack_wait (with_retransmissions 1 w) sq ch (a + 1) evs
     else Some (ack_exhausted w))"
  by (simp add: with_retransmissions_def)

declare ack_wait.simps(4) [simp del]

lemma timeouts_simps [simp]:
  "timeouts [] = 0" "timeouts (EvTimeout # evs) = Suc (timeouts evs)"
  "timeouts (EvMessage a l # evs) = timeouts evs" "timeouts (EvClosed # evs) = timeouts evs"
  by (simp_all add: timeouts_def)

lemma ack_wait_skip:
  "list_all (ack_skipped sq ch) pre \<Longrightarrow> a + timeouts pre \<le> unat (aw_max_retries w) \<Longrightarrow>
     ack_wait w sq ch a (pre @ evs) =
     ack_wait (with_retransmissions (timeouts pre) w) sq ch (a + timeouts pre) evs"
proof (induction pre arbitrary: a w)
  case Nil
  then show ?case by simp
next
  case (Cons e pre)
  then show ?case by (cases e) (auto simp: ack_wait_timeout)
qed

lemma ack_wait_ends:
  "unat (aw_max_retries w) < a + timeouts evs \<Longrightarrow> \<exists>r. ack_wait w sq ch a evs = Some r"
  if "a \<le> unat (aw_max_retries w)"
  using that
proof (induction evs arbitrary: a w)
  case Nil
  then show ?case by simp
next
  case (Cons e evs)
  then show ?case by (cases e) (simp_all add: ack_wait_timeout)
qed


section \<open>Event sequences of the state machine\<close>

datatype fsm_event =
    EvConnected | EvFrameSent u8 instant | EvRetry u8 u8 instant | EvAck u8 instant | EvAckSimple
  | EvConfirmation | EvDisconnected | EvLost u32 | EvError TunnelErrorReason | EvForceIdle

fun fsm_apply :: "fsm_event \<Rightarrow> TunnelFsm \<Rightarrow> TunnelFsm" where
  "fsm_apply EvConnected = TunnelFsm_on_connected"
| "fsm_apply (EvFrameSent q now) = TunnelFsm_on_frame_sent q now"
| "fsm_apply (EvRetry q n now) = TunnelFsm_on_retry q n now"
| "fsm_apply (EvAck q now) = TunnelFsm_on_ack_received q now"
| "fsm_apply EvAckSimple = TunnelFsm_on_ack_received_simple"
| "fsm_apply EvConfirmation = TunnelFsm_on_confirmation_received"
| "fsm_apply EvDisconnected = TunnelFsm_on_disconnected"
| "fsm_apply (EvLost n) = TunnelFsm_on_connection_lost n"
| "fsm_apply (EvError r) = TunnelFsm_on_error r"
| "fsm_apply EvForceIdle = TunnelFsm_force_idle"

text \<open>The transitions that the comments of the source document.\<close>

inductive fsm_documented :: "TunnelState \<Rightarrow> fsm_event \<Rightarrow> TunnelState \<Rightarrow> bool" where
  "fsm_documented TS_Connecting EvConnected TS_Idle"
| "fsm_documented TS_Idle (EvFrameSent q now) (TS_WaitingForAck q now 0)"
| "fsm_documented (TS_WaitingForAck p t m) (EvRetry q n now) (TS_WaitingForAck q now n)"
| "fsm_documented (TS_WaitingForAck p t m) (EvAck q now) (TS_WaitingForConfirmation q now)"
| "fsm_documented (TS_WaitingForAck p t m) EvAckSimple TS_Idle"
| "fsm_documented (TS_WaitingForConfirmation p t) EvConfirmation TS_Idle"
| "fsm_documented s EvDisconnected TS_Disconnected"
| "TunnelState_is_connected s \<Longrightarrow> fsm_documented s (EvLost n) (TS_Reconnecting n)"
| "fsm_documented s (EvError r) (TS_Error r)"
| "fsm_documented s EvForceIdle TS_Idle"

lemmas fsm_op_defs = fsm_set_def TunnelFsm_on_connected_def TunnelFsm_on_frame_sent_def
  TunnelFsm_on_retry_def TunnelFsm_on_ack_received_def TunnelFsm_on_ack_received_simple_def
  TunnelFsm_on_confirmation_received_def TunnelFsm_on_disconnected_def
  TunnelFsm_on_connection_lost_def TunnelFsm_on_error_def TunnelFsm_force_idle_def

lemma fsm_documented_refined: "fsm_documented (fsm_state f) e s' \<Longrightarrow> fsm_state (fsm_apply e f) = s'"
  by (erule fsm_documented.cases) (simp_all add: fsm_op_defs)

lemma fsm_apply_state: "fsm_state (fsm_apply e f) = fsm_state (fsm_apply e g)"
  by (cases e) (simp_all add: fsm_op_defs)

lemma fsm_apply_transitions: "fsm_transitions (fsm_apply e f) = fsm_transitions f + 1"
  by (cases e) (simp_all add: fsm_op_defs)

lemma fsm_fold_transitions:
  "fsm_transitions (fold fsm_apply evs f) = fsm_transitions f + of_nat (length evs)"
  by (induction evs arbitrary: f) (simp_all add: fsm_apply_transitions ac_simps)


section \<open>Properties\<close>





text \<open>
  Every documented transition of the tunnel state machine is what the operation does;
  the operations check no source state, so the state after any run of events is
  determined by the last event alone, and the counter counts every event.
\<close>

theorem fsm_operations:
  "(fsm_documented (fsm_state f) e s' \<longrightarrow> fsm_state (fsm_apply e f) = s') \<and>
   fsm_state (fold fsm_apply (evs @ [e]) f) = fsm_state (fsm_apply e TunnelFsm_new) \<and>
   fsm_transitions (fold fsm_apply evs f) = fsm_transitions f + of_nat (length evs)"
  using fsm_documented_refined [of f e s'] fsm_apply_state [of e _ TunnelFsm_new]
  by (simp add: fsm_fold_transitions)

theorem fsm_operations_witness:
  "fsm_documented (fsm_state TunnelFsm_connecting) EvConnected TS_Idle \<and>
   fsm_state (fsm_apply EvConnected TunnelFsm_connecting) = TS_Idle \<and>
   fsm_state (fold fsm_apply [EvDisconnected, EvAck 9 0] TunnelFsm_connecting) =
     TS_WaitingForConfirmation 9 0"
proof -
  have "fsm_documented (fsm_state TunnelFsm_connecting) EvConnected TS_Idle"
    by (simp add: TunnelFsm_connecting_def fsm_documented.intros)
  then show ?thesis
    using fsm_operations [of TunnelFsm_connecting EvConnected TS_Idle "[]"]
      fsm_operations [of TunnelFsm_connecting "EvAck 9 0" TS_Idle "[EvDisconnected]"]
    by (simp add: fsm_op_defs)
qed

end
