(* ===== verification/Knx_Queue.thy ===== *)
theory Knx_Queue
  imports Knx_Tunnel "HOL-Library.Multiset"
begin

text \<open>
  The priority queue of the flow control, \<^verbatim>\<open>mabi-knx/src/filter/queue.rs\<close>, with the frame envelope and
  the filter result of \<^verbatim>\<open>filter/chain.rs\<close> that all filters share. A channel holds one FIFO queue for
  each of the three priorities; the array of queues indexed by \<^verbatim>\<open>priority as usize\<close> is a function of the
  priority. Each operation runs under the lock of the channel table, so it is one atomic step.
  Statistics counters and log output are left out: no operation reads them.

  The lemmas show that a channel under backpressure is a stable priority queue, that the total
  limit is an invariant, and that the depth limit of a single queue is not.
\<close>

section \<open>Envelopes and results\<close>

datatype QueuePriority = QP_Low | QP_Normal | QP_High

fun QueuePriority_classify :: "MessageCode \<Rightarrow> QueuePriority" where
  "QueuePriority_classify MC_LDataCon = QP_High"
| "QueuePriority_classify MC_LDataReq = QP_High"
| "QueuePriority_classify MC_MResetInd = QP_High"
| "QueuePriority_classify MC_MResetReq = QP_High"
| "QueuePriority_classify MC_LDataInd = QP_Normal"
| "QueuePriority_classify MC_MPropReadReq = QP_Normal"
| "QueuePriority_classify MC_MPropWriteReq = QP_Normal"
| "QueuePriority_classify MC_MPropReadCon = QP_Normal"
| "QueuePriority_classify MC_MPropWriteCon = QP_Normal"
| "QueuePriority_classify MC_LBusmonInd = QP_Low"
| "QueuePriority_classify MC_LRawReq = QP_Low"
| "QueuePriority_classify MC_LRawCon = QP_Low"
| "QueuePriority_classify MC_LRawInd = QP_Low"

fun QueuePriority_fmt :: "QueuePriority \<Rightarrow> string" where
  "QueuePriority_fmt QP_Low = ''Low''"
| "QueuePriority_fmt QP_Normal = ''Normal''"
| "QueuePriority_fmt QP_High = ''High''"

record FrameEnvelope =
  fe_cemi :: CemiFrame
  fe_channel_id :: u8
  fe_target_addr :: SocketAddrV4
  fe_priority :: QueuePriority
  fe_enqueued_at :: instant
  fe_accumulated_delay :: duration
  fe_retry_count :: u8
  fe_requires_ack :: bool
  fe_frame_size_bytes :: usize

definition FrameEnvelope_new :: "buf_api \<Rightarrow> CemiFrame \<Rightarrow> u8 \<Rightarrow> SocketAddrV4 \<Rightarrow> instant \<Rightarrow> FrameEnvelope" where
  "FrameEnvelope_new B cemi channel_id target_addr now =
     \<lparr>fe_cemi = cemi, fe_channel_id = channel_id, fe_target_addr = target_addr, fe_priority = QP_Normal,
      fe_enqueued_at = now, fe_accumulated_delay = 0, fe_retry_count = 0, fe_requires_ack = True,
      fe_frame_size_bytes = length (CemiFrame_encode B cemi)\<rparr>"

datatype FilterResult =
    FR_Pass (fr_delay: duration)
  | FR_Queued
  | FR_Dropped string
  | FR_Error string

fun FilterResult_should_continue :: "FilterResult \<Rightarrow> bool" where
  "FilterResult_should_continue (FR_Pass _) = True"
| "FilterResult_should_continue _ = False"


section \<open>The queues of a channel\<close>

record ChannelQueueState =
  cq_waiting_for_ack :: bool
  cq_queues :: "QueuePriority \<Rightarrow> FrameEnvelope list"

definition ChannelQueueState_new :: ChannelQueueState where
  "ChannelQueueState_new = \<lparr>cq_waiting_for_ack = False, cq_queues = (\<lambda>_. [])\<rparr>"

definition ChannelQueueState_total_queued :: "ChannelQueueState \<Rightarrow> usize" where
  "ChannelQueueState_total_queued s = sum_list (map (\<lambda>p. length (cq_queues s p)) [QP_Low, QP_Normal, QP_High])"

text \<open>The inner loop of \<^verbatim>\<open>drain\<close> pops while the result has room, the outer one visits the priorities
  from high to low and stops when the result is full.\<close>

fun pop_loop :: "usize \<Rightarrow> FrameEnvelope list \<Rightarrow> FrameEnvelope list \<Rightarrow> FrameEnvelope list \<times> FrameEnvelope list" where
  "pop_loop max_count result [] = (result, [])"
| "pop_loop max_count result (envelope # queue) =
    (if length result < max_count then pop_loop max_count (result @ [envelope]) queue
     else (result, envelope # queue))"

fun drain_priorities :: "usize \<Rightarrow> QueuePriority list \<Rightarrow> FrameEnvelope list \<Rightarrow> ChannelQueueState \<Rightarrow>
    FrameEnvelope list \<times> ChannelQueueState" where
  "drain_priorities max_count [] result s = (result, s)"
| "drain_priorities max_count (priority # rest) result s =
    (let (result, queue) = pop_loop max_count result (cq_queues s priority);
         s = s\<lparr>cq_queues := (cq_queues s)(priority := queue)\<rparr>
     in if max_count \<le> length result then (result, s) else drain_priorities max_count rest result s)"

definition ChannelQueueState_drain :: "usize \<Rightarrow> ChannelQueueState \<Rightarrow> FrameEnvelope list \<times> ChannelQueueState" where
  "ChannelQueueState_drain max_count s = drain_priorities max_count [QP_High, QP_Normal, QP_Low] [] s"

text \<open>The loop over \<^verbatim>\<open>Low\<close> and \<^verbatim>\<open>Normal\<close> that drops the oldest frame of the first queue that has one.\<close>

definition ChannelQueueState_evict_lowest :: "ChannelQueueState \<Rightarrow> QueuePriority option \<times> ChannelQueueState" where
  "ChannelQueueState_evict_lowest s =
    (case cq_queues s QP_Low of
       _ # queue \<Rightarrow> (Some QP_Low, s\<lparr>cq_queues := (cq_queues s)(QP_Low := queue)\<rparr>)
     | [] \<Rightarrow>
        (case cq_queues s QP_Normal of
           _ # queue \<Rightarrow> (Some QP_Normal, s\<lparr>cq_queues := (cq_queues s)(QP_Normal := queue)\<rparr>)
         | [] \<Rightarrow> (None, s)))"


section \<open>The filter\<close>

record QueueFilterConfig =
  qc_enabled :: bool
  qc_max_queue_depth :: usize
  qc_backpressure_enabled :: bool
  qc_priority_eviction_enabled :: bool
  qc_max_total_frames :: usize

record QueueFilter =
  qf_config :: QueueFilterConfig
  qf_channels :: "u8 \<rightharpoonup> ChannelQueueState"

definition QueueFilter_new :: "QueueFilterConfig \<Rightarrow> QueueFilter" where
  "QueueFilter_new config = \<lparr>qf_config = config, qf_channels = Map.empty\<rparr>"

text \<open>The number of frames queued on all channels, a sum over the values of the channel table.\<close>

definition QueueFilter_total_pending :: "QueueFilter \<Rightarrow> usize" where
  "QueueFilter_total_pending f =
     (\<Sum>ch\<in>UNIV. case qf_channels f ch of None \<Rightarrow> 0 | Some cs \<Rightarrow> ChannelQueueState_total_queued cs)"

text \<open>\<^verbatim>\<open>entry(id).or_insert_with(ChannelQueueState::new)\<close>\<close>

definition channel_or_new :: "QueueFilter \<Rightarrow> u8 \<Rightarrow> ChannelQueueState" where
  "channel_or_new f channel_id = (case qf_channels f channel_id of Some cs \<Rightarrow> cs | None \<Rightarrow> ChannelQueueState_new)"

definition QueueFilter_enqueue_frame :: "QueueFilterConfig \<Rightarrow> ChannelQueueState \<Rightarrow> FrameEnvelope \<Rightarrow> usize \<Rightarrow>
    FilterResult \<times> ChannelQueueState" where
  "QueueFilter_enqueue_frame config s envelope total_pending =
    (let priority = fe_priority envelope;
         queue_full = qc_max_queue_depth config \<le> length (cq_queues s priority);
         (evicted, s') = (if queue_full \<and> qc_priority_eviction_enabled config
                          then ChannelQueueState_evict_lowest s else (None, s))
     in if queue_full \<and> evicted = None then
          (FR_Dropped (''QueueFilter: '' @ QueuePriority_fmt priority @ '' queue full ('' @
             show_nat (qc_max_queue_depth config) @ '' frames)'' @
             (if qc_priority_eviction_enabled config then '', no lower priority to evict'' else '''')), s')
        else if 0 < qc_max_total_frames config \<and> qc_max_total_frames config \<le> total_pending then
          (FR_Dropped (''QueueFilter: total frame limit reached ('' @ show_nat total_pending @ '' >= '' @
             show_nat (qc_max_total_frames config) @ '')''), s')
        else (FR_Queued, s'\<lparr>cq_queues := (cq_queues s')(priority := cq_queues s' priority @ [envelope])\<rparr>))"

definition QueueFilter_process_send :: "QueueFilter \<Rightarrow> FrameEnvelope \<Rightarrow> FilterResult \<times> FrameEnvelope \<times> QueueFilter" where
  "QueueFilter_process_send f envelope =
    (if \<not> qc_enabled (qf_config f) then (FR_Pass 0, envelope, f)
     else let envelope = envelope\<lparr>fe_priority := QueuePriority_classify (cf_message_code (fe_cemi envelope))\<rparr> in
       if qc_backpressure_enabled (qf_config f) then
         let total_pending = QueueFilter_total_pending f;
             channel_state = channel_or_new f (fe_channel_id envelope);
             f = f\<lparr>qf_channels := (qf_channels f)(fe_channel_id envelope \<mapsto> channel_state)\<rparr>
         in if cq_waiting_for_ack channel_state then
              let (result, channel_state) = QueueFilter_enqueue_frame (qf_config f) channel_state envelope total_pending
              in (result, envelope, f\<lparr>qf_channels := (qf_channels f)(fe_channel_id envelope \<mapsto> channel_state)\<rparr>)
            else (FR_Pass 0, envelope, f)
       else (FR_Pass 0, envelope, f))"

definition QueueFilter_set_waiting_for_ack :: "u8 \<Rightarrow> bool \<Rightarrow> QueueFilter \<Rightarrow> QueueFilter" where
  "QueueFilter_set_waiting_for_ack channel_id waiting f =
    (if \<not> qc_enabled (qf_config f) \<or> \<not> qc_backpressure_enabled (qf_config f) then f
     else f\<lparr>qf_channels := (qf_channels f)(channel_id \<mapsto> (channel_or_new f channel_id)\<lparr>cq_waiting_for_ack := waiting\<rparr>)\<rparr>)"

definition QueueFilter_on_ack_received :: "u8 \<Rightarrow> QueueFilter \<Rightarrow> QueueFilter" where
  "QueueFilter_on_ack_received channel_id f =
    (if \<not> qc_enabled (qf_config f) then f
     else case qf_channels f channel_id of
         Some cs \<Rightarrow> f\<lparr>qf_channels := (qf_channels f)(channel_id \<mapsto> cs\<lparr>cq_waiting_for_ack := False\<rparr>)\<rparr>
       | None \<Rightarrow> f)"

definition QueueFilter_drain :: "u8 \<Rightarrow> usize \<Rightarrow> QueueFilter \<Rightarrow> FrameEnvelope list \<times> QueueFilter" where
  "QueueFilter_drain channel_id max_count f =
    (if \<not> qc_enabled (qf_config f) then ([], f)
     else case qf_channels f channel_id of
         Some cs \<Rightarrow> (let (drained, cs) = ChannelQueueState_drain max_count cs
                     in (drained, f\<lparr>qf_channels := (qf_channels f)(channel_id \<mapsto> cs)\<rparr>))
       | None \<Rightarrow> ([], f))"

definition QueueFilter_clear_channel :: "u8 \<Rightarrow> QueueFilter \<Rightarrow> QueueFilter" where
  "QueueFilter_clear_channel channel_id f = f\<lparr>qf_channels := (qf_channels f)(channel_id := None)\<rparr>"


section \<open>A channel is a stable priority queue\<close>

text \<open>The specification of a channel is the list of its frames in the order of arrival.\<close>

definition holds :: "ChannelQueueState \<Rightarrow> FrameEnvelope list \<Rightarrow> bool" where
  "holds s fs \<longleftrightarrow> (\<forall>p. cq_queues s p = filter (\<lambda>e. fe_priority e = p) fs)"

fun urgency :: "QueuePriority \<Rightarrow> nat" where
  "urgency QP_High = 0"
| "urgency QP_Normal = 1"
| "urgency QP_Low = 2"

lemma urgency_inject [simp]: "urgency p = urgency q \<longleftrightarrow> p = q"
  by (cases p; cases q) auto

lemma all_priorities: "(\<forall>p. P p) \<longleftrightarrow> P QP_Low \<and> P QP_Normal \<and> P QP_High"
  by (metis QueuePriority.exhaust)

definition by_urgency :: "FrameEnvelope list \<Rightarrow> FrameEnvelope list" where
  "by_urgency fs = sort_key (\<lambda>e. urgency (fe_priority e)) fs"

lemma sorted_one_priority:
  "sorted (map (\<lambda>e. urgency (fe_priority e)) (filter (\<lambda>e. fe_priority e = p) fs))"
  by (induction fs) auto

lemma by_urgency_split:
  "by_urgency fs = filter (\<lambda>e. fe_priority e = QP_High) fs @ filter (\<lambda>e. fe_priority e = QP_Normal) fs @
     filter (\<lambda>e. fe_priority e = QP_Low) fs" (is "_ = ?ys")
  unfolding by_urgency_def
proof (rule properties_for_sort_key)
  have "mset ?ys = filter_mset (\<lambda>e. fe_priority e = QP_High) (mset fs) +
      filter_mset (\<lambda>e. fe_priority e = QP_Normal) (mset fs) + filter_mset (\<lambda>e. fe_priority e = QP_Low) (mset fs)"
    by simp
  also have "\<dots> = mset fs"
    by (rule multiset_eqI) (use QueuePriority.exhaust in auto)
  finally show "mset ?ys = mset fs" .
  show "filter (\<lambda>x. urgency (fe_priority k) = urgency (fe_priority x)) ?ys =
      filter (\<lambda>x. urgency (fe_priority k) = urgency (fe_priority x)) fs" for k
    unfolding urgency_inject by (cases "fe_priority k") (auto simp: filter_empty_conv intro!: filter_cong)
  show "sorted (map (\<lambda>e. urgency (fe_priority e)) ?ys)"
    by (auto simp: sorted_append sorted_one_priority)
qed

lemma length_by_urgency [simp]: "length (by_urgency fs) = length fs"
  by (simp add: by_urgency_def)

lemma pop_loop_eq:
  "length result \<le> n \<Longrightarrow> pop_loop n result q = (result @ take (n - length result) q, drop (n - length result) q)"
proof (induction n result q rule: pop_loop.induct)
  case (2 n result e q)
  then show ?case by (auto simp: take_Cons' drop_Cons')
qed simp

lemma filter_drop_priority:
  "filter (\<lambda>e. fe_priority e = q) (drop n (filter (\<lambda>e. fe_priority e = p) fs)) =
   (if q = p then drop n (filter (\<lambda>e. fe_priority e = p) fs) else [])"
  by (auto simp: filter_empty_conv dest: in_set_dropD intro!: filter_True)

lemma drain_eq:
  assumes "holds s fs"
  shows "fst (ChannelQueueState_drain n s) = take n (by_urgency fs)"
    and "holds (snd (ChannelQueueState_drain n s)) (drop n (by_urgency fs))"
    and "cq_waiting_for_ack (snd (ChannelQueueState_drain n s)) = cq_waiting_for_ack s"
  using assms unfolding holds_def all_priorities
  by (auto simp: ChannelQueueState_drain_def pop_loop_eq by_urgency_split Let_def filter_drop_priority)

lemma holds_new [simp]: "holds ChannelQueueState_new []"
  by (simp add: holds_def ChannelQueueState_new_def)

lemma total_queued_holds: "holds s fs \<Longrightarrow> ChannelQueueState_total_queued s = length fs"
  using arg_cong [OF by_urgency_split [of fs], of length]
  by (simp add: ChannelQueueState_total_queued_def holds_def)

lemma enqueue_Queued:
  assumes "holds s fs" "length (cq_queues s (fe_priority e)) < qc_max_queue_depth c"
    and "qc_max_total_frames c = 0 \<or> pending < qc_max_total_frames c"
  shows "\<exists>s'. QueueFilter_enqueue_frame c s e pending = (FR_Queued, s') \<and> holds s' (fs @ [e]) \<and>
    cq_waiting_for_ack s' = cq_waiting_for_ack s"
  using assms by (auto simp: QueueFilter_enqueue_frame_def holds_def Let_def)


section \<open>The number of queued frames\<close>

abbreviation queued_at :: "QueueFilter \<Rightarrow> u8 \<Rightarrow> nat" where
  "queued_at f ch \<equiv> (case qf_channels f ch of None \<Rightarrow> 0 | Some cs \<Rightarrow> ChannelQueueState_total_queued cs)"

definition set_channel :: "QueueFilter \<Rightarrow> u8 \<Rightarrow> ChannelQueueState option \<Rightarrow> QueueFilter" where
  "set_channel f ch v = f\<lparr>qf_channels := (qf_channels f)(ch := v)\<rparr>"

lemma set_channel_simps [simp]:
  "qf_config (set_channel f ch v) = qf_config f"
  "qf_channels (set_channel f ch v) = (qf_channels f)(ch := v)"
  "set_channel (set_channel f ch v) ch w = set_channel f ch w"
  "qf_channels f ch = v \<Longrightarrow> set_channel f ch v = f"
  by (simp_all add: set_channel_def fun_upd_idem)

lemma total_pending_split:
  "QueueFilter_total_pending f = queued_at f ch + (\<Sum>c\<in>UNIV - {ch}. queued_at f c)"
  unfolding QueueFilter_total_pending_def by (rule sum.remove) simp_all

lemma total_pending_upd:
  "QueueFilter_total_pending (set_channel f ch v) + queued_at f ch =
   QueueFilter_total_pending f + (case v of None \<Rightarrow> 0 | Some cs \<Rightarrow> ChannelQueueState_total_queued cs)"
  by (simp add: total_pending_split [of _ ch] cong: sum.cong_simp)

lemma total_queued_new [simp]: "ChannelQueueState_total_queued ChannelQueueState_new = 0"
  by (simp add: ChannelQueueState_total_queued_def ChannelQueueState_new_def)

lemma total_queued_waiting [simp]:
  "ChannelQueueState_total_queued (s\<lparr>cq_waiting_for_ack := w\<rparr>) = ChannelQueueState_total_queued s"
  by (simp add: ChannelQueueState_total_queued_def)

lemma queued_or_new: "ChannelQueueState_total_queued (channel_or_new f ch) = queued_at f ch"
  by (simp add: channel_or_new_def split: option.splits)

lemma evict_total:
  "ChannelQueueState_evict_lowest s = (r, s') \<Longrightarrow> ChannelQueueState_total_queued s' \<le> ChannelQueueState_total_queued s"
  by (auto simp: ChannelQueueState_evict_lowest_def ChannelQueueState_total_queued_def split: list.splits)

lemma total_queued_append:
  "ChannelQueueState_total_queued (s\<lparr>cq_queues := (cq_queues s)(p := cq_queues s p @ [e])\<rparr>) =
   Suc (ChannelQueueState_total_queued s)"
  by (cases p) (simp_all add: ChannelQueueState_total_queued_def)

lemma enqueue_total:
  assumes "QueueFilter_enqueue_frame c s e pending = (r, s')"
  shows "ChannelQueueState_total_queued s' \<le> ChannelQueueState_total_queued s \<or>
    (ChannelQueueState_total_queued s' \<le> Suc (ChannelQueueState_total_queued s) \<and>
     (0 < qc_max_total_frames c \<longrightarrow> pending < qc_max_total_frames c))"
  using assms evict_total
  by (fastforce simp: QueueFilter_enqueue_frame_def total_queued_append Let_def split: prod.splits if_splits)

lemma drain_total:
  "ChannelQueueState_total_queued (snd (ChannelQueueState_drain n s)) \<le> ChannelQueueState_total_queued s"
  by (auto simp: ChannelQueueState_drain_def pop_loop_eq ChannelQueueState_total_queued_def Let_def)

text \<open>Sending a list of frames, one after the other, and the frames as the filter keeps them.\<close>

fun sends :: "QueueFilter \<Rightarrow> FrameEnvelope list \<Rightarrow> FilterResult list \<times> QueueFilter" where
  "sends f [] = ([], f)"
| "sends f (e # es) =
    (let (r, _, f) = QueueFilter_process_send f e; (rs, f) = sends f es in (r # rs, f))"

lemma sends_append:
  "sends f (xs @ ys) = (let (rs, f) = sends f xs; (rs', f) = sends f ys in (rs @ rs', f))"
  by (induction xs arbitrary: f) (simp_all add: Let_def split: prod.splits)

abbreviation classified :: "FrameEnvelope \<Rightarrow> FrameEnvelope" where
  "classified e \<equiv> e\<lparr>fe_priority := QueuePriority_classify (cf_message_code (fe_cemi e))\<rparr>"

definition holding :: "QueueFilter \<Rightarrow> bool" where
  "holding f \<longleftrightarrow> qc_enabled (qf_config f) \<and> qc_backpressure_enabled (qf_config f)"

lemma holding_upd [simp]: "holding (set_channel f ch v) = holding f"
  by (simp add: holding_def)

lemma process_send_waiting:
  assumes "holding f" "qf_channels f (fe_channel_id e) = Some cs" "cq_waiting_for_ack cs"
    and "QueueFilter_enqueue_frame (qf_config f) cs (classified e) (QueueFilter_total_pending f) = (r, cs')"
  shows "QueueFilter_process_send f e = (r, classified e, set_channel f (fe_channel_id e) (Some cs'))"
  using assms by (simp add: QueueFilter_process_send_def holding_def channel_or_new_def Let_def set_channel_def)

lemma sends_queued:
  assumes "holding f" "qf_channels f ch = Some cs" "cq_waiting_for_ack cs" "holds cs fs"
    and "\<forall>e\<in>set es. fe_channel_id e = ch" "length fs + length es \<le> qc_max_queue_depth (qf_config f)"
    and "qc_max_total_frames (qf_config f) = 0 \<or>
      QueueFilter_total_pending f + length es \<le> qc_max_total_frames (qf_config f)"
  shows "\<exists>cs'. sends f es = (replicate (length es) FR_Queued, set_channel f ch (Some cs')) \<and>
    holds cs' (fs @ map classified es) \<and> cq_waiting_for_ack cs'"
  using assms
proof (induction es arbitrary: f cs fs)
  case Nil
  then show ?case by (intro exI [of _ cs]) simp
next
  case (Cons e es)
  let ?e = "classified e"
  have "length (cq_queues cs (fe_priority ?e)) < qc_max_queue_depth (qf_config f)"
    using Cons.prems(6) le_less_trans [OF length_filter_le [of _ fs]] Cons.prems(4) by (fastforce simp: holds_def)
  then obtain cs1 where enq: "QueueFilter_enqueue_frame (qf_config f) cs ?e (QueueFilter_total_pending f) = (FR_Queued, cs1)"
    "holds cs1 (fs @ [?e])" "cq_waiting_for_ack cs1"
    using enqueue_Queued [OF Cons.prems(4), of ?e "qf_config f" "QueueFilter_total_pending f"] Cons.prems(3,7) by auto
  let ?f = "set_channel f ch (Some cs1)"
  have step: "QueueFilter_process_send f e = (FR_Queued, ?e, ?f)"
    using process_send_waiting [OF Cons.prems(1) _ Cons.prems(3) enq(1)] Cons.prems(2,5) by simp
  have "QueueFilter_total_pending ?f = Suc (QueueFilter_total_pending f)"
    using total_pending_upd [of f ch "Some cs1"] total_queued_holds [OF enq(2)] total_queued_holds [OF Cons.prems(4)]
      Cons.prems(2) by simp
  then obtain cs' where "sends ?f es = (replicate (length es) FR_Queued, set_channel f ch (Some cs'))"
    "holds cs' ((fs @ [?e]) @ map classified es)" "cq_waiting_for_ack cs'"
    using Cons.IH [of ?f cs1 "fs @ [?e]"] Cons.prems enq by auto
  then show ?case by (auto simp: step intro!: exI [of _ cs'])
qed

text \<open>The reachable states of the filter.\<close>

inductive queue_step :: "QueueFilter \<Rightarrow> QueueFilter \<Rightarrow> bool" where
  step_send: "queue_step f (snd (snd (QueueFilter_process_send f e)))"
| step_waiting: "queue_step f (QueueFilter_set_waiting_for_ack ch w f)"
| step_ack: "queue_step f (QueueFilter_on_ack_received ch f)"
| step_drain: "queue_step f (snd (QueueFilter_drain ch n f))"
| step_clear: "queue_step f (QueueFilter_clear_channel ch f)"

lemma queue_step_config: "queue_step f f' \<Longrightarrow> qf_config f' = qf_config f"
  by (induction rule: queue_step.induct)
    (auto simp: QueueFilter_process_send_def QueueFilter_set_waiting_for_ack_def QueueFilter_on_ack_received_def
      QueueFilter_drain_def QueueFilter_clear_channel_def Let_def split: prod.splits option.splits)

lemma total_pending_upd_le:
  assumes "(case v of None \<Rightarrow> 0 | Some cs \<Rightarrow> ChannelQueueState_total_queued cs) \<le> queued_at f ch"
  shows "QueueFilter_total_pending (set_channel f ch v) \<le> QueueFilter_total_pending f"
  using total_pending_upd [of f ch v] assms by linarith

lemma process_send_total:
  assumes "QueueFilter_process_send f e = (r, e', f')" "0 < qc_max_total_frames (qf_config f)"
    and "QueueFilter_total_pending f \<le> qc_max_total_frames (qf_config f)"
  shows "QueueFilter_total_pending f' \<le> qc_max_total_frames (qf_config f)"
proof (cases "holding f \<and> cq_waiting_for_ack (channel_or_new f (fe_channel_id e))")
  case True
  let ?cs = "channel_or_new f (fe_channel_id e)"
  obtain cs' where enq: "QueueFilter_enqueue_frame (qf_config f) ?cs (classified e) (QueueFilter_total_pending f) = (r, cs')"
    and f': "f' = set_channel f (fe_channel_id e) (Some cs')"
    using assms(1) True by (auto simp: QueueFilter_process_send_def set_channel_def [symmetric] holding_def Let_def split: prod.splits)
  show ?thesis using enqueue_total [OF enq] total_pending_upd [of f "fe_channel_id e" "Some cs'"] assms(2,3)
    by (auto simp: f' queued_or_new)
next
  case False
  have "QueueFilter_total_pending (set_channel f ch (Some (channel_or_new f ch))) = QueueFilter_total_pending f" for ch
    using total_pending_upd [of f ch "Some (channel_or_new f ch)"] by (simp add: queued_or_new)
  with False assms show ?thesis
    by (auto simp: QueueFilter_process_send_def set_channel_def [symmetric] holding_def Let_def split: if_splits)
qed

lemma queue_step_total:
  assumes "queue_step f f'" "0 < qc_max_total_frames (qf_config f)"
    and "QueueFilter_total_pending f \<le> qc_max_total_frames (qf_config f)"
  shows "QueueFilter_total_pending f' \<le> qc_max_total_frames (qf_config f)"
  using assms
proof (induction rule: queue_step.induct)
  case (step_send f e)
  then show ?case using process_send_total [of f e] by (metis prod.collapse)
next
  case (step_waiting f ch w)
  then show ?case using total_pending_upd [of f ch "Some ((channel_or_new f ch)\<lparr>cq_waiting_for_ack := w\<rparr>)"]
    by (simp add: QueueFilter_set_waiting_for_ack_def set_channel_def [symmetric] queued_or_new)
next
  case (step_ack f ch)
  then show ?case
    by (auto simp: QueueFilter_on_ack_received_def set_channel_def [symmetric] intro: order_trans [OF total_pending_upd_le] split: option.splits)
next
  case (step_drain f ch n)
  then show ?case
  proof (cases "qf_channels f ch")
    case (Some cs)
    then have "QueueFilter_total_pending (set_channel f ch (Some (snd (ChannelQueueState_drain n cs)))) \<le>
        QueueFilter_total_pending f"
      using drain_total by (intro total_pending_upd_le) simp
    with step_drain Some show ?thesis by (auto simp: QueueFilter_drain_def set_channel_def [symmetric] Let_def split: prod.splits)
  qed (auto simp: QueueFilter_drain_def)
next
  case (step_clear f ch)
  then show ?case by (auto simp: QueueFilter_clear_channel_def set_channel_def [symmetric] intro: order_trans [OF total_pending_upd_le])
qed


section \<open>Properties\<close>


definition sample_queue_config :: QueueFilterConfig where
  "sample_queue_config = \<lparr>qc_enabled = True, qc_max_queue_depth = 2, qc_backpressure_enabled = True,
     qc_priority_eviction_enabled = True, qc_max_total_frames = 0\<rparr>"

definition sample_queue :: QueueFilter where
  "sample_queue = QueueFilter_set_waiting_for_ack 1 True (QueueFilter_new sample_queue_config)"

abbreviation sample_envelope :: "CemiFrame \<Rightarrow> FrameEnvelope" where
  "sample_envelope cemi \<equiv> FrameEnvelope_new std_buf cemi 1 ((10, 0, 0, 2), 3671) 0"

lemma sample_queue_simps:
  "qf_config sample_queue = sample_queue_config"
  "qf_channels sample_queue = [1 \<mapsto> ChannelQueueState_new\<lparr>cq_waiting_for_ack := True\<rparr>]"
  "qc_enabled sample_queue_config" "qc_backpressure_enabled sample_queue_config"
  "qc_max_queue_depth sample_queue_config = 2" "qc_max_total_frames sample_queue_config = 0"
  by (simp_all add: sample_queue_def QueueFilter_set_waiting_for_ack_def QueueFilter_new_def sample_queue_config_def
      channel_or_new_def)


text \<open>
  The total limit is an invariant: in every state that sends, acknowledgements, drains and removals
  reach, the number of queued frames is at most \<^verbatim>\<open>max_total_frames\<close>, when that limit is set.
\<close>
theorem queue_total_bounded:
  assumes "queue_step\<^sup>*\<^sup>* (QueueFilter_new c) f" "0 < qc_max_total_frames c"
  shows "QueueFilter_total_pending f \<le> qc_max_total_frames c"
proof -
  have "qf_config f = c \<and> QueueFilter_total_pending f \<le> qc_max_total_frames c" using assms
  proof (induction rule: rtranclp_induct)
    case base
    show ?case by (simp add: QueueFilter_new_def QueueFilter_total_pending_def)
  next
    case (step f f')
    then show ?case using queue_step_config queue_step_total by fastforce
  qed
  then show ?thesis by simp
qed

theorem queue_total_bounded_witness:
  "QueueFilter_total_pending (snd (snd (QueueFilter_process_send
     (QueueFilter_set_waiting_for_ack 1 True (QueueFilter_new (sample_queue_config\<lparr>qc_max_total_frames := 1\<rparr>)))
     (sample_envelope CemiFrame_reset_ind)))) \<le> 1"
proof -
  let ?c = "sample_queue_config\<lparr>qc_max_total_frames := 1\<rparr>"
  have "queue_step\<^sup>*\<^sup>* (QueueFilter_new ?c) (snd (snd (QueueFilter_process_send
      (QueueFilter_set_waiting_for_ack 1 True (QueueFilter_new ?c)) (sample_envelope CemiFrame_reset_ind))))"
    by (blast intro: queue_step.intros rtranclp.intros)
  from queue_total_bounded [OF this] show ?thesis by simp
qed

text \<open>A waiting channel with low and high priority frames only.\<close>

definition channel_of :: "FrameEnvelope list \<Rightarrow> FrameEnvelope list \<Rightarrow> ChannelQueueState" where
  "channel_of lows highs = \<lparr>cq_waiting_for_ack = True,
     cq_queues = (\<lambda>p. case p of QP_Low \<Rightarrow> lows | QP_Normal \<Rightarrow> [] | QP_High \<Rightarrow> highs)\<rparr>"

lemma channel_of_waiting [simp]: "cq_waiting_for_ack (channel_of lows highs)"
  by (simp add: channel_of_def)

lemma enqueue_channel_of:
  assumes "qc_priority_eviction_enabled c" "qc_max_total_frames c = 0"
  shows "fe_priority hi = QP_High \<Longrightarrow> length highs < qc_max_queue_depth c \<Longrightarrow>
      QueueFilter_enqueue_frame c (channel_of lows highs) hi n = (FR_Queued, channel_of lows (highs @ [hi]))"
    and "fe_priority lo = QP_Low \<Longrightarrow> length lows < qc_max_queue_depth c \<Longrightarrow>
      QueueFilter_enqueue_frame c (channel_of lows highs) lo n = (FR_Queued, channel_of (lows @ [lo]) highs)"
    and "fe_priority hi = QP_High \<Longrightarrow> qc_max_queue_depth c \<le> length highs \<Longrightarrow>
      QueueFilter_enqueue_frame c (channel_of (lo # lows) highs) hi n = (FR_Queued, channel_of lows (highs @ [hi]))"
  using assms by (auto simp: QueueFilter_enqueue_frame_def ChannelQueueState_evict_lowest_def channel_of_def fun_eq_iff
      Let_def split: QueuePriority.splits)

lemma send_channel_of:
  assumes "holding f" "qf_channels f (fe_channel_id e) = Some (channel_of lows highs)"
    and "QueueFilter_enqueue_frame (qf_config f) (channel_of lows highs) (classified e) (QueueFilter_total_pending f) = (r, cs)"
  shows "sends f (e # es) = (let (rs, f') = sends (set_channel f (fe_channel_id e) (Some cs)) es in (r # rs, f'))"
  using process_send_waiting [OF assms(1,2) _ assms(3)] by simp

text \<open>
  The depth limit of a single queue is not enforced. Making room in a full queue removes a frame of
  lower priority, which does not make room in that queue: when low and high priority frames alternate on a
  channel that waits, every high priority frame evicts the low one before it and is queued, so the queue of
  high priority grows by one with every pair, past \<^verbatim>\<open>max_queue_depth\<close>, without a bound.
\<close>
theorem queue_depth_not_enforced:
  assumes "qc_enabled c" "qc_backpressure_enabled c" "qc_priority_eviction_enabled c" "qc_max_total_frames c = 0"
    and "0 < qc_max_queue_depth c"
    and "fe_channel_id lo = ch" "QueuePriority_classify (cf_message_code (fe_cemi lo)) = QP_Low"
    and "fe_channel_id hi = ch" "QueuePriority_classify (cf_message_code (fe_cemi hi)) = QP_High"
  shows "\<exists>cs. qf_channels (snd (sends (QueueFilter_set_waiting_for_ack ch True (QueueFilter_new c))
      (replicate (qc_max_queue_depth c) hi @ concat (replicate k [lo, hi])))) ch = Some cs \<and>
    length (cq_queues cs QP_High) = qc_max_queue_depth c + k"
proof -
  let ?f = "\<lambda>ls n. set_channel (QueueFilter_new c) ch (Some (channel_of ls (replicate n (classified hi))))"
  have cfg: "qf_config (QueueFilter_new c) = c" by (simp add: QueueFilter_new_def)
  have hold: "holding (?f ls n)" for ls n using assms(1,2) by (simp add: holding_def cfg)
  have start: "QueueFilter_set_waiting_for_ack ch True (QueueFilter_new c) = ?f [] 0"
    using assms(1,2) by (simp add: QueueFilter_set_waiting_for_ack_def QueueFilter_new_def channel_or_new_def set_channel_def
        ChannelQueueState_new_def channel_of_def fun_eq_iff split: QueuePriority.splits)
  note step = send_channel_of [OF hold] enqueue_channel_of [OF assms(3,4)] cfg assms(6-9)
  have hi: "sends (?f [] n) (hi # es) = (let (rs, f) = sends (?f [] (Suc n)) es in (FR_Queued # rs, f))"
    if "n < qc_max_queue_depth c" for n es
    using that by (subst send_channel_of [OF hold]) (auto simp: step replicate_append_same)
  have pair: "snd (sends (?f [] n) (lo # hi # es)) = snd (sends (?f [] (Suc n)) es)"
    if "qc_max_queue_depth c \<le> n" for n es
  proof -
    have "sends (?f [] n) (lo # hi # es) = (let (rs, f) = sends (?f [classified lo] n) (hi # es) in (FR_Queued # rs, f))"
      using assms(5) by (subst send_channel_of [OF hold]) (auto simp: step)
    moreover have "sends (?f [classified lo] n) (hi # es) = (let (rs, f) = sends (?f [] (Suc n)) es in (FR_Queued # rs, f))"
      using that by (subst send_channel_of [OF hold]) (auto simp: step replicate_append_same)
    ultimately show ?thesis by (simp add: case_prod_beta Let_def)
  qed
  have fill: "n + m \<le> qc_max_queue_depth c \<Longrightarrow> snd (sends (?f [] n) (replicate m hi @ es)) = snd (sends (?f [] (n + m)) es)" for n m es
  proof (induction m arbitrary: n)
    case (Suc m)
    then show ?case using Suc.IH [of "Suc n"] by (simp add: hi case_prod_beta Let_def del: sends.simps)
  qed simp
  have grow: "qc_max_queue_depth c \<le> n \<Longrightarrow> snd (sends (?f [] n) (concat (replicate k [lo, hi]))) = ?f [] (n + k)" for n
  proof (induction k arbitrary: n)
    case (Suc k)
    then show ?case using Suc.IH [of "Suc n"] by (simp add: pair del: sends.simps)
  qed simp
  show ?thesis using fill [of 0 "qc_max_queue_depth c"] grow by (simp add: start channel_of_def)
qed

theorem queue_depth_not_enforced_witness:
  "\<exists>cs. qf_channels (snd (sends sample_queue
      (replicate 2 (sample_envelope CemiFrame_reset_ind) @
       concat (replicate 7 [sample_envelope (CemiFrame_bus_monitor_indication [] 0 0), sample_envelope CemiFrame_reset_ind])))) 1 =
     Some cs \<and> length (cq_queues cs QP_High) = 9 \<and> qc_max_queue_depth sample_queue_config = 2"
  using queue_depth_not_enforced [of sample_queue_config "sample_envelope (CemiFrame_bus_monitor_indication [] 0 0)" 1
      "sample_envelope CemiFrame_reset_ind" 7]
  by (simp add: sample_queue_simps sample_queue_config_def FrameEnvelope_new_def CemiFrame_bus_monitor_indication_def
      CemiFrame_reset_ind_def sample_queue_def numeral_2_eq_2)

end
