(* ===== verification/Knx_Flow.thy ===== *)
theory Knx_Flow
  imports Knx_Queue
begin

text \<open>
  The rest of the flow control of the KNX server: the bus timing of \<^verbatim>\<open>mabi-knx/src/filter/pace.rs\<close>, the
  circuit breaker of \<^verbatim>\<open>filter/retry.rs\<close> and the chain of the three filters, \<^verbatim>\<open>filter/chain.rs\<close>. Points in
  time and durations are counted in microseconds, as in the tunnel connection; an operation that reads the
  clock takes the time as its argument \<open>now\<close>. Configuration values are natural numbers; the product of
  the byte time and the frame size is computed in 64 bits and panics when it overflows. The failure and
  success counters are compared with thresholds only and are not bounded.

  The lemmas show that frames leave the pace filter with the spacing of the bus, when the circuit opens,
  what it blocks and when it recovers, and what the order of the filters in the chain means.
\<close>

section \<open>Bus timing\<close>

definition KNX_TP1_BYTE_TIME_US :: nat where
  "KNX_TP1_BYTE_TIME_US = 1000000 * 11 div 9600"

datatype PaceState = PS_Down | PS_Busy instant | PS_Idle instant

record PaceFilterConfig =
  pc_enabled :: bool
  pc_margin_ms :: nat
  pc_byte_time_override_us :: nat
  pc_max_delay_ms :: nat
  pc_auto_transition :: bool

definition PaceFilterConfig_margin :: "PaceFilterConfig \<Rightarrow> duration" where
  "PaceFilterConfig_margin c = pc_margin_ms c * 1000"

definition PaceFilterConfig_max_delay :: "PaceFilterConfig \<Rightarrow> duration" where
  "PaceFilterConfig_max_delay c = pc_max_delay_ms c * 1000"

definition PaceFilterConfig_byte_time_us :: "PaceFilterConfig \<Rightarrow> nat" where
  "PaceFilterConfig_byte_time_us c =
    (if 0 < pc_byte_time_override_us c then pc_byte_time_override_us c else KNX_TP1_BYTE_TIME_US)"

definition PaceFilterConfig_frame_time :: "PaceFilterConfig \<Rightarrow> usize \<Rightarrow> ('e, duration) outcome" where
  "PaceFilterConfig_frame_time c frame_size_bytes =
    (let us = PaceFilterConfig_byte_time_us c * frame_size_bytes in if us < 2 ^ 64 then Ok us else Panic)"

record PaceFilter =
  pf_config :: PaceFilterConfig
  pf_state :: PaceState

definition PaceFilter_new :: "PaceFilterConfig \<Rightarrow> PaceFilter" where
  "PaceFilter_new config = \<lparr>pf_config = config, pf_state = PS_Down\<rparr>"

text \<open>Reading the state may move it one step along.\<close>

definition PaceFilter_state :: "instant \<Rightarrow> PaceFilter \<Rightarrow> PaceState \<times> PaceFilter" where
  "PaceFilter_state now f =
    (if \<not> pc_auto_transition (pf_config f) then (pf_state f, f)
     else case pf_state f of
         PS_Busy busy_until \<Rightarrow>
           if busy_until \<le> now then
             let s = PS_Idle (busy_until + PaceFilterConfig_margin (pf_config f)) in (s, f\<lparr>pf_state := s\<rparr>)
           else (pf_state f, f)
       | PS_Idle idle_until \<Rightarrow> if idle_until \<le> now then (PS_Down, f\<lparr>pf_state := PS_Down\<rparr>) else (pf_state f, f)
       | PS_Down \<Rightarrow> (pf_state f, f))"

text \<open>The transitions that \<^verbatim>\<open>process_send\<close> makes before it looks at the state.\<close>

fun pace_advance :: "PaceFilterConfig \<Rightarrow> instant \<Rightarrow> PaceState \<Rightarrow> PaceState" where
  "pace_advance c now (PS_Busy busy_until) =
    (if busy_until \<le> now then
       let idle_until = busy_until + PaceFilterConfig_margin c
       in if idle_until \<le> now then PS_Down else PS_Idle idle_until
     else PS_Busy busy_until)"
| "pace_advance c now (PS_Idle idle_until) = (if idle_until \<le> now then PS_Down else PS_Idle idle_until)"
| "pace_advance c now PS_Down = PS_Down"

definition pace_too_long :: "PaceFilterConfig \<Rightarrow> duration \<Rightarrow> bool" where
  "pace_too_long c delay \<longleftrightarrow> 0 < pc_max_delay_ms c \<and> PaceFilterConfig_max_delay c < delay"

definition PaceFilter_process_send :: "instant \<Rightarrow> PaceFilter \<Rightarrow> FrameEnvelope \<Rightarrow> ('e, FilterResult \<times> PaceFilter) outcome" where
  "PaceFilter_process_send now f envelope =
    (if \<not> pc_enabled (pf_config f) then Ok (FR_Pass 0, f)
     else obind (PaceFilterConfig_frame_time (pf_config f) (fe_frame_size_bytes envelope)) (\<lambda>frame_time.
       let c = pf_config f; margin = PaceFilterConfig_margin c; f = f\<lparr>pf_state := pace_advance c now (pf_state f)\<rparr> in
       case pf_state f of
         PS_Down \<Rightarrow> Ok (FR_Pass 0, f\<lparr>pf_state := PS_Busy (now + frame_time)\<rparr>)
       | PS_Busy busy_until \<Rightarrow>
           let delay = (busy_until - now) + margin in
           if pace_too_long c delay then
             Ok (FR_Dropped (''PaceFilter: delay '' @ show_nat (delay div 1000) @ ''ms exceeds max_delay_ms '' @
               show_nat (pc_max_delay_ms c)), f)
           else Ok (FR_Pass delay, f\<lparr>pf_state := PS_Busy (busy_until + margin + frame_time)\<rparr>)
       | PS_Idle idle_until \<Rightarrow>
           let delay = idle_until - now in
           if pace_too_long c delay then
             Ok (FR_Dropped (''PaceFilter: idle delay '' @ show_nat (delay div 1000) @ ''ms exceeds max_delay_ms '' @
               show_nat (pc_max_delay_ms c)), f)
           else Ok (FR_Pass delay, f\<lparr>pf_state := PS_Busy (idle_until + frame_time)\<rparr>)))"

definition PaceFilter_on_frame_completed :: "instant \<Rightarrow> PaceFilter \<Rightarrow> PaceFilter" where
  "PaceFilter_on_frame_completed now f =
    (if \<not> pc_enabled (pf_config f) then f
     else case pf_state f of
         PS_Busy busy_until \<Rightarrow>
           if busy_until \<le> now then f\<lparr>pf_state := PS_Idle (now + PaceFilterConfig_margin (pf_config f))\<rparr> else f
       | _ \<Rightarrow> f)"

definition PaceFilter_reset :: "PaceFilter \<Rightarrow> PaceFilter" where
  "PaceFilter_reset f = f\<lparr>pf_state := PS_Down\<rparr>"


section \<open>The circuit breaker\<close>

datatype CircuitBreakerState = CB_Closed | CB_Open instant | CB_HalfOpen

fun CircuitBreakerState_allows_traffic :: "CircuitBreakerState \<Rightarrow> bool" where
  "CircuitBreakerState_allows_traffic (CB_Open _) = False"
| "CircuitBreakerState_allows_traffic _ = True"

record RetryFilterConfig =
  rc_enabled :: bool
  rc_max_retries :: u8
  rc_retry_delay_ms :: nat
  rc_exponential_backoff :: bool
  rc_max_retry_delay_ms :: nat
  rc_failure_threshold :: nat
  rc_recovery_timeout_ms :: nat
  rc_success_threshold :: nat

definition RetryFilterConfig_retry_delay :: "RetryFilterConfig \<Rightarrow> u8 \<Rightarrow> duration" where
  "RetryFilterConfig_retry_delay c attempt =
    (let base = rc_retry_delay_ms c;
         delay = (if rc_exponential_backoff c then min (base * 2 ^ min (unat attempt) 10) (2 ^ 64 - 1) else base)
     in min delay (rc_max_retry_delay_ms c) * 1000)"

definition RetryFilterConfig_recovery_timeout :: "RetryFilterConfig \<Rightarrow> duration" where
  "RetryFilterConfig_recovery_timeout c = rc_recovery_timeout_ms c * 1000"

record RetryFilter =
  rf_config :: RetryFilterConfig
  rf_circuit_state :: CircuitBreakerState
  rf_failure_count :: nat
  rf_success_count :: nat

definition RetryFilter_new :: "RetryFilterConfig \<Rightarrow> RetryFilter" where
  "RetryFilter_new config =
     \<lparr>rf_config = config, rf_circuit_state = CB_Closed, rf_failure_count = 0, rf_success_count = 0\<rparr>"

definition RetryFilter_circuit_state :: "instant \<Rightarrow> RetryFilter \<Rightarrow> CircuitBreakerState \<times> RetryFilter" where
  "RetryFilter_circuit_state now f =
    (case rf_circuit_state f of
       CB_Open opened_at \<Rightarrow>
         if RetryFilterConfig_recovery_timeout (rf_config f) \<le> now - opened_at then
           (CB_HalfOpen, f\<lparr>rf_circuit_state := CB_HalfOpen, rf_success_count := 0\<rparr>)
         else (rf_circuit_state f, f)
     | _ \<Rightarrow> (rf_circuit_state f, f))"

definition RetryFilter_process_send :: "instant \<Rightarrow> RetryFilter \<Rightarrow> FrameEnvelope \<Rightarrow> FilterResult \<times> RetryFilter" where
  "RetryFilter_process_send now f envelope =
    (if \<not> rc_enabled (rf_config f) then (FR_Pass 0, f)
     else let (state, f) = RetryFilter_circuit_state now f in
       case state of
         CB_Closed \<Rightarrow>
           (FR_Pass (if 0 < fe_retry_count envelope
                     then RetryFilterConfig_retry_delay (rf_config f) (fe_retry_count envelope - 1) else 0), f)
       | CB_Open _ \<Rightarrow>
           (FR_Dropped (''CircuitBreaker: circuit is Open (failures >= '' @
              show_nat (rc_failure_threshold (rf_config f)) @ '')''), f)
       | CB_HalfOpen \<Rightarrow> (FR_Pass 0, f))"

definition RetryFilter_on_success :: "RetryFilter \<Rightarrow> RetryFilter" where
  "RetryFilter_on_success f =
    (if \<not> rc_enabled (rf_config f) then f
     else case rf_circuit_state f of
         CB_Closed \<Rightarrow> f\<lparr>rf_failure_count := 0\<rparr>
       | CB_HalfOpen \<Rightarrow>
           let sc = rf_success_count f + 1 in
           if rc_success_threshold (rf_config f) \<le> sc
           then f\<lparr>rf_circuit_state := CB_Closed, rf_failure_count := 0, rf_success_count := 0\<rparr>
           else f\<lparr>rf_success_count := sc\<rparr>
       | CB_Open _ \<Rightarrow> f)"

definition RetryFilter_on_failure :: "instant \<Rightarrow> RetryFilter \<Rightarrow> RetryFilter" where
  "RetryFilter_on_failure now f =
    (if \<not> rc_enabled (rf_config f) then f
     else case rf_circuit_state f of
         CB_Closed \<Rightarrow>
           let fc = rf_failure_count f + 1 in
           if rc_failure_threshold (rf_config f) \<le> fc
           then f\<lparr>rf_failure_count := fc, rf_circuit_state := CB_Open now\<rparr>
           else f\<lparr>rf_failure_count := fc\<rparr>
       | CB_HalfOpen \<Rightarrow> f\<lparr>rf_circuit_state := CB_Open now, rf_success_count := 0\<rparr>
       | CB_Open _ \<Rightarrow> f\<lparr>rf_failure_count := rf_failure_count f + 1\<rparr>)"

definition RetryFilter_can_retry :: "instant \<Rightarrow> RetryFilter \<Rightarrow> FrameEnvelope \<Rightarrow> bool \<times> RetryFilter" where
  "RetryFilter_can_retry now f envelope =
    (if \<not> rc_enabled (rf_config f) then (False, f)
     else if fe_retry_count envelope < rc_max_retries (rf_config f)
     then let (state, f) = RetryFilter_circuit_state now f in (CircuitBreakerState_allows_traffic state, f)
     else (False, f))"

definition RetryFilter_reset :: "RetryFilter \<Rightarrow> RetryFilter" where
  "RetryFilter_reset f = f\<lparr>rf_circuit_state := CB_Closed, rf_failure_count := 0, rf_success_count := 0\<rparr>"


section \<open>The chain\<close>

record FilterChainConfig =
  fcc_enabled :: bool
  fcc_pace :: PaceFilterConfig
  fcc_queue :: QueueFilterConfig
  fcc_retry :: RetryFilterConfig

record FilterChain =
  fc_config :: FilterChainConfig
  fc_queue_filter :: QueueFilter
  fc_pace_filter :: PaceFilter
  fc_retry_filter :: RetryFilter

definition FilterChain_new :: "FilterChainConfig \<Rightarrow> FilterChain" where
  "FilterChain_new config =
     \<lparr>fc_config = config, fc_queue_filter = QueueFilter_new (fcc_queue config),
      fc_pace_filter = PaceFilter_new (fcc_pace config), fc_retry_filter = RetryFilter_new (fcc_retry config)\<rparr>"

abbreviation FilterChain_is_enabled :: "FilterChain \<Rightarrow> bool" where
  "FilterChain_is_enabled f \<equiv> fcc_enabled (fc_config f)"

definition FilterChain_send :: "instant \<Rightarrow> FilterChain \<Rightarrow> FrameEnvelope \<Rightarrow>
    ('e, FilterResult \<times> FrameEnvelope \<times> FilterChain) outcome" where
  "FilterChain_send now f envelope =
    (if \<not> FilterChain_is_enabled f then Ok (FR_Pass 0, envelope, f)
     else
       let (queue_result, envelope, queue) = QueueFilter_process_send (fc_queue_filter f) envelope;
           f = f\<lparr>fc_queue_filter := queue\<rparr>
       in if \<not> FilterResult_should_continue queue_result then Ok (queue_result, envelope, f)
       else obind (PaceFilter_process_send now (fc_pace_filter f) envelope) (\<lambda>(pace_result, pace).
         let f = f\<lparr>fc_pace_filter := pace\<rparr> in
         if \<not> FilterResult_should_continue pace_result then Ok (pace_result, envelope, f)
         else
           let envelope = envelope\<lparr>fe_accumulated_delay := fe_accumulated_delay envelope + fr_delay pace_result\<rparr>;
               (retry_result, retry) = RetryFilter_process_send now (fc_retry_filter f) envelope;
               f = f\<lparr>fc_retry_filter := retry\<rparr>
           in if \<not> FilterResult_should_continue retry_result then Ok (retry_result, envelope, f)
           else
             let envelope = envelope\<lparr>fe_accumulated_delay := fe_accumulated_delay envelope + fr_delay retry_result\<rparr>
             in Ok (FR_Pass (fe_accumulated_delay envelope), envelope, f)))"

definition FilterChain_on_send_success :: "instant \<Rightarrow> u8 \<Rightarrow> FilterChain \<Rightarrow> FilterChain" where
  "FilterChain_on_send_success now channel_id f =
    (if \<not> FilterChain_is_enabled f then f
     else f\<lparr>fc_retry_filter := RetryFilter_on_success (fc_retry_filter f),
            fc_pace_filter := PaceFilter_on_frame_completed now (fc_pace_filter f),
            fc_queue_filter := QueueFilter_on_ack_received channel_id (fc_queue_filter f)\<rparr>)"

definition FilterChain_on_send_failure :: "instant \<Rightarrow> u8 \<Rightarrow> FilterChain \<Rightarrow> FilterChain" where
  "FilterChain_on_send_failure now channel_id f =
    (if \<not> FilterChain_is_enabled f then f
     else f\<lparr>fc_retry_filter := RetryFilter_on_failure now (fc_retry_filter f)\<rparr>)"

definition FilterChain_drain_pending :: "u8 \<Rightarrow> usize \<Rightarrow> FilterChain \<Rightarrow> FrameEnvelope list \<times> FilterChain" where
  "FilterChain_drain_pending channel_id max_count f =
    (if \<not> FilterChain_is_enabled f then ([], f)
     else let (envelopes, queue) = QueueFilter_drain channel_id max_count (fc_queue_filter f)
          in (envelopes, f\<lparr>fc_queue_filter := queue\<rparr>))"


section \<open>Spacing on the bus\<close>

text \<open>What happens to a pace filter: a frame is sent, a transmission is reported complete, the state is read.\<close>

datatype pace_event = PE_Send instant FrameEnvelope | PE_Completed instant | PE_State instant

fun pace_time :: "pace_event \<Rightarrow> instant" where
  "pace_time (PE_Send now _) = now"
| "pace_time (PE_Completed now) = now"
| "pace_time (PE_State now) = now"

fun pace_fits :: "PaceFilterConfig \<Rightarrow> pace_event \<Rightarrow> bool" where
  "pace_fits c (PE_Send _ envelope) \<longleftrightarrow> PaceFilterConfig_byte_time_us c * fe_frame_size_bytes envelope < 2 ^ 64"
| "pace_fits c _ \<longleftrightarrow> True"

text \<open>The frames that pass, each with the time it was sent, the start of its transmission and its duration on
  the bus.\<close>

fun pace_run :: "PaceFilter \<Rightarrow> pace_event list \<Rightarrow> (unit, (instant \<times> instant \<times> duration) list) outcome" where
  "pace_run f [] = Ok []"
| "pace_run f (PE_Send now envelope # evs) =
    obind (PaceFilter_process_send now f envelope) (\<lambda>(result, f).
    obind (pace_run f evs) (\<lambda>out.
    Ok (case result of
        FR_Pass delay \<Rightarrow>
          (now, now + delay, PaceFilterConfig_byte_time_us (pf_config f) * fe_frame_size_bytes envelope) # out
      | _ \<Rightarrow> out)))"
| "pace_run f (PE_Completed now # evs) = pace_run (PaceFilter_on_frame_completed now f) evs"
| "pace_run f (PE_State now # evs) = pace_run (snd (PaceFilter_state now f)) evs"

text \<open>The bus is free at time \<open>t\<close> or as soon as the state says so, whichever is later.\<close>

definition pace_free :: "PaceFilter \<Rightarrow> instant \<Rightarrow> instant \<Rightarrow> bool" where
  "pace_free f now free \<longleftrightarrow>
    (case pf_state f of
       PS_Down \<Rightarrow> free \<le> now
     | PS_Busy busy_until \<Rightarrow> free \<le> busy_until + PaceFilterConfig_margin (pf_config f)
     | PS_Idle idle_until \<Rightarrow> free \<le> idle_until)"

lemma pace_free_advance:
  assumes "pace_free f t free" "t \<le> now"
  shows "pace_free (f\<lparr>pf_state := pace_advance (pf_config f) now (pf_state f)\<rparr>) now free"
  using assms by (cases "pf_state f") (auto simp: pace_free_def Let_def)

lemma pace_free_completed: "pace_free f t free \<Longrightarrow> t \<le> now \<Longrightarrow> pace_free (PaceFilter_on_frame_completed now f) now free"
  by (cases "pf_state f") (auto simp: pace_free_def PaceFilter_on_frame_completed_def)

lemma pace_free_state: "pace_free f t free \<Longrightarrow> t \<le> now \<Longrightarrow> pace_free (snd (PaceFilter_state now f)) now free"
  by (cases "pf_state f") (auto simp: pace_free_def PaceFilter_state_def Let_def)

lemma pace_config [simp]:
  "pf_config (PaceFilter_on_frame_completed now f) = pf_config f"
  "pf_config (snd (PaceFilter_state now f)) = pf_config f"
  by (auto simp: PaceFilter_on_frame_completed_def PaceFilter_state_def Let_def split: PaceState.splits)

lemma frame_time_Ok:
  "PaceFilterConfig_byte_time_us c * n < 2 ^ 64 \<Longrightarrow>
   PaceFilterConfig_frame_time c n = Ok (PaceFilterConfig_byte_time_us c * n)"
  by (simp add: PaceFilterConfig_frame_time_def)

lemma pace_process_send:
  assumes "pc_enabled (pf_config f)" "PaceFilterConfig_byte_time_us (pf_config f) * fe_frame_size_bytes e < 2 ^ 64"
    and "pace_free f t free" "t \<le> now"
  shows "\<exists>r f'. PaceFilter_process_send now f e = Ok (r, f') \<and> pf_config f' = pf_config f \<and>
    (case r of
       FR_Pass delay \<Rightarrow> free \<le> now + delay \<and> \<not> pace_too_long (pf_config f) delay \<and>
         pace_free f' now (now + delay + PaceFilterConfig_byte_time_us (pf_config f) * fe_frame_size_bytes e +
           PaceFilterConfig_margin (pf_config f))
     | _ \<Rightarrow> pace_free f' now free)"
proof -
  let ?f = "f\<lparr>pf_state := pace_advance (pf_config f) now (pf_state f)\<rparr>"
  have free: "pace_free ?f now free" by (rule pace_free_advance [OF assms(3,4)])
  have "now < b" if "pf_state ?f = PS_Busy b" for b
    using that by (cases "pf_state f") (auto simp: Let_def split: if_splits)
  moreover have "now < i" if "pf_state ?f = PS_Idle i" for i
    using that by (cases "pf_state f") (auto simp: Let_def split: if_splits)
  moreover have "\<not> pace_too_long (pf_config f) 0" by (simp add: pace_too_long_def)
  ultimately show ?thesis using free assms(1,2)
    by (cases "pf_state ?f") (auto simp: PaceFilter_process_send_def Let_def pace_free_def frame_time_Ok)
qed

lemma pace_run_spacing:
  assumes "pc_enabled (pf_config f)" "pace_free f t free"
    and "sorted (map pace_time evs)" "\<forall>ev\<in>set evs. t \<le> pace_time ev"
    and "\<forall>ev\<in>set evs. pace_fits (pf_config f) ev"
  shows "\<exists>out. pace_run f evs = Ok out \<and>
    (\<forall>(now, start, time)\<in>set out. free \<le> start \<and> now \<le> start \<and> \<not> pace_too_long (pf_config f) (start - now)) \<and>
    sorted_wrt (\<lambda>(_, start, time) (_, start', _). start + time + PaceFilterConfig_margin (pf_config f) \<le> start') out"
  using assms
proof (induction f evs arbitrary: t free rule: pace_run.induct)
  case (2 f now e evs)
  obtain r f' where send: "(PaceFilter_process_send now f e :: (unit, _) outcome) = Ok (r, f')" "pf_config f' = pf_config f"
    "case r of
       FR_Pass delay \<Rightarrow> free \<le> now + delay \<and> \<not> pace_too_long (pf_config f) delay \<and>
         pace_free f' now (now + delay + PaceFilterConfig_byte_time_us (pf_config f) * fe_frame_size_bytes e +
           PaceFilterConfig_margin (pf_config f))
     | _ \<Rightarrow> pace_free f' now free"
    using pace_process_send [OF 2(2) _ 2(3), of e now] 2(5,6) by auto
  note IH = 2(1) [of f']
  show ?case
  proof (cases "FilterResult_should_continue r")
    case True
    then obtain delay where r: "r = FR_Pass delay" by (cases r) auto
    let ?time = "PaceFilterConfig_byte_time_us (pf_config f) * fe_frame_size_bytes e"
    obtain out where out: "pace_run f' evs = Ok out"
      "\<forall>(n, start, time)\<in>set out. now + delay + ?time + PaceFilterConfig_margin (pf_config f) \<le> start \<and> n \<le> start \<and>
         \<not> pace_too_long (pf_config f) (start - n)"
      "sorted_wrt (\<lambda>(_, start, time) (_, start', _). start + time + PaceFilterConfig_margin (pf_config f) \<le> start') out"
      using IH [of now "now + delay + ?time + PaceFilterConfig_margin (pf_config f)"] 2(2,4-6) send(2,3) r by auto
    have "pace_run f (PE_Send now e # evs) = Ok ((now, now + delay, ?time) # out)" using send r out(1) by simp
    moreover have "\<forall>(n, start, time)\<in>set ((now, now + delay, ?time) # out). free \<le> start \<and> n \<le> start \<and>
        \<not> pace_too_long (pf_config f) (start - n)"
      using out(2) send(3) r by auto
    ultimately show ?thesis using out(2,3) by (intro exI [of _ "(now, now + delay, ?time) # out"]) (auto simp del: pace_run.simps)
  next
    case False
    then have "pace_free f' now free" using send(3) by (cases r) auto
    with IH [of now free] 2(2,4-6) send(1,2) False show ?thesis by (cases r) auto
  qed
next
  case (3 f now evs)
  then show ?case using pace_free_completed [OF 3(3), of now] by auto
next
  case (4 f now evs)
  then show ?case using pace_free_state [OF 4(3), of now] by auto
qed simp

text \<open>
  C27. The bus is never driven faster than it can transmit. Whatever frames are sent, completions reported and
  states read, at times that do not decrease, every frame that passes starts, after the delay the filter
  asks for, no earlier than the end of every frame before it plus the margin; and no frame waits longer
  than the maximal delay, when there is one.
\<close>
theorem pace_spacing:
  assumes "pc_enabled c" "sorted (map pace_time evs)" "\<forall>ev\<in>set evs. pace_fits c ev"
  shows "\<exists>out. pace_run (PaceFilter_new c) evs = Ok out \<and>
    sorted_wrt (\<lambda>(_, start, time) (_, start', _). start + time + PaceFilterConfig_margin c \<le> start') out \<and>
    (\<forall>(now, start, time)\<in>set out. now \<le> start \<and>
       (0 < pc_max_delay_ms c \<longrightarrow> start \<le> now + PaceFilterConfig_max_delay c))"
proof -
  have "pace_free (PaceFilter_new c) 0 0" by (simp add: pace_free_def PaceFilter_new_def)
  with pace_run_spacing [of "PaceFilter_new c" 0 0 evs] assms show ?thesis
    by (fastforce simp: PaceFilter_new_def pace_too_long_def)
qed

definition sample_pace_config :: PaceFilterConfig where
  "sample_pace_config = \<lparr>pc_enabled = True, pc_margin_ms = 50, pc_byte_time_override_us = 1000, pc_max_delay_ms = 5000,
     pc_auto_transition = True\<rparr>"

theorem pace_spacing_witness:
  "\<exists>out. pace_run (PaceFilter_new sample_pace_config)
      [PE_Send 7 (sample_envelope CemiFrame_reset_ind\<lparr>fe_frame_size_bytes := 10\<rparr>),
       PE_Send 8 (sample_envelope CemiFrame_reset_ind\<lparr>fe_frame_size_bytes := 10\<rparr>)] = Ok out \<and>
    out = [(7, 7, 10000), (8, 60007, 10000)]"
proof -
  let ?evs = "[PE_Send 7 (sample_envelope CemiFrame_reset_ind\<lparr>fe_frame_size_bytes := 10\<rparr>),
       PE_Send 8 (sample_envelope CemiFrame_reset_ind\<lparr>fe_frame_size_bytes := 10\<rparr>)]"
  have "\<exists>out. pace_run (PaceFilter_new sample_pace_config) ?evs = Ok out \<and>
      sorted_wrt (\<lambda>(_, start, time) (_, start', _). start + time + PaceFilterConfig_margin sample_pace_config \<le> start') out"
    using pace_spacing [of sample_pace_config ?evs]
    by (auto simp: sample_pace_config_def PaceFilterConfig_byte_time_us_def)
  then show ?thesis
    by (simp add: sample_pace_config_def PaceFilter_new_def PaceFilter_process_send_def frame_time_Ok
        PaceFilterConfig_byte_time_us_def PaceFilterConfig_margin_def PaceFilterConfig_max_delay_def pace_too_long_def Let_def)
qed


section \<open>The circuit\<close>

text \<open>Reports on the transmissions of a filter: success, or failure at a time.\<close>

fun feedback :: "instant option \<Rightarrow> RetryFilter \<Rightarrow> RetryFilter" where
  "feedback None f = RetryFilter_on_success f"
| "feedback (Some now) f = RetryFilter_on_failure now f"

definition trips :: "nat \<Rightarrow> instant option list \<Rightarrow> bool" where
  "trips n reports \<longleftrightarrow> (\<exists>xs fails zs. reports = xs @ fails @ zs \<and> length fails = n \<and> None \<notin> set fails)"

text \<open>The number of failures since the last success.\<close>

definition recent_failures :: "instant option list \<Rightarrow> nat" where
  "recent_failures reports = length (takeWhile (\<lambda>r. r \<noteq> None) (rev reports))"

lemma recent_failures_snoc [simp]:
  "recent_failures [] = 0"
  "recent_failures (reports @ [None]) = 0"
  "recent_failures (reports @ [Some now]) = Suc (recent_failures reports)"
  by (simp_all add: recent_failures_def)

lemma recent_failures_suffix: "None \<notin> set fails \<Longrightarrow> length fails \<le> recent_failures (xs @ fails)"
proof -
  assume "None \<notin> set fails"
  then have "takeWhile (\<lambda>r. r \<noteq> None) (rev fails @ rev xs) = rev fails @ takeWhile (\<lambda>r. r \<noteq> None) (rev xs)"
    by (intro takeWhile_append2) (metis set_rev)
  then show ?thesis by (simp add: recent_failures_def)
qed

lemma recent_failures_trips:
  assumes "n \<le> recent_failures reports"
  shows "trips n reports"
proof -
  let ?fails = "rev (take n (rev reports))"
  have eq: "take n (rev reports) = take n (takeWhile (\<lambda>r. r \<noteq> None) (rev reports))"
    using assms by (subst takeWhile_eq_take) (simp add: recent_failures_def min.absorb1)
  have "reports = rev (drop n (rev reports)) @ ?fails @ []"
    by (simp flip: rev_append)
  moreover have "length ?fails = n" using assms eq by (simp add: recent_failures_def)
  moreover have "None \<notin> set ?fails" using eq by (auto dest!: in_set_takeD set_takeWhileD)
  ultimately show ?thesis unfolding trips_def by metis
qed

lemma tripsI: "length fails = n \<Longrightarrow> None \<notin> set fails \<Longrightarrow> trips n (xs @ fails @ zs)"
  unfolding trips_def by blast

lemma tripsE:
  assumes "trips n reports"
  obtains xs fails zs where "reports = xs @ fails @ zs" "length fails = n" "None \<notin> set fails"
  using assms unfolding trips_def by blast

lemma trips_snoc:
  assumes "0 < n"
  shows "trips n (reports @ [None]) \<longleftrightarrow> trips n reports"
    and "trips n (reports @ [Some now]) \<longleftrightarrow> trips n reports \<or> n \<le> Suc (recent_failures reports)"
proof -
  have extend: "trips n (reports @ [r])" if "trips n reports" for r
  proof (rule tripsE [OF that])
    fix xs fails zs
    assume "reports = xs @ fails @ zs" "length fails = n" "None \<notin> set fails"
    then show ?thesis using tripsI [of fails n xs "zs @ [r]"] by simp
  qed
  have cut: "trips n reports \<or> (\<exists>xs fails. reports @ [r] = xs @ fails \<and> length fails = n \<and> None \<notin> set fails)"
    if "trips n (reports @ [r])" for r
  proof (rule tripsE [OF that])
    fix xs fails zs
    assume *: "reports @ [r] = xs @ fails @ zs" "length fails = n" "None \<notin> set fails"
    show ?thesis
    proof (cases zs rule: rev_cases)
      case Nil
      with * show ?thesis by (intro disjI2 exI [of _ xs] exI [of _ fails]) simp
    next
      case (snoc zs' r')
      with *(1) have "reports = xs @ fails @ zs'" by simp
      then show ?thesis using tripsI [OF *(2,3)] by simp
    qed
  qed
  show "trips n (reports @ [None]) \<longleftrightarrow> trips n reports"
  proof
    assume "trips n (reports @ [None])"
    from cut [OF this] show "trips n reports"
    proof
      assume "\<exists>xs fails. reports @ [None] = xs @ fails \<and> length fails = n \<and> None \<notin> set fails"
      then obtain xs fails where *: "reports @ [None] = xs @ fails" "length fails = n" "None \<notin> set fails" by blast
      then have ne: "fails \<noteq> []" using assms by auto
      then have "last fails = last (xs @ fails)" by simp
      also have "\<dots> = None" by (simp flip: *(1))
      finally show ?thesis using *(3) last_in_set [OF ne] by simp
    qed
  qed (rule extend)
  show "trips n (reports @ [Some now]) \<longleftrightarrow> trips n reports \<or> n \<le> Suc (recent_failures reports)"
  proof
    assume "trips n (reports @ [Some now])"
    from cut [OF this] show "trips n reports \<or> n \<le> Suc (recent_failures reports)"
    proof
      assume "\<exists>xs fails. reports @ [Some now] = xs @ fails \<and> length fails = n \<and> None \<notin> set fails"
      then obtain xs fails where *: "reports @ [Some now] = xs @ fails" "length fails = n" "None \<notin> set fails" by blast
      have "n \<le> recent_failures (reports @ [Some now])" using recent_failures_suffix [OF *(3), of xs] by (simp only: *(1,2))
      then show ?thesis by simp
    qed simp
  next
    assume "trips n reports \<or> n \<le> Suc (recent_failures reports)"
    then show "trips n (reports @ [Some now])"
      using extend [of "Some now"] recent_failures_trips [of n "reports @ [Some now]"] by (simp only: recent_failures_snoc) blast
  qed
qed

lemma circuit_after_feedback:
  assumes "rc_enabled c" "0 < rc_failure_threshold c"
  shows "let f = fold feedback reports (RetryFilter_new c) in rf_config f = c \<and>
    (if trips (rc_failure_threshold c) reports then \<exists>t. rf_circuit_state f = CB_Open t
     else rf_circuit_state f = CB_Closed \<and> rf_failure_count f = recent_failures reports \<and>
       recent_failures reports < rc_failure_threshold c)"
proof (induction reports rule: rev_induct)
  case Nil
  show ?case using assms by (auto simp: RetryFilter_new_def trips_def)
next
  case (snoc r reports)
  let ?n = "rc_failure_threshold c"
  show ?case
  proof (cases r)
    case None
    with snoc assms show ?thesis
      by (cases "trips ?n reports") (auto simp: trips_snoc RetryFilter_on_success_def Let_def)
  next
    case (Some now)
    with snoc assms show ?thesis
      by (cases "trips ?n reports") (auto simp: trips_snoc RetryFilter_on_failure_def Let_def)
  qed
qed

text \<open>
  C28. The circuit opens exactly when it should: starting closed, it is still closed after a sequence of reports
  if and only if the sequence has no run of \<^verbatim>\<open>failure_threshold\<close> consecutive failures.
\<close>
theorem circuit_opens_iff:
  assumes "rc_enabled c" "0 < rc_failure_threshold c"
  shows "rf_circuit_state (fold feedback reports (RetryFilter_new c)) = CB_Closed \<longleftrightarrow>
    (\<nexists>xs fails zs. reports = xs @ fails @ zs \<and> length fails = rc_failure_threshold c \<and> None \<notin> set fails)"
  using circuit_after_feedback [OF assms, of reports] by (auto simp: Let_def trips_def split: if_splits)

definition sample_retry_config :: RetryFilterConfig where
  "sample_retry_config = \<lparr>rc_enabled = True, rc_max_retries = 3, rc_retry_delay_ms = 100, rc_exponential_backoff = True,
     rc_max_retry_delay_ms = 5000, rc_failure_threshold = 2, rc_recovery_timeout_ms = 10, rc_success_threshold = 1\<rparr>"

theorem circuit_opens_iff_witness:
  "rf_circuit_state (fold feedback [Some 1, None, Some 2] (RetryFilter_new sample_retry_config)) = CB_Closed \<and>
   rf_circuit_state (fold feedback [None, Some 1, Some 2] (RetryFilter_new sample_retry_config)) \<noteq> CB_Closed"
proof -
  have c: "rc_enabled sample_retry_config" "0 < rc_failure_threshold sample_retry_config"
    "rc_failure_threshold sample_retry_config = 2" by (simp_all add: sample_retry_config_def)
  have "\<not> trips 2 [Some 1, None, Some 2]"
    using trips_snoc(2) [of 2 "[Some 1, None]" 2] trips_snoc(1) [of 2 "[Some 1]"] trips_snoc(2) [of 2 "[]" 1]
    by (simp add: recent_failures_def) (simp add: trips_def)
  moreover have "trips 2 [None, Some 1, Some 2]"
    using trips_snoc(2) [of 2 "[None, Some 1]" 2] by (simp add: recent_failures_def)
  ultimately show ?thesis
    using circuit_opens_iff [OF c(1,2), of "[Some 1, None, Some 2]"] circuit_opens_iff [OF c(1,2), of "[None, Some 1, Some 2]"]
    unfolding c(3) trips_def by blast
qed

text \<open>An open circuit drops every frame until the recovery timeout has passed; the frame that arrives then makes
  it half open. In this state every frame passes and the state changes by reports only.\<close>

lemma open_circuit_send:
  assumes "rc_enabled (rf_config f)" "rf_circuit_state f = CB_Open opened_at"
  shows "RetryFilter_process_send now f e =
    (if RetryFilterConfig_recovery_timeout (rf_config f) \<le> now - opened_at
     then (FR_Pass 0, f\<lparr>rf_circuit_state := CB_HalfOpen, rf_success_count := 0\<rparr>)
     else (FR_Dropped (''CircuitBreaker: circuit is Open (failures >= '' @
             show_nat (rc_failure_threshold (rf_config f)) @ '')''), f))"
  using assms by (simp add: RetryFilter_process_send_def RetryFilter_circuit_state_def)

lemma half_open_send:
  "rf_circuit_state f = CB_HalfOpen \<Longrightarrow> RetryFilter_process_send now f e = (FR_Pass 0, f)"
  by (simp add: RetryFilter_process_send_def RetryFilter_circuit_state_def)

lemma half_open_successes:
  assumes "rc_enabled (rf_config f)" "rf_circuit_state f = CB_HalfOpen" "rf_success_count f = 0"
    and "k < rc_success_threshold (rf_config f)"
  shows "(RetryFilter_on_success ^^ k) f = f\<lparr>rf_success_count := k\<rparr>"
  using assms(4)
proof (induction k)
  case 0
  show ?case using assms(3) by (cases f) simp
next
  case (Suc k)
  then show ?case using assms(1-3) by (simp add: RetryFilter_on_success_def)
qed

lemma half_open_closes:
  assumes "rc_enabled (rf_config f)" "rf_circuit_state f = CB_HalfOpen" "rf_success_count f = 0"
    and "0 < rc_success_threshold (rf_config f)"
  shows "(RetryFilter_on_success ^^ rc_success_threshold (rf_config f)) f =
    f\<lparr>rf_circuit_state := CB_Closed, rf_failure_count := 0, rf_success_count := 0\<rparr>"
proof -
  obtain k where k: "rc_success_threshold (rf_config f) = Suc k" using assms(4) gr0_implies_Suc by blast
  then show ?thesis using assms half_open_successes [OF assms(1-3), of k] by (simp add: RetryFilter_on_success_def)
qed

text \<open>
  C40. Recovery of the circuit breaker. A circuit opened at \<open>opened_at\<close> blocks until the recovery timeout;
  the next frame passes and every frame after it, not only one as the documentation of the half-open state
  says; fewer successes than the threshold keep it half open, the threshold closes it with its failure count
  cleared, and a failure reported before that opens it again at the time of the failure.
\<close>
theorem circuit_recovery:
  assumes "rc_enabled (rf_config f)" "rf_circuit_state f = CB_Open opened_at"
    and "0 < rc_success_threshold (rf_config f)"
  shows "if now - opened_at < RetryFilterConfig_recovery_timeout (rf_config f)
    then \<exists>m. RetryFilter_process_send now f e = (FR_Dropped m, f)
    else \<exists>h. RetryFilter_process_send now f e = (FR_Pass 0, h) \<and>
        (\<forall>t e'. RetryFilter_process_send t h e' = (FR_Pass 0, h)) \<and>
        (\<forall>k < rc_success_threshold (rf_config f).
           rf_circuit_state ((RetryFilter_on_success ^^ k) h) = CB_HalfOpen \<and>
           (\<forall>t. rf_circuit_state (RetryFilter_on_failure t ((RetryFilter_on_success ^^ k) h)) = CB_Open t)) \<and>
        rf_circuit_state ((RetryFilter_on_success ^^ rc_success_threshold (rf_config f)) h) = CB_Closed \<and>
        rf_failure_count ((RetryFilter_on_success ^^ rc_success_threshold (rf_config f)) h) = 0"
proof (cases "now - opened_at < RetryFilterConfig_recovery_timeout (rf_config f)")
  case True
  then show ?thesis using open_circuit_send [OF assms(1,2)] by simp
next
  case False
  let ?h = "f\<lparr>rf_circuit_state := CB_HalfOpen, rf_success_count := 0\<rparr>"
  have h: "rc_enabled (rf_config ?h)" "rf_circuit_state ?h = CB_HalfOpen" "rf_success_count ?h = 0"
    "rf_config ?h = rf_config f" using assms by simp_all
  have "\<exists>h. RetryFilter_process_send now f e = (FR_Pass 0, h) \<and>
        (\<forall>t e'. RetryFilter_process_send t h e' = (FR_Pass 0, h)) \<and>
        (\<forall>k < rc_success_threshold (rf_config f).
           rf_circuit_state ((RetryFilter_on_success ^^ k) h) = CB_HalfOpen \<and>
           (\<forall>t. rf_circuit_state (RetryFilter_on_failure t ((RetryFilter_on_success ^^ k) h)) = CB_Open t)) \<and>
        rf_circuit_state ((RetryFilter_on_success ^^ rc_success_threshold (rf_config f)) h) = CB_Closed \<and>
        rf_failure_count ((RetryFilter_on_success ^^ rc_success_threshold (rf_config f)) h) = 0"
    using False assms half_open_successes [OF h(1-3)] half_open_closes [OF h(1-3)] half_open_send [OF h(2)]
    by (intro exI [of _ ?h]) (simp add: open_circuit_send RetryFilter_on_failure_def)
  then show ?thesis using False by simp
qed

definition sample_open_circuit :: RetryFilter where
  "sample_open_circuit = fold feedback [Some 1, Some 2] (RetryFilter_new sample_retry_config)"

lemma sample_open_circuit:
  "rc_enabled (rf_config sample_open_circuit)" "rf_circuit_state sample_open_circuit = CB_Open 2"
  "rc_success_threshold (rf_config sample_open_circuit) = 1"
  "RetryFilterConfig_recovery_timeout (rf_config sample_open_circuit) = 10000"
  by (simp_all add: sample_open_circuit_def sample_retry_config_def RetryFilter_new_def RetryFilter_on_failure_def
      RetryFilterConfig_recovery_timeout_def)

definition sample_frame :: FrameEnvelope where
  "sample_frame = sample_envelope (CemiFrame_group_value_read zero_ia (GroupAddress_from_raw 1))"

theorem circuit_recovery_witness:
  "(\<exists>m. RetryFilter_process_send 10001 sample_open_circuit sample_frame = (FR_Dropped m, sample_open_circuit)) \<and>
   (\<exists>h. RetryFilter_process_send 10002 sample_open_circuit sample_frame = (FR_Pass 0, h) \<and>
     rf_circuit_state (RetryFilter_on_success h) = CB_Closed)"
  using circuit_recovery [OF sample_open_circuit(1,2), of 10001 sample_frame]
    circuit_recovery [OF sample_open_circuit(1,2), of 10002 sample_frame]
  by (auto simp: sample_open_circuit)


section \<open>The order of the filters\<close>

text \<open>The pace filter comes before the circuit breaker, so a frame the circuit drops has been given its time on
  the bus already.\<close>

lemma pace_busy_send:
  assumes "pc_enabled (pf_config p)" "pc_max_delay_ms (pf_config p) = 0"
    and "PaceFilterConfig_byte_time_us (pf_config p) * fe_frame_size_bytes e < 2 ^ 64"
    and "pf_state p = PS_Busy busy_until" "now < busy_until"
  shows "PaceFilter_process_send now p e =
    Ok (FR_Pass (busy_until - now + PaceFilterConfig_margin (pf_config p)),
        p\<lparr>pf_state := PS_Busy (busy_until + PaceFilterConfig_margin (pf_config p) +
          PaceFilterConfig_byte_time_us (pf_config p) * fe_frame_size_bytes e)\<rparr>)"
  using assms by (simp add: PaceFilter_process_send_def frame_time_Ok pace_too_long_def Let_def)

fun chain_sends :: "instant \<Rightarrow> FilterChain \<Rightarrow> FrameEnvelope list \<Rightarrow> (unit, FilterResult list \<times> FilterChain) outcome" where
  "chain_sends now f [] = Ok ([], f)"
| "chain_sends now f (e # es) =
    obind (FilterChain_send now f e) (\<lambda>(r, _, f).
    obind (chain_sends now f es) (\<lambda>(rs, f). Ok (r # rs, f)))"

lemma fe_size_classified: "fe_frame_size_bytes (classified e) = fe_frame_size_bytes e"
  by simp

lemma chain_upd:
  "f\<lparr>fc_queue_filter := fc_queue_filter f, fc_pace_filter := p, fc_retry_filter := fc_retry_filter f\<rparr> = f\<lparr>fc_pace_filter := p\<rparr>"
  by (cases f) simp

lemma pace_upd: "pf_config (fc_pace_filter (f\<lparr>fc_pace_filter := p\<lparr>pf_state := s\<rparr>\<rparr>)) = pf_config p"
  by simp

lemma blocked_send:
  assumes "FilterChain_is_enabled f" "\<not> holding (fc_queue_filter f)"
    and "rc_enabled (rf_config (fc_retry_filter f))" "rf_circuit_state (fc_retry_filter f) = CB_Open opened_at"
    and "now - opened_at < RetryFilterConfig_recovery_timeout (rf_config (fc_retry_filter f))"
    and "PaceFilter_process_send now (fc_pace_filter f) e = (Ok (FR_Pass delay, p) :: (unit, _) outcome)"
    and "PaceFilter_process_send now (fc_pace_filter f) (classified e) = (Ok (FR_Pass delay, p) :: (unit, _) outcome)"
  shows "\<exists>m e'. FilterChain_send now f e = (Ok (FR_Dropped m, e', f\<lparr>fc_pace_filter := p\<rparr>) :: (unit, _) outcome)"
proof -
  let ?e = "if qc_enabled (qf_config (fc_queue_filter f)) then classified e else e"
  obtain e' where e': "e' = e \<or> e' = classified e"
    "QueueFilter_process_send (fc_queue_filter f) e = (FR_Pass 0, e', fc_queue_filter f)"
  proof (rule that [of ?e])
    show "QueueFilter_process_send (fc_queue_filter f) e = (FR_Pass 0, ?e, fc_queue_filter f)"
      using assms(2) by (simp add: QueueFilter_process_send_def holding_def)
  qed simp
  with assms(6,7) have "PaceFilter_process_send now (fc_pace_filter f) e' = (Ok (FR_Pass delay, p) :: (unit, _) outcome)" by blast
  then show ?thesis
    using assms(1) e'(2) open_circuit_send [OF assms(3,4)] assms(5) by (simp add: FilterChain_send_def chain_upd)
qed

text \<open>
  Frames that an open circuit drops use up bus time all the same: every one of them moves the end of the
  busy period by its transmission time and the margin, although nothing is transmitted, so the first frame
  after the recovery waits for all of them.
\<close>
theorem open_circuit_reserves_bus:
  assumes "FilterChain_is_enabled f" "\<not> holding (fc_queue_filter f)"
    and "rc_enabled (rf_config (fc_retry_filter f))" "rf_circuit_state (fc_retry_filter f) = CB_Open opened_at"
    and "now - opened_at < RetryFilterConfig_recovery_timeout (rf_config (fc_retry_filter f))"
    and "pc_enabled (pf_config (fc_pace_filter f))" "pc_max_delay_ms (pf_config (fc_pace_filter f)) = 0"
    and "pf_state (fc_pace_filter f) = PS_Busy busy_until" "now < busy_until"
    and "\<forall>e \<in> set es. PaceFilterConfig_byte_time_us (pf_config (fc_pace_filter f)) * fe_frame_size_bytes e < 2 ^ 64"
  shows "\<exists>rs f'. chain_sends now f es = Ok (rs, f') \<and> length rs = length es \<and>
    (\<forall>r \<in> set rs. \<exists>m. r = FR_Dropped m) \<and>
    pf_state (fc_pace_filter f') = PS_Busy (busy_until + (\<Sum>e\<leftarrow>es. PaceFilterConfig_margin (pf_config (fc_pace_filter f)) +
      PaceFilterConfig_byte_time_us (pf_config (fc_pace_filter f)) * fe_frame_size_bytes e))"
  using assms
proof (induction es arbitrary: f busy_until)
  case Nil
  then show ?case by simp
next
  case (Cons e es)
  let ?c = "pf_config (fc_pace_filter f)"
  let ?busy = "busy_until + PaceFilterConfig_margin ?c + PaceFilterConfig_byte_time_us ?c * fe_frame_size_bytes e"
  let ?f = "f\<lparr>fc_pace_filter := (fc_pace_filter f)\<lparr>pf_state := PS_Busy ?busy\<rparr>\<rparr>"
  have size: "PaceFilterConfig_byte_time_us ?c * fe_frame_size_bytes e < 2 ^ 64" using Cons.prems(10) by simp
  then have size': "PaceFilterConfig_byte_time_us ?c * fe_frame_size_bytes (classified e) < 2 ^ 64" by simp
  note paced = pace_busy_send [OF Cons.prems(6,7) size Cons.prems(8,9)]
  note paced' = pace_busy_send [OF Cons.prems(6,7) size' Cons.prems(8,9), unfolded fe_size_classified]
  obtain m e' where send: "FilterChain_send now f e = (Ok (FR_Dropped m, e', ?f) :: (unit, _) outcome)"
    using blocked_send [OF Cons.prems(1-5) paced paced'] by blast
  have "\<exists>rs f'. chain_sends now ?f es = Ok (rs, f') \<and> length rs = length es \<and>
    (\<forall>r \<in> set rs. \<exists>m. r = FR_Dropped m) \<and>
    pf_state (fc_pace_filter f') = PS_Busy (?busy + (\<Sum>e\<leftarrow>es. PaceFilterConfig_margin (pf_config (fc_pace_filter ?f)) +
      PaceFilterConfig_byte_time_us (pf_config (fc_pace_filter ?f)) * fe_frame_size_bytes e))"
  proof (rule Cons.IH)
    show "now < ?busy" using Cons.prems(9) by linarith
    show "\<forall>e \<in> set es. PaceFilterConfig_byte_time_us (pf_config (fc_pace_filter ?f)) * fe_frame_size_bytes e < 2 ^ 64"
      using Cons.prems(10) by simp
  qed (use Cons.prems(1-7) in simp_all)
  then obtain rs f' where "chain_sends now ?f es = Ok (rs, f')" "length rs = length es" "\<forall>r \<in> set rs. \<exists>m. r = FR_Dropped m"
    "pf_state (fc_pace_filter f') = PS_Busy (?busy + (\<Sum>e\<leftarrow>es. PaceFilterConfig_margin ?c +
      PaceFilterConfig_byte_time_us ?c * fe_frame_size_bytes e))" by (simp only: pace_upd) blast
  with send show ?case by (simp add: add.assoc)
qed

definition sample_chain :: FilterChain where
  "sample_chain =
     \<lparr>fc_config = \<lparr>fcc_enabled = True, fcc_pace = sample_pace_config,
        fcc_queue = sample_queue_config\<lparr>qc_enabled := False\<rparr>, fcc_retry = sample_retry_config\<rparr>,
      fc_queue_filter = QueueFilter_new (sample_queue_config\<lparr>qc_enabled := False\<rparr>),
      fc_pace_filter = \<lparr>pf_config = sample_pace_config\<lparr>pc_max_delay_ms := 0\<rparr>, pf_state = PS_Busy 20000\<rparr>,
      fc_retry_filter = sample_open_circuit\<rparr>"

lemma sample_chain:
  "FilterChain_is_enabled sample_chain" "\<not> holding (fc_queue_filter sample_chain)"
  "fc_retry_filter sample_chain = sample_open_circuit" "pf_state (fc_pace_filter sample_chain) = PS_Busy 20000"
  "pc_enabled (pf_config (fc_pace_filter sample_chain))" "pc_max_delay_ms (pf_config (fc_pace_filter sample_chain)) = 0"
  "PaceFilterConfig_byte_time_us (pf_config (fc_pace_filter sample_chain)) = 1000"
  by (simp_all add: sample_chain_def holding_def QueueFilter_new_def sample_pace_config_def
      PaceFilterConfig_byte_time_us_def)

theorem open_circuit_reserves_bus_witness:
  "\<exists>rs f'. chain_sends 3 sample_chain [sample_frame\<lparr>fe_frame_size_bytes := 10\<rparr>] = Ok (rs, f') \<and>
     (\<forall>r \<in> set rs. \<exists>m. r = FR_Dropped m) \<and> (\<exists>t. pf_state (fc_pace_filter f') = PS_Busy t \<and> 20000 < t)"
proof -
  have blocked: "rc_enabled (rf_config (fc_retry_filter sample_chain))"
    "rf_circuit_state (fc_retry_filter sample_chain) = CB_Open 2"
    "3 - 2 < RetryFilterConfig_recovery_timeout (rf_config (fc_retry_filter sample_chain))"
    by (simp_all add: sample_chain sample_open_circuit)
  have "\<forall>e \<in> set [sample_frame\<lparr>fe_frame_size_bytes := 10\<rparr>].
      PaceFilterConfig_byte_time_us (pf_config (fc_pace_filter sample_chain)) * fe_frame_size_bytes e < 2 ^ 64"
    by (simp add: sample_chain)
  from open_circuit_reserves_bus [OF sample_chain(1,2) blocked sample_chain(5,6,4) _ this] obtain rs f' where "chain_sends 3 sample_chain [sample_frame\<lparr>fe_frame_size_bytes := 10\<rparr>] = Ok (rs, f')"
    "\<forall>r \<in> set rs. \<exists>m. r = FR_Dropped m"
    and "pf_state (fc_pace_filter f') = PS_Busy (20000 + (\<Sum>e\<leftarrow>[sample_frame\<lparr>fe_frame_size_bytes := 10\<rparr>].
      PaceFilterConfig_margin (pf_config (fc_pace_filter sample_chain)) +
      PaceFilterConfig_byte_time_us (pf_config (fc_pace_filter sample_chain)) * fe_frame_size_bytes e))"
    by (simp del: chain_sends.simps list.map) blast
  moreover from this(3) have "\<exists>t. pf_state (fc_pace_filter f') = PS_Busy t \<and> 20000 < t" by (simp add: sample_chain)
  ultimately show ?thesis by blast
qed

end
