(* ===== verification/Knx_Group.thy ===== *)
theory Knx_Group
  imports Knx_Dpt Knx_Flow
begin

text \<open>
  Group objects and the group value cache of the KNX server, \<^verbatim>\<open>mabi-knx/src/group.rs\<close> and \<^verbatim>\<open>group_cache.rs\<close>. A
  group object is shared behind a reference count and locks its value per operation; the table holds it by value,
  so an operation on the table is one step. The events a table broadcasts are the list of the events sent so far;
  who receives them is not modelled. Concurrent maps are maps, and an operation that walks over one takes the
  order of the walk as an argument. Hit and update counters are left out.

  The lemmas show what a table returns after a write and which flags it looks at, which objects can be read before
  anything was written to them, that the cache never returns anything but the last value written to an address
  within its time to live, that it keeps its capacity, and that it evicts a least recently used entry.
\<close>

section \<open>Group objects\<close>

record GroupObjectFlags =
  gf_communication :: bool
  gf_read :: bool
  gf_write :: bool
  gf_transmit :: bool
  gf_update :: bool

definition GroupObjectFlags_read_write :: GroupObjectFlags where
  "GroupObjectFlags_read_write =
     \<lparr>gf_communication = True, gf_read = True, gf_write = True, gf_transmit = True, gf_update = True\<rparr>"

definition GroupObjectFlags_read_only :: GroupObjectFlags where
  "GroupObjectFlags_read_only =
     \<lparr>gf_communication = True, gf_read = True, gf_write = False, gf_transmit = True, gf_update = False\<rparr>"

definition GroupObjectFlags_write_only :: GroupObjectFlags where
  "GroupObjectFlags_write_only =
     \<lparr>gf_communication = True, gf_read = False, gf_write = True, gf_transmit = False, gf_update = True\<rparr>"

record GroupObject =
  go_address :: GroupAddress
  go_name :: string
  go_description :: string
  go_codec :: DptCodec
  go_flags :: GroupObjectFlags
  go_value :: bytes
  go_last_update :: instant

definition GroupObject_new :: "instant \<Rightarrow> GroupAddress \<Rightarrow> string \<Rightarrow> DptCodec \<Rightarrow> GroupObject KnxResult" where
  "GroupObject_new now address name codec =
    obind (case dc_encode codec (dc_default_value codec) of Ok b \<Rightarrow> Ok b | Err _ \<Rightarrow> Ok [] | Panic \<Rightarrow> Panic) (\<lambda>encoded.
    Ok \<lparr>go_address = address, go_name = name, go_description = [], go_codec = codec,
        go_flags = GroupObjectFlags_read_write, go_value = encoded, go_last_update = now\<rparr>)"

definition GroupObject_write_raw :: "instant \<Rightarrow> bytes \<Rightarrow> GroupObject \<Rightarrow> GroupObject KnxResult" where
  "GroupObject_write_raw now data ob =
    (if \<not> gf_write (go_flags ob) then Err (GroupObjectWriteNotAllowed (go_name ob))
     else Ok (ob\<lparr>go_value := data, go_last_update := now\<rparr>))"

definition GroupObject_write_value :: "instant \<Rightarrow> DptValue \<Rightarrow> GroupObject \<Rightarrow> GroupObject KnxResult" where
  "GroupObject_write_value now value ob =
    (if \<not> gf_write (go_flags ob) then Err (GroupObjectWriteNotAllowed (go_name ob))
     else obind (dc_encode (go_codec ob) value) (\<lambda>encoded.
       Ok (ob\<lparr>go_value := encoded, go_last_update := now\<rparr>)))"

definition GroupObject_read_value :: "GroupObject \<Rightarrow> DptValue KnxResult" where
  "GroupObject_read_value ob = dc_decode (go_codec ob) (go_value ob)"

definition GroupObject_can_read :: "GroupObject \<Rightarrow> bool" where
  "GroupObject_can_read ob \<longleftrightarrow> gf_communication (go_flags ob) \<and> gf_read (go_flags ob)"

definition GroupObject_can_write :: "GroupObject \<Rightarrow> bool" where
  "GroupObject_can_write ob \<longleftrightarrow> gf_communication (go_flags ob) \<and> gf_write (go_flags ob)"

record GroupObjectBuilder =
  gb_address :: GroupAddress
  gb_name :: string
  gb_description :: string
  gb_dpt_id :: DptId
  gb_flags :: GroupObjectFlags
  gb_initial_value :: "DptValue option"

definition GroupObjectBuilder_new :: "GroupAddress \<Rightarrow> DptId \<Rightarrow> GroupObjectBuilder" where
  "GroupObjectBuilder_new address dpt_id =
     \<lparr>gb_address = address, gb_name = ''Group '' @ GroupAddress_format_three_level address, gb_description = [],
      gb_dpt_id = dpt_id, gb_flags = GroupObjectFlags_read_write, gb_initial_value = None\<rparr>"

definition GroupObjectBuilder_build :: "instant \<Rightarrow> DptRegistry \<Rightarrow> GroupObjectBuilder \<Rightarrow> GroupObject KnxResult" where
  "GroupObjectBuilder_build now registry b =
    obind (ok_or (DptRegistry_get registry (gb_dpt_id b)) (InvalidDpt (''Unknown DPT: '' @ DptId_fmt (gb_dpt_id b)))) (\<lambda>codec.
    obind (GroupObject_new now (gb_address b) (gb_name b) codec) (\<lambda>ob.
    let ob = ob\<lparr>go_description := gb_description b, go_flags := gb_flags b\<rparr>
    in case gb_initial_value b of
         Some value \<Rightarrow> GroupObject_write_value now value ob
       | None \<Rightarrow> Ok ob))"


section \<open>The table\<close>

datatype GroupEvent =
    GE_ValueWrite GroupAddress bytes "string option"
  | GE_ReadRequest GroupAddress "string option"
  | GE_ReadResponse GroupAddress bytes
  | GE_ObjectCreated GroupAddress
  | GE_ObjectRemoved GroupAddress

record GroupObjectTable =
  gt_objects :: "GroupAddress \<rightharpoonup> GroupObject"
  gt_events :: "GroupEvent list"
  gt_registry :: DptRegistry

definition GroupObjectTable_with_registry :: "DptRegistry \<Rightarrow> GroupObjectTable" where
  "GroupObjectTable_with_registry registry = \<lparr>gt_objects = Map.empty, gt_events = [], gt_registry = registry\<rparr>"

definition GroupObjectTable_emit :: "GroupEvent \<Rightarrow> GroupObjectTable \<Rightarrow> GroupObjectTable" where
  "GroupObjectTable_emit e t = t\<lparr>gt_events := gt_events t @ [e]\<rparr>"

definition GroupObjectTable_put :: "GroupObject \<Rightarrow> GroupObjectTable \<Rightarrow> GroupObjectTable" where
  "GroupObjectTable_put ob t = t\<lparr>gt_objects := (gt_objects t)(go_address ob \<mapsto> ob)\<rparr>"

definition GroupObjectTable_add :: "GroupObject \<Rightarrow> GroupObjectTable \<Rightarrow> GroupObjectTable" where
  "GroupObjectTable_add ob t = GroupObjectTable_emit (GE_ObjectCreated (go_address ob)) (GroupObjectTable_put ob t)"

definition GroupObjectTable_create ::
    "instant \<Rightarrow> GroupAddress \<Rightarrow> string \<Rightarrow> DptId \<Rightarrow> GroupObjectTable \<Rightarrow> (GroupObject \<times> GroupObjectTable) KnxResult" where
  "GroupObjectTable_create now address name dpt_id t =
    obind (ok_or (DptRegistry_get (gt_registry t) dpt_id) (InvalidDpt (''Unknown DPT: '' @ DptId_fmt dpt_id))) (\<lambda>codec.
    obind (GroupObject_new now address name codec) (\<lambda>ob.
    Ok (ob, GroupObjectTable_emit (GE_ObjectCreated address) (GroupObjectTable_put ob t))))"

definition GroupObjectTable_remove :: "GroupAddress \<Rightarrow> GroupObjectTable \<Rightarrow> GroupObject option \<times> GroupObjectTable" where
  "GroupObjectTable_remove address t =
    (case gt_objects t address of
       Some ob \<Rightarrow> (Some ob, GroupObjectTable_emit (GE_ObjectRemoved address) (t\<lparr>gt_objects := (gt_objects t)(address := None)\<rparr>))
     | None \<Rightarrow> (None, t))"

definition GroupObjectTable_find :: "GroupAddress \<Rightarrow> GroupObjectTable \<Rightarrow> GroupObject KnxResult" where
  "GroupObjectTable_find address t =
     ok_or (gt_objects t address) (GroupObjectNotFound (GroupAddress_format_three_level address))"

definition GroupObjectTable_read :: "GroupAddress \<Rightarrow> GroupObjectTable \<Rightarrow> bytes KnxResult" where
  "GroupObjectTable_read address t =
    obind (GroupObjectTable_find address t) (\<lambda>ob.
    if \<not> GroupObject_can_read ob then Err (GroupObjectReadNotAllowed (go_name ob)) else Ok (go_value ob))"

definition GroupObjectTable_read_value :: "GroupAddress \<Rightarrow> GroupObjectTable \<Rightarrow> DptValue KnxResult" where
  "GroupObjectTable_read_value address t =
    obind (GroupObjectTable_find address t) (\<lambda>ob.
    if \<not> GroupObject_can_read ob then Err (GroupObjectReadNotAllowed (go_name ob)) else GroupObject_read_value ob)"

definition GroupObjectTable_write ::
    "instant \<Rightarrow> GroupAddress \<Rightarrow> bytes \<Rightarrow> string option \<Rightarrow> GroupObjectTable \<Rightarrow> GroupObjectTable KnxResult" where
  "GroupObjectTable_write now address data source t =
    obind (GroupObjectTable_find address t) (\<lambda>ob.
    obind (GroupObject_write_raw now data ob) (\<lambda>ob.
    Ok (GroupObjectTable_emit (GE_ValueWrite address data source) (t\<lparr>gt_objects := (gt_objects t)(address \<mapsto> ob)\<rparr>))))"

definition GroupObjectTable_write_value ::
    "instant \<Rightarrow> GroupAddress \<Rightarrow> DptValue \<Rightarrow> string option \<Rightarrow> GroupObjectTable \<Rightarrow> GroupObjectTable KnxResult" where
  "GroupObjectTable_write_value now address value source t =
    obind (GroupObjectTable_find address t) (\<lambda>ob.
    obind (GroupObject_write_value now value ob) (\<lambda>ob.
    Ok (GroupObjectTable_emit (GE_ValueWrite address (go_value ob) source)
      (t\<lparr>gt_objects := (gt_objects t)(address \<mapsto> ob)\<rparr>))))"

definition GroupObjectTable_handle_read_request ::
    "GroupAddress \<Rightarrow> string option \<Rightarrow> GroupObjectTable \<Rightarrow> bytes KnxResult \<times> GroupObjectTable" where
  "GroupObjectTable_handle_read_request address source t =
    (let t = GroupObjectTable_emit (GE_ReadRequest address source) t in
     case GroupObjectTable_read address t of
       Ok value \<Rightarrow> (Ok value, GroupObjectTable_emit (GE_ReadResponse address value) t)
     | r \<Rightarrow> (r, t))"


section \<open>The cache\<close>

record CacheEntry =
  ce_address :: GroupAddress
  ce_value :: bytes
  ce_source :: "string option"
  ce_updated_at :: instant
  ce_accessed_at :: instant
  ce_update_count :: nat
  ce_access_count :: nat

definition CacheEntry_new :: "instant \<Rightarrow> GroupAddress \<Rightarrow> bytes \<Rightarrow> string option \<Rightarrow> CacheEntry" where
  "CacheEntry_new now address value source =
     \<lparr>ce_address = address, ce_value = value, ce_source = source, ce_updated_at = now, ce_accessed_at = now,
      ce_update_count = 1, ce_access_count = 0\<rparr>"

definition CacheEntry_is_expired :: "instant \<Rightarrow> CacheEntry \<Rightarrow> duration \<Rightarrow> bool" where
  "CacheEntry_is_expired now e ttl = (if ttl = 0 then False else ttl < now - ce_updated_at e)"

record GroupValueCacheConfig =
  gcc_enabled :: bool
  gcc_max_entries :: usize
  gcc_ttl_ms :: nat
  gcc_auto_update_on_indication :: bool
  gcc_auto_update_on_write :: bool

definition GroupValueCacheConfig_ttl :: "GroupValueCacheConfig \<Rightarrow> duration" where
  "GroupValueCacheConfig_ttl c = gcc_ttl_ms c * 1000"

definition GroupValueCacheConfig_validate :: "GroupValueCacheConfig \<Rightarrow> (string, unit) outcome" where
  "GroupValueCacheConfig_validate c =
    (if gcc_max_entries c = 0 then Err ''GroupValueCache max_entries must be > 0'' else Ok ())"

datatype UpdateSource = US_Write | US_Indication

record GroupValueCache =
  gc_config :: GroupValueCacheConfig
  gc_entries :: "GroupAddress \<rightharpoonup> CacheEntry"

definition GroupValueCache_new :: "GroupValueCacheConfig \<Rightarrow> GroupValueCache" where
  "GroupValueCache_new config = \<lparr>gc_config = config, gc_entries = Map.empty\<rparr>"

definition GroupValueCache_len :: "GroupValueCache \<Rightarrow> usize" where
  "GroupValueCache_len c = card (dom (gc_entries c))"

definition cache_set :: "GroupAddress \<Rightarrow> CacheEntry option \<Rightarrow> GroupValueCache \<Rightarrow> GroupValueCache" where
  "cache_set address e c = c\<lparr>gc_entries := (gc_entries c)(address := e)\<rparr>"

definition cache_touch :: "instant \<Rightarrow> CacheEntry \<Rightarrow> CacheEntry" where
  "cache_touch now e = e\<lparr>ce_accessed_at := now, ce_access_count := ce_access_count e + 1\<rparr>"

definition GroupValueCache_get_entry :: "instant \<Rightarrow> GroupAddress \<Rightarrow> GroupValueCache \<Rightarrow> CacheEntry option \<times> GroupValueCache" where
  "GroupValueCache_get_entry now address c =
    (if \<not> gcc_enabled (gc_config c) then (None, c)
     else case gc_entries c address of
         Some e \<Rightarrow>
           if CacheEntry_is_expired now e (GroupValueCacheConfig_ttl (gc_config c)) then (None, cache_set address None c)
           else (Some (cache_touch now e), cache_set address (Some (cache_touch now e)) c)
       | None \<Rightarrow> (None, c))"

definition GroupValueCache_get :: "instant \<Rightarrow> GroupAddress \<Rightarrow> GroupValueCache \<Rightarrow> bytes option \<times> GroupValueCache" where
  "GroupValueCache_get now address c =
    (if \<not> gcc_enabled (gc_config c) then (None, c)
     else case gc_entries c address of
         Some e \<Rightarrow>
           if CacheEntry_is_expired now e (GroupValueCacheConfig_ttl (gc_config c)) then (None, cache_set address None c)
           else (Some (ce_value e), cache_set address (Some (cache_touch now e)) c)
       | None \<Rightarrow> (None, c))"

text \<open>The least recently used of the entries in the order \<open>ord\<close> of the walk, the first one of equals.\<close>

fun lru_of :: "(GroupAddress \<rightharpoonup> CacheEntry) \<Rightarrow> GroupAddress list \<Rightarrow> GroupAddress option" where
  "lru_of m [] = None"
| "lru_of m (a # ord) =
    (case m a of
       None \<Rightarrow> lru_of m ord
     | Some e \<Rightarrow>
         (case lru_of m ord of
            None \<Rightarrow> Some a
          | Some b \<Rightarrow> (case m b of
                Some e' \<Rightarrow> if ce_accessed_at e' < ce_accessed_at e then Some b else Some a
              | None \<Rightarrow> Some a)))"

definition GroupValueCache_evict_if_needed :: "GroupAddress list \<Rightarrow> GroupValueCache \<Rightarrow> GroupValueCache" where
  "GroupValueCache_evict_if_needed ord c =
    (if GroupValueCache_len c < gcc_max_entries (gc_config c) then c
     else case lru_of (gc_entries c) ord of
         Some address \<Rightarrow> cache_set address None c
       | None \<Rightarrow> c)"

definition GroupValueCache_update :: "instant \<Rightarrow> GroupAddress list \<Rightarrow> GroupAddress \<Rightarrow> bytes \<Rightarrow> string option \<Rightarrow> UpdateSource \<Rightarrow>
    GroupValueCache \<Rightarrow> GroupValueCache" where
  "GroupValueCache_update now ord address value source update_source c =
    (if \<not> gcc_enabled (gc_config c) then c
     else if update_source = US_Write \<and> \<not> gcc_auto_update_on_write (gc_config c) then c
     else if update_source = US_Indication \<and> \<not> gcc_auto_update_on_indication (gc_config c) then c
     else case gc_entries c address of
         Some e \<Rightarrow>
           cache_set address (Some (e\<lparr>ce_value := value, ce_source := source, ce_updated_at := now,
             ce_accessed_at := now, ce_update_count := ce_update_count e + 1\<rparr>)) c
       | None \<Rightarrow> cache_set address (Some (CacheEntry_new now address value source)) (GroupValueCache_evict_if_needed ord c))"

definition GroupValueCache_on_indication ::
    "instant \<Rightarrow> GroupAddress list \<Rightarrow> GroupAddress \<Rightarrow> bytes \<Rightarrow> string option \<Rightarrow> GroupValueCache \<Rightarrow> GroupValueCache" where
  "GroupValueCache_on_indication now ord address value source c =
     GroupValueCache_update now ord address value source US_Indication c"

definition GroupValueCache_on_write ::
    "instant \<Rightarrow> GroupAddress list \<Rightarrow> GroupAddress \<Rightarrow> bytes \<Rightarrow> string option \<Rightarrow> GroupValueCache \<Rightarrow> GroupValueCache" where
  "GroupValueCache_on_write now ord address value source c =
     GroupValueCache_update now ord address value source US_Write c"

definition GroupValueCache_invalidate :: "GroupAddress \<Rightarrow> GroupValueCache \<Rightarrow> bool \<times> GroupValueCache" where
  "GroupValueCache_invalidate address c = (gc_entries c address \<noteq> None, cache_set address None c)"

definition GroupValueCache_invalidate_all :: "GroupValueCache \<Rightarrow> GroupValueCache" where
  "GroupValueCache_invalidate_all c = c\<lparr>gc_entries := Map.empty\<rparr>"

definition GroupValueCache_purge_expired :: "instant \<Rightarrow> GroupAddress list \<Rightarrow> GroupValueCache \<Rightarrow> usize \<times> GroupValueCache" where
  "GroupValueCache_purge_expired now ord c =
    (let ttl = GroupValueCacheConfig_ttl (gc_config c) in
     if ttl = 0 then (0, c)
     else
       let expired = filter (\<lambda>a. case gc_entries c a of Some e \<Rightarrow> CacheEntry_is_expired now e ttl | None \<Rightarrow> False) ord
       in (length expired, fold (\<lambda>a. cache_set a None) expired c))"


section \<open>What a table returns\<close>

text \<open>Operations of clients on a table, and what they leave behind.\<close>

datatype table_op =
    TO_Write instant GroupAddress bytes "string option"
  | TO_WriteValue instant GroupAddress DptValue "string option"
  | TO_ReadRequest GroupAddress "string option"

fun table_step :: "table_op \<Rightarrow> GroupObjectTable \<Rightarrow> GroupObjectTable" where
  "table_step (TO_Write now a data src) t = (case GroupObjectTable_write now a data src t of Ok t' \<Rightarrow> t' | _ \<Rightarrow> t)"
| "table_step (TO_WriteValue now a v src) t = (case GroupObjectTable_write_value now a v src t of Ok t' \<Rightarrow> t' | _ \<Rightarrow> t)"
| "table_step (TO_ReadRequest a src) t = snd (GroupObjectTable_handle_read_request a src t)"

text \<open>The value an object of address \<open>a\<close> with codec \<open>c\<close> should have afterwards.\<close>

fun written :: "GroupAddress \<Rightarrow> DptCodec \<Rightarrow> table_op \<Rightarrow> bytes \<Rightarrow> bytes" where
  "written a c (TO_Write _ b data _) old = (if b = a then data else old)"
| "written a c (TO_WriteValue _ b v _) old = (if b = a then (case dc_encode c v of Ok data \<Rightarrow> data | _ \<Rightarrow> old) else old)"
| "written a c (TO_ReadRequest _ _) old = old"

lemma emit_objects [simp]: "gt_objects (GroupObjectTable_emit e t) = gt_objects t"
  by (simp add: GroupObjectTable_emit_def)

lemma table_step_object:
  assumes "gt_objects t a = Some ob"
  shows "\<exists>ob'. gt_objects (table_step op t) a = Some ob' \<and> go_flags ob' = go_flags ob \<and> go_codec ob' = go_codec ob \<and>
    go_name ob' = go_name ob \<and>
    go_value ob' = (if gf_write (go_flags ob) then written a (go_codec ob) op (go_value ob) else go_value ob)"
proof (cases op)
  case (TO_Write now b data src)
  show ?thesis
  proof (cases "b = a")
    case True
    with TO_Write assms show ?thesis
      by (simp add: GroupObjectTable_write_def GroupObjectTable_find_def GroupObject_write_raw_def)
  next
    case False
    then have "gt_objects (table_step op t) a = gt_objects t a"
      by (cases "gt_objects t b") (auto simp: TO_Write GroupObjectTable_write_def GroupObjectTable_find_def GroupObject_write_raw_def)
    with False TO_Write assms show ?thesis by simp
  qed
next
  case (TO_WriteValue now b v src)
  show ?thesis
  proof (cases "b = a")
    case True
    with TO_WriteValue assms show ?thesis
      by (cases "dc_encode (go_codec ob) v")
        (simp_all add: GroupObjectTable_write_value_def GroupObjectTable_find_def GroupObject_write_value_def)
  next
    case False
    then have "gt_objects (table_step op t) a = gt_objects t a"
      by (auto simp: TO_WriteValue GroupObjectTable_write_value_def obind_eq_Ok_iff split: outcome.splits)
    with False TO_WriteValue assms show ?thesis by simp
  qed
next
  case (TO_ReadRequest b src)
  then show ?thesis
    using assms by (auto simp: GroupObjectTable_handle_read_request_def Let_def split: outcome.splits)
qed

lemma table_run_object:
  assumes "gt_objects t a = Some ob"
  shows "\<exists>ob'. gt_objects (fold table_step ops t) a = Some ob' \<and> go_flags ob' = go_flags ob \<and> go_codec ob' = go_codec ob \<and>
    go_name ob' = go_name ob \<and>
    go_value ob' = (if gf_write (go_flags ob) then fold (written a (go_codec ob)) ops (go_value ob) else go_value ob)"
  using assms
proof (induction ops arbitrary: t ob)
  case (Cons op ops)
  from table_step_object [OF Cons.prems, of op] obtain ob1 where ob1: "gt_objects (table_step op t) a = Some ob1"
    "go_flags ob1 = go_flags ob" "go_codec ob1 = go_codec ob" "go_name ob1 = go_name ob"
    "go_value ob1 = (if gf_write (go_flags ob) then written a (go_codec ob) op (go_value ob) else go_value ob)" by blast
  from Cons.IH [OF ob1(1)] show ?case by (auto simp: ob1(2-5))
qed simp


definition sample_object :: GroupObject where
  "sample_object = \<lparr>go_address = GroupAddress_from_raw 1, go_name = ''Light'', go_description = [], go_codec = Dpt1Switch,
     go_flags = GroupObjectFlags_read_write, go_value = [0], go_last_update = 0\<rparr>"

definition sample_table :: GroupObjectTable where
  "sample_table = GroupObjectTable_add sample_object (GroupObjectTable_with_registry DptRegistry_empty)"


text \<open>A write looks at the write flag only: an object whose communication flag is off still takes values.\<close>

lemma write_ignores_communication:
  assumes "gt_objects t a = Some ob" "gf_write (go_flags ob)" "\<not> gf_communication (go_flags ob)"
  shows "\<not> GroupObject_can_write ob" "\<exists>t'. GroupObjectTable_write now a data src t = Ok t' \<and>
    map_option go_value (gt_objects t' a) = Some data"
  using assms by (simp_all add: GroupObject_can_write_def GroupObjectTable_write_def GroupObjectTable_find_def
      GroupObject_write_raw_def)

definition initial_bytes :: "DptCodec \<Rightarrow> bytes KnxResult" where
  "initial_bytes c = (case dc_encode c (dc_default_value c) of Ok b \<Rightarrow> Ok b | Err _ \<Rightarrow> Ok [] | Panic \<Rightarrow> Panic)"

lemma dpt9_default: "encode_dpt9 (f32_lit 20 1) = Ok 0x07D0"
proof -
  have "f32_lit 20 1 = 0x41A00000" "f32_mul 0x41A00000 0x42C80000 = 0x44FA0000" by (simp_all add: f32_compute Let_def)
  moreover have "f32_as_i32 0x44FA0000 = 2000" "\<not> f32_is_zero 0x41A00000" by (simp_all add: f32_compute Let_def)
  moreover have "dpt9_normalize 2000 0 = Ok (2000, 0)" by (simp add: dpt9_normalize.simps)
  moreover have "dpt9_pack (2000, 0) = 0x07D0" by (simp add: dpt9_pack_def Let_def)
  ultimately show ?thesis by (simp add: encode_dpt9_def f32_literals del: One_nat_def)
qed

lemma initial_bytes_none:
  "initial_bytes Dpt2SwitchControl = Ok []" "initial_bytes Dpt3DimmingControl = Ok []"
  "initial_bytes Dpt3BlindsControl = Ok []" "initial_bytes Dpt5Angle = Ok []" "initial_bytes Dpt5Counter = Ok []"
  "initial_bytes Dpt6Percent = Ok []" "initial_bytes Dpt7Pulses = Ok []" "initial_bytes Dpt8PulsesDiff = Ok []"
  "initial_bytes Dpt9Lux = Ok []" "initial_bytes Dpt9Humidity = Ok []" "initial_bytes Dpt12Counter = Ok []"
  "initial_bytes Dpt13Counter = Ok []" "initial_bytes Dpt14Float = Ok []" "initial_bytes Dpt17Scene = Ok []"
  "initial_bytes Dpt18SceneControl = Ok []" "initial_bytes Dpt20HvacMode = Ok []" "initial_bytes Dpt232Rgb = Ok []"
  by (simp_all add: initial_bytes_def dpt_codecs DptValue_default_def Let_def)

lemma initial_bytes_some:
  "initial_bytes Dpt1Switch = Ok [0]" "initial_bytes Dpt1Bool = Ok [0]" "initial_bytes Dpt1UpDown = Ok [0]"
  "\<exists>b. initial_bytes Dpt5Scaling = Ok [b]" "initial_bytes Dpt9Temperature = Ok (u16_to_be 0x07D0)"
  "initial_bytes Dpt16String = Ok (replicate 14 0)"
  by (simp_all add: initial_bytes_def dpt_codecs DptValue_default_def Let_def dpt9_default string_bytes_def del: One_nat_def)

lemma initial_bytes_standard:
  assumes "c \<in> set standard_types"
  shows "\<exists>b. initial_bytes c = Ok b \<and>
    (dc_size c \<le> length b \<longleftrightarrow> dc_size c = 0 \<or> dc_id c \<in> {DptId_new 5 1, DptId_new 9 1, DptId_new 16 1})"
  using assms initial_bytes_some(4) unfolding standard_types_def
  by (simp, elim disjE; elim exE; simp add: initial_bytes_none initial_bytes_some dpt_sizes dpt_id_of DptId_new_def)

text \<open>
  Most datapoint types start unreadable. A new object holds the encoding of its codec's default value; the default
  of the trait is a boolean, which all but the boolean codecs refuse, so the object starts with no bytes. Only the
  types without a size, percentages, temperatures and text can be read before the first write.
\<close>
theorem fresh_object_readable_iff:
  assumes "DptRegistry_get DptRegistry_new dpt_id = Some c"
  shows "\<exists>ob. GroupObject_new now a name c = Ok ob \<and>
    ((\<exists>v. GroupObject_read_value ob = Ok v) \<longleftrightarrow>
      dc_size c = 0 \<or> dc_id c \<in> {DptId_new 5 1, DptId_new 9 1, DptId_new 16 1})"
proof -
  note c = standard_codec(1) [OF assms]
  from initial_bytes_standard [OF c] obtain b where b: "initial_bytes c = Ok b"
    "dc_size c \<le> length b \<longleftrightarrow> dc_size c = 0 \<or> dc_id c \<in> {DptId_new 5 1, DptId_new 9 1, DptId_new 16 1}" by blast
  have "(\<exists>v. dc_decode c b = Ok v) \<longleftrightarrow> dc_size c \<le> length b"
    using standard_decodes [OF c, of b] by (auto simp: decodes_def split: if_splits)
  then show ?thesis using b by (simp add: GroupObject_new_def initial_bytes_def GroupObject_read_value_def)
qed

theorem fresh_object_readable_iff_witness:
  "\<exists>ob. GroupObject_new 0 (GroupAddress_from_raw 1) ''Pulses'' Dpt7Pulses = Ok ob \<and> \<not> (\<exists>v. GroupObject_read_value ob = Ok v)"
  using fresh_object_readable_iff [OF registry_knows_7_1, of 0 "GroupAddress_from_raw 1" "''Pulses''"]
  by (auto simp: dpt_sizes dpt_id_of dpt_ids)


section \<open>What the cache returns\<close>

lemma cache_set_simps [simp]:
  "gc_config (cache_set a e c) = gc_config c"
  "gc_entries (cache_set a e c) b = (if b = a then e else gc_entries c b)"
  by (simp_all add: cache_set_def)

lemma evict_simps [simp]: "gc_config (GroupValueCache_evict_if_needed ord c) = gc_config c"
  by (simp add: GroupValueCache_evict_if_needed_def split: option.split)

lemma evict_entries: "gc_entries (GroupValueCache_evict_if_needed ord c) b = Some e \<Longrightarrow> gc_entries c b = Some e"
  by (auto simp: GroupValueCache_evict_if_needed_def split: if_splits option.splits)

datatype cache_op =
    CO_Update instant "GroupAddress list" GroupAddress bytes "string option" UpdateSource
  | CO_Get instant GroupAddress
  | CO_GetEntry instant GroupAddress
  | CO_Invalidate GroupAddress
  | CO_InvalidateAll
  | CO_Purge instant "GroupAddress list"

fun cache_step :: "cache_op \<Rightarrow> GroupValueCache \<Rightarrow> GroupValueCache" where
  "cache_step (CO_Update now ord a v src us) c = GroupValueCache_update now ord a v src us c"
| "cache_step (CO_Get now a) c = snd (GroupValueCache_get now a c)"
| "cache_step (CO_GetEntry now a) c = snd (GroupValueCache_get_entry now a c)"
| "cache_step (CO_Invalidate a) c = snd (GroupValueCache_invalidate a c)"
| "cache_step CO_InvalidateAll c = GroupValueCache_invalidate_all c"
| "cache_step (CO_Purge now ord) c = snd (GroupValueCache_purge_expired now ord c)"

text \<open>The last update of an address that the configuration lets through: its time and value.\<close>

definition accepts :: "GroupValueCacheConfig \<Rightarrow> UpdateSource \<Rightarrow> bool" where
  "accepts cfg us \<longleftrightarrow> gcc_enabled cfg \<and>
     (case us of US_Write \<Rightarrow> gcc_auto_update_on_write cfg | US_Indication \<Rightarrow> gcc_auto_update_on_indication cfg)"

fun noted :: "GroupValueCacheConfig \<Rightarrow> GroupAddress \<Rightarrow> cache_op \<Rightarrow> (instant \<times> bytes) option \<Rightarrow> (instant \<times> bytes) option" where
  "noted cfg a (CO_Update now ord b v src us) old = (if b = a \<and> accepts cfg us then Some (now, v) else old)"
| "noted cfg a _ old = old"

definition tracks :: "GroupValueCache \<Rightarrow> GroupAddress \<Rightarrow> (instant \<times> bytes) option \<Rightarrow> bool" where
  "tracks c a h \<longleftrightarrow> (\<forall>e. gc_entries c a = Some e \<longrightarrow> h = Some (ce_updated_at e, ce_value e))"

lemma purge_entries: "gc_entries (fold (\<lambda>a. cache_set a None) xs c) b = (if b \<in> set xs then None else gc_entries c b)"
  by (induction xs arbitrary: c) simp_all

lemma purge_config: "gc_config (fold (\<lambda>a. cache_set a None) xs c) = gc_config c"
  by (induction xs arbitrary: c) simp_all

lemma cache_step_config [simp]: "gc_config (cache_step op c) = gc_config c"
  by (cases op) (auto simp: GroupValueCache_update_def GroupValueCache_get_def GroupValueCache_get_entry_def
      GroupValueCache_invalidate_def GroupValueCache_invalidate_all_def GroupValueCache_purge_expired_def purge_config Let_def
      split: option.split)

lemma cache_update_tracks:
  assumes "tracks c a h"
  shows "tracks (GroupValueCache_update now ord b v src us c) a (if b = a \<and> accepts (gc_config c) us then Some (now, v) else h)"
proof (cases "accepts (gc_config c) us")
  case True
  then have upd: "GroupValueCache_update now ord b v src us c = (case gc_entries c b of
      Some e \<Rightarrow> cache_set b (Some (e\<lparr>ce_value := v, ce_source := src, ce_updated_at := now, ce_accessed_at := now,
        ce_update_count := ce_update_count e + 1\<rparr>)) c
    | None \<Rightarrow> cache_set b (Some (CacheEntry_new now b v src)) (GroupValueCache_evict_if_needed ord c))"
    by (cases us) (simp_all add: GroupValueCache_update_def accepts_def)
  show ?thesis
  proof (cases "b = a")
    case True
    then show ?thesis
      using \<open>accepts (gc_config c) us\<close> unfolding upd by (simp add: tracks_def CacheEntry_new_def split: option.split)
  next
    case False
    then show ?thesis using assms evict_entries [of ord c a] unfolding upd by (auto simp: tracks_def split: option.split)
  qed
next
  case False
  then have "GroupValueCache_update now ord b v src us c = c"
    by (cases us) (auto simp: GroupValueCache_update_def accepts_def)
  then show ?thesis using False assms by simp
qed

lemma cache_step_tracks:
  assumes "tracks c a h"
  shows "tracks (cache_step op c) a (noted (gc_config c) a op h)"
proof (cases op)
  case (CO_Update now ord b v src us)
  then show ?thesis using cache_update_tracks [OF assms] by simp
next
  case (CO_Get now b)
  with assms show ?thesis
    by (auto simp: tracks_def GroupValueCache_get_def cache_touch_def split: option.split)
next
  case (CO_GetEntry now b)
  with assms show ?thesis
    by (auto simp: tracks_def GroupValueCache_get_entry_def cache_touch_def split: option.split)
next
  case (CO_Invalidate b)
  with assms show ?thesis by (simp add: tracks_def GroupValueCache_invalidate_def)
next
  case CO_InvalidateAll
  then show ?thesis by (simp add: tracks_def GroupValueCache_invalidate_all_def)
next
  case (CO_Purge now ord)
  with assms show ?thesis by (simp add: tracks_def GroupValueCache_purge_expired_def purge_entries Let_def)
qed

lemma cache_run_tracks: "tracks c a h \<Longrightarrow> tracks (fold cache_step ops c) a (fold (noted (gc_config c) a) ops h)"
proof (induction ops arbitrary: c h)
  case (Cons op ops)
  from Cons.IH [OF cache_step_tracks [OF Cons.prems]] show ?case by simp
qed simp

text \<open>
  C31. The cache never returns a wrong or stale value. After any sequence of updates, lookups, invalidations and purges
  a lookup that finds an address returns the value of the last update of this address that the configuration lets
  through, and that update is not older than the time to live.
\<close>
theorem cache_get_sound:
  assumes "fst (GroupValueCache_get now a (fold cache_step ops (GroupValueCache_new cfg))) = Some v"
  shows "\<exists>t. fold (noted cfg a) ops None = Some (t, v) \<and> (gcc_ttl_ms cfg = 0 \<or> now - t \<le> gcc_ttl_ms cfg * 1000)"
proof -
  let ?c = "fold cache_step ops (GroupValueCache_new cfg)"
  have cfg: "gc_config ?c = cfg"
    by (induction ops rule: rev_induct) (simp_all add: GroupValueCache_new_def)
  have "tracks (GroupValueCache_new cfg) a None" by (simp add: tracks_def GroupValueCache_new_def)
  from cache_run_tracks [OF this, of ops] have tr: "tracks ?c a (fold (noted cfg a) ops None)"
    by (simp add: GroupValueCache_new_def)
  from assms obtain e where "gc_entries ?c a = Some e" "v = ce_value e"
    "\<not> CacheEntry_is_expired now e (GroupValueCacheConfig_ttl cfg)"
    by (auto simp: GroupValueCache_get_def cfg split: if_splits option.splits)
  with tr show ?thesis
    by (auto simp: tracks_def CacheEntry_is_expired_def GroupValueCacheConfig_ttl_def not_less split: if_splits)
qed

definition sample_cache_config :: GroupValueCacheConfig where
  "sample_cache_config = \<lparr>gcc_enabled = True, gcc_max_entries = 1, gcc_ttl_ms = 2, gcc_auto_update_on_indication = True,
     gcc_auto_update_on_write = False\<rparr>"

lemma sample_cache_update:
  "GroupValueCache_update t [] a v src US_Indication (GroupValueCache_new sample_cache_config) =
     cache_set a (Some (CacheEntry_new t a v src)) (GroupValueCache_new sample_cache_config)"
  by (simp add: GroupValueCache_update_def GroupValueCache_evict_if_needed_def GroupValueCache_len_def GroupValueCache_new_def
      sample_cache_config_def)

theorem cache_get_sound_witness:
  "\<exists>t. fold (noted sample_cache_config (GroupAddress_from_raw 1))
      [CO_Update 10 [] (GroupAddress_from_raw 1) [7] None US_Indication,
       CO_Update 20 [] (GroupAddress_from_raw 1) [8] None US_Write] None = Some (t, [7]) \<and>
    (gcc_ttl_ms sample_cache_config = 0 \<or> 2010 - t \<le> gcc_ttl_ms sample_cache_config * 1000)"
proof -
  let ?a = "GroupAddress_from_raw 1" and ?c = "GroupValueCache_new sample_cache_config"
  let ?d = "cache_set ?a (Some (CacheEntry_new 10 ?a [7] None)) ?c"
  have cfg: "gc_config ?d = sample_cache_config" by (simp add: GroupValueCache_new_def)
  have "GroupValueCache_update 20 [] ?a [8] None US_Write ?d = ?d"
    unfolding GroupValueCache_update_def cfg by (simp add: sample_cache_config_def)
  then have run: "fold cache_step [CO_Update 10 [] ?a [7] None US_Indication, CO_Update 20 [] ?a [8] None US_Write] ?c = ?d"
    by (simp add: sample_cache_update)
  have "fst (GroupValueCache_get 2010 ?a ?d) = Some [7]"
    unfolding GroupValueCache_get_def cfg
    by (simp add: CacheEntry_new_def CacheEntry_is_expired_def GroupValueCacheConfig_ttl_def sample_cache_config_def)
  then show ?thesis by (intro cache_get_sound) (simp only: run)
qed


section \<open>Capacity and eviction\<close>

lemma lru_of_None: "lru_of m ord = None \<longleftrightarrow> (\<forall>a \<in> set ord. m a = None)"
  by (induction ord) (auto split: option.splits)

lemma lru_of_Some:
  "lru_of m ord = Some a \<Longrightarrow>
   \<exists>e. m a = Some e \<and> a \<in> set ord \<and> (\<forall>b e'. b \<in> set ord \<longrightarrow> m b = Some e' \<longrightarrow> ce_accessed_at e \<le> ce_accessed_at e')"
proof (induction ord arbitrary: a)
  case (Cons x ord)
  show ?case
  proof (cases "m x")
    case None
    with Cons.prems have "lru_of m ord = Some a" by simp
    from Cons.IH [OF this] None show ?thesis by auto
  next
    case (Some e)
    show ?thesis
    proof (cases "lru_of m ord")
      case None
      then have "\<forall>b \<in> set ord. m b = None" by (simp add: lru_of_None)
      with Cons.prems Some None show ?thesis by auto
    next
      case (Some b)
      from Cons.IH [OF Some] obtain e' where e': "m b = Some e'" "b \<in> set ord"
        "\<And>z e''. z \<in> set ord \<Longrightarrow> m z = Some e'' \<Longrightarrow> ce_accessed_at e' \<le> ce_accessed_at e''" by blast
      show ?thesis
      proof (cases "ce_accessed_at e' < ce_accessed_at e")
        case True
        with Cons.prems \<open>m x = Some e\<close> Some e'(1) have a: "a = b" by simp
        have "ce_accessed_at e' \<le> ce_accessed_at e''" if "z \<in> set (x # ord)" "m z = Some e''" for z e''
          using that True e'(3) [of z e''] \<open>m x = Some e\<close> by (cases "z = x") simp_all
        then show ?thesis using e'(1,2) unfolding a by (intro exI [of _ e']) simp
      next
        case False
        with Cons.prems \<open>m x = Some e\<close> Some e'(1) have a: "a = x" by simp
        have "ce_accessed_at e \<le> ce_accessed_at e''" if "z \<in> set (x # ord)" "m z = Some e''" for z e''
        proof (cases "z = x")
          case True
          with that \<open>m x = Some e\<close> show ?thesis by simp
        next
          case z: False
          with that have "ce_accessed_at e' \<le> ce_accessed_at e''" using e'(3) [of z e''] by simp
          with False show ?thesis by simp
        qed
        then show ?thesis using \<open>m x = Some e\<close> unfolding a by (intro exI [of _ e]) simp
      qed
    qed
  qed
qed simp

lemma cache_update_cases:
  obtains (same) "dom (gc_entries (GroupValueCache_update now ord a v src us c)) = dom (gc_entries c)"
  | (fresh) "gc_entries c a = None"
      "dom (gc_entries (GroupValueCache_update now ord a v src us c)) =
        insert a (dom (gc_entries (GroupValueCache_evict_if_needed ord c)))"
proof (cases "accepts (gc_config c) us")
  case True
  then have upd: "GroupValueCache_update now ord a v src us c = (case gc_entries c a of
      Some e \<Rightarrow> cache_set a (Some (e\<lparr>ce_value := v, ce_source := src, ce_updated_at := now, ce_accessed_at := now,
        ce_update_count := ce_update_count e + 1\<rparr>)) c
    | None \<Rightarrow> cache_set a (Some (CacheEntry_new now a v src)) (GroupValueCache_evict_if_needed ord c))"
    by (cases us) (simp_all add: GroupValueCache_update_def accepts_def)
  show thesis
  proof (cases "gc_entries c a")
    case None
    then show thesis by (intro fresh) (auto simp: upd dom_def)
  next
    case (Some e)
    then show thesis by (intro same) (auto simp: upd dom_def)
  qed
next
  case False
  then have "GroupValueCache_update now ord a v src us c = c"
    by (cases us) (auto simp: GroupValueCache_update_def accepts_def)
  then show thesis by (intro same) simp
qed

lemma evict_cases:
  assumes "0 < gcc_max_entries (gc_config c)" "set ord = dom (gc_entries c)"
  obtains (room) "GroupValueCache_len c < gcc_max_entries (gc_config c)" "GroupValueCache_evict_if_needed ord c = c"
  | (full) b e where "gcc_max_entries (gc_config c) \<le> GroupValueCache_len c" "gc_entries c b = Some e"
      "dom (gc_entries (GroupValueCache_evict_if_needed ord c)) = dom (gc_entries c) - {b}"
      "\<And>b' e'. gc_entries c b' = Some e' \<Longrightarrow> ce_accessed_at e \<le> ce_accessed_at e'"
proof (cases "GroupValueCache_len c < gcc_max_entries (gc_config c)")
  case True
  then show thesis by (intro room) (simp_all add: GroupValueCache_evict_if_needed_def)
next
  case False
  with assms(1) have "dom (gc_entries c) \<noteq> {}" by (auto simp: GroupValueCache_len_def)
  then obtain b where b: "lru_of (gc_entries c) ord = Some b"
    using lru_of_None [of "gc_entries c" ord] assms(2) by (cases "lru_of (gc_entries c) ord") auto
  from lru_of_Some [OF this] assms(2) obtain e where e: "gc_entries c b = Some e"
    "\<And>b' e'. gc_entries c b' = Some e' \<Longrightarrow> ce_accessed_at e \<le> ce_accessed_at e'" by blast
  have "GroupValueCache_evict_if_needed ord c = cache_set b None c"
    using False b by (simp add: GroupValueCache_evict_if_needed_def)
  then have "dom (gc_entries (GroupValueCache_evict_if_needed ord c)) = dom (gc_entries c) - {b}" by (auto simp: dom_def)
  then show thesis using False e by (intro full) auto
qed

text \<open>
  C39. Updating keeps the capacity and evicts a least recently used entry. If the cache holds at most its maximum of
  entries, at least one, then so it does after an update; an update removes at most one entry, and only if the cache
  is full, the address is new, and no other entry was accessed earlier.
\<close>
theorem cache_update_lru:
  assumes "0 < gcc_max_entries (gc_config c)" "GroupValueCache_len c \<le> gcc_max_entries (gc_config c)"
    and "set ord = dom (gc_entries c)" "c' = GroupValueCache_update now ord a v src us c"
  shows "GroupValueCache_len c' \<le> gcc_max_entries (gc_config c) \<and>
    (dom (gc_entries c) \<subseteq> dom (gc_entries c') \<or>
      (\<exists>b e. dom (gc_entries c) - dom (gc_entries c') = {b} \<and> gc_entries c b = Some e \<and>
        GroupValueCache_len c = gcc_max_entries (gc_config c) \<and> gc_entries c a = None \<and>
        (\<forall>b' e'. gc_entries c b' = Some e' \<longrightarrow> ce_accessed_at e \<le> ce_accessed_at e')))"
proof -
  let ?max = "gcc_max_entries (gc_config c)" and ?d = "dom (gc_entries c)"
  have fin: "finite ?d" using finite_set [of ord] unfolding assms(3) .
  show ?thesis
  proof (cases rule: cache_update_cases [of now ord a v src us c])
    case same
    then show ?thesis using assms(2,4) by (simp add: GroupValueCache_len_def)
  next
    case fresh
    note dom = fresh(2) [folded assms(4)]
    from assms(1,3) show ?thesis
    proof (cases rule: evict_cases)
      case room
      then have "card (dom (gc_entries c')) \<le> Suc (card ?d)" using dom fin by (simp add: card_insert_if)
      then show ?thesis using room dom by (simp add: GroupValueCache_len_def) blast
    next
      case (full b e)
      have "b \<in> ?d" using full(2) by blast
      then have "card (?d - {b}) < card ?d" using fin by (intro psubset_card_mono) auto
      then have "card (dom (gc_entries c')) \<le> card ?d" using dom full(3) fin by (simp add: card_insert_if)
      moreover have "?d - dom (gc_entries c') = {b}"
        using dom full(3) fresh(1) \<open>b \<in> ?d\<close> by auto
      moreover have "card ?d = ?max" using full(1) assms(2) by (simp add: GroupValueCache_len_def)
      ultimately have "GroupValueCache_len c' \<le> ?max" "GroupValueCache_len c = ?max" by (simp_all add: GroupValueCache_len_def)
      then show ?thesis using full(2,4) fresh(1) \<open>?d - dom (gc_entries c') = {b}\<close> by blast
    qed
  qed
qed

definition sample_cache :: GroupValueCache where
  "sample_cache = GroupValueCache_update 5 [] (GroupAddress_from_raw 1) [7] None US_Indication (GroupValueCache_new sample_cache_config)"

theorem cache_update_lru_witness:
  "GroupValueCache_len (GroupValueCache_update 9 [GroupAddress_from_raw 1] (GroupAddress_from_raw 2) [8] None US_Indication sample_cache) \<le> 1"
proof -
  have cfg: "gc_config sample_cache = sample_cache_config" and dom: "dom (gc_entries sample_cache) = {GroupAddress_from_raw 1}"
    unfolding sample_cache_def sample_cache_update by (auto simp: GroupValueCache_new_def cache_set_def)
  have max: "gcc_max_entries (gc_config sample_cache) = 1" by (simp add: cfg sample_cache_config_def)
  have "GroupValueCache_len sample_cache \<le> gcc_max_entries (gc_config sample_cache)"
    by (simp add: max GroupValueCache_len_def dom)
  moreover have "set [GroupAddress_from_raw 1] = dom (gc_entries sample_cache)" by (simp add: dom)
  ultimately show ?thesis using cache_update_lru [OF _ _ _ refl, of sample_cache] by (simp add: max)
qed

end
