(* ===== verification/Knx_Monitor.thy ===== *)
theory Knx_Monitor
  imports Knx_Flow
begin

text \<open>
  Two monitors of the KNX server: the scheduler that decides how heartbeats are answered,
  \<^verbatim>\<open>mabi-knx/src/heartbeat.rs\<close>, and the tracker of send errors, \<^verbatim>\<open>error_tracker.rs\<close>. The heartbeat counters are
  32-bit and wrap; the addition of one in the periodic schedule is checked and so is its remainder. The outcome of
  the random draw is an argument, true if the number drawn is below the probability. The comparison of an error
  rate with its threshold, a floating point division, is a predicate of the configuration. Statistics are left out.

  The lemmas give the action of every heartbeat in closed form, say when the periodic schedule panics, and show that
  a run of errors is reported once, when it reaches the threshold, and that old successes hide new failures.
\<close>

section \<open>Heartbeats\<close>

datatype HeartbeatAction = HA_Continue | HA_ImmediateReconnect | HA_AbandonTunnel | HA_DelayedReconnect | HA_NoResponse

fun HeartbeatAction_status_code :: "HeartbeatAction \<Rightarrow> u8 option" where
  "HeartbeatAction_status_code HA_Continue = Some 0x00"
| "HeartbeatAction_status_code HA_ImmediateReconnect = Some 0x21"
| "HeartbeatAction_status_code HA_AbandonTunnel = Some 0x27"
| "HeartbeatAction_status_code HA_DelayedReconnect = Some 0x29"
| "HeartbeatAction_status_code HA_NoResponse = None"

definition HeartbeatAction_from_status_code :: "u8 \<Rightarrow> HeartbeatAction" where
  "HeartbeatAction_from_status_code code =
    (if code = 0x00 then HA_Continue
     else if code = 0x21 then HA_ImmediateReconnect
     else if code = 0x27 then HA_AbandonTunnel
     else if code = 0x29 then HA_DelayedReconnect
     else HA_Continue)"

datatype HeartbeatSchedule =
    HS_Normal
  | HS_Override HeartbeatAction
  | HS_Sequence "HeartbeatAction list"
  | HS_Periodic HeartbeatAction u32
  | HS_Probabilistic HeartbeatAction
  | HS_CountdownToFailure HeartbeatAction u32

fun HeartbeatSchedule_validate :: "HeartbeatSchedule \<Rightarrow> (string, unit) outcome" where
  "HeartbeatSchedule_validate (HS_Sequence actions) =
    (if actions = [] then Err ''HeartbeatSchedule::Sequence requires at least one action'' else Ok ())"
| "HeartbeatSchedule_validate (HS_Periodic _ interval) =
    (if interval = 0 then Err ''HeartbeatSchedule::Periodic interval must be > 0'' else Ok ())"
| "HeartbeatSchedule_validate (HS_CountdownToFailure _ countdown) =
    (if countdown = 0 then Err ''HeartbeatSchedule::CountdownToFailure countdown must be > 0'' else Ok ())"
| "HeartbeatSchedule_validate _ = Ok ()"

record HeartbeatScheduler =
  hs_schedule :: HeartbeatSchedule
  hs_counter :: u32
  hs_sequence_index :: u32

definition HeartbeatScheduler_new :: "HeartbeatSchedule \<Rightarrow> HeartbeatScheduler" where
  "HeartbeatScheduler_new schedule = \<lparr>hs_schedule = schedule, hs_counter = 0, hs_sequence_index = 0\<rparr>"

definition HeartbeatScheduler_set_schedule :: "HeartbeatSchedule \<Rightarrow> HeartbeatScheduler \<Rightarrow> HeartbeatScheduler" where
  "HeartbeatScheduler_set_schedule schedule s = s\<lparr>hs_schedule := schedule, hs_counter := 0, hs_sequence_index := 0\<rparr>"

definition HeartbeatScheduler_reset :: "HeartbeatScheduler \<Rightarrow> HeartbeatScheduler" where
  "HeartbeatScheduler_reset s = s\<lparr>hs_counter := 0, hs_sequence_index := 0\<rparr>"

definition HeartbeatScheduler_next_action ::
    "bool \<Rightarrow> HeartbeatScheduler \<Rightarrow> ('e, HeartbeatAction \<times> HeartbeatScheduler) outcome" where
  "HeartbeatScheduler_next_action draw s =
    (let count = hs_counter s; s = s\<lparr>hs_counter := count + 1\<rparr> in
     case hs_schedule s of
       HS_Normal \<Rightarrow> Ok (HA_Continue, s)
     | HS_Override action \<Rightarrow> Ok (action, s)
     | HS_Sequence actions \<Rightarrow>
         let i = unat (hs_sequence_index s); s = s\<lparr>hs_sequence_index := hs_sequence_index s + 1\<rparr> in
         if i < length actions then Ok (actions ! i, s)
         else Ok (if actions = [] then HA_Continue else last actions, s)
     | HS_Periodic action interval \<Rightarrow>
         if unat count + 1 = 2 ^ 32 \<or> interval = 0 then Panic
         else Ok (if (unat count + 1) mod unat interval = 0 then action else HA_Continue, s)
     | HS_Probabilistic action \<Rightarrow> Ok (if draw then action else HA_Continue, s)
     | HS_CountdownToFailure action countdown \<Rightarrow> Ok (if countdown \<le> count then action else HA_Continue, s))"


section \<open>Send errors\<close>

datatype ErrorCategory =
    EC_SendFailure | EC_AckError | EC_AckTimeout | EC_ConfirmationNack | EC_ConfirmationTimeout | EC_FlowControlDrop

record ErrorEvent =
  ee_timestamp :: instant
  ee_category :: ErrorCategory

record ChannelErrorState =
  es_consecutive_errors :: nat
  es_recent_errors :: "ErrorEvent list"
  es_total_successes :: nat
  es_total_failures :: nat
  es_last_success_at :: "instant option"
  es_last_error_at :: "instant option"
  es_restart_triggered :: bool

definition ChannelErrorState_new :: ChannelErrorState where
  "ChannelErrorState_new =
     \<lparr>es_consecutive_errors = 0, es_recent_errors = [], es_total_successes = 0, es_total_failures = 0,
      es_last_success_at = None, es_last_error_at = None, es_restart_triggered = False\<rparr>"

definition ChannelErrorState_record_success :: "instant \<Rightarrow> ChannelErrorState \<Rightarrow> ChannelErrorState" where
  "ChannelErrorState_record_success now s =
     s\<lparr>es_consecutive_errors := 0, es_total_successes := es_total_successes s + 1, es_last_success_at := Some now,
       es_restart_triggered := False\<rparr>"

definition ChannelErrorState_record_failure :: "instant \<Rightarrow> ErrorCategory \<Rightarrow> ChannelErrorState \<Rightarrow> ChannelErrorState" where
  "ChannelErrorState_record_failure now category s =
     s\<lparr>es_consecutive_errors := es_consecutive_errors s + 1, es_total_failures := es_total_failures s + 1,
       es_last_error_at := Some now,
       es_recent_errors := es_recent_errors s @ [\<lparr>ee_timestamp = now, ee_category = category\<rparr>]\<rparr>"

text \<open>An event is older than the window if its time lies before \<open>now - window\<close>.\<close>

definition ChannelErrorState_prune_old_events :: "instant \<Rightarrow> duration \<Rightarrow> ChannelErrorState \<Rightarrow> ChannelErrorState" where
  "ChannelErrorState_prune_old_events now window s =
     s\<lparr>es_recent_errors := dropWhile (\<lambda>e. ee_timestamp e + window < now) (es_recent_errors s)\<rparr>"

definition ChannelErrorState_window_error_count :: "instant \<Rightarrow> duration \<Rightarrow> ChannelErrorState \<Rightarrow> usize" where
  "ChannelErrorState_window_error_count now window s =
     length (filter (\<lambda>e. now \<le> ee_timestamp e + window) (es_recent_errors s))"

definition ChannelErrorState_reset :: "ChannelErrorState \<Rightarrow> ChannelErrorState" where
  "ChannelErrorState_reset s = s\<lparr>es_consecutive_errors := 0, es_recent_errors := [], es_restart_triggered := False\<rparr>"

record SendErrorTrackerConfig =
  tc_enabled :: bool
  tc_consecutive_threshold :: nat
  tc_window_ms :: nat
  tc_rate_exceeds :: "nat \<Rightarrow> nat \<Rightarrow> bool"
  tc_min_events_for_rate :: nat

datatype TrackingResult =
    TR_Recorded
  | TR_ConsecutiveThresholdExceeded nat nat
  | TR_RateThresholdExceeded usize nat

record SendErrorTracker =
  et_config :: SendErrorTrackerConfig
  et_channels :: "u8 \<rightharpoonup> ChannelErrorState"

definition SendErrorTracker_new :: "SendErrorTrackerConfig \<Rightarrow> SendErrorTracker" where
  "SendErrorTracker_new config = \<lparr>et_config = config, et_channels = Map.empty\<rparr>"

definition SendErrorTracker_ensure_channel :: "u8 \<Rightarrow> SendErrorTracker \<Rightarrow> ChannelErrorState" where
  "SendErrorTracker_ensure_channel channel_id t =
    (case et_channels t channel_id of Some s \<Rightarrow> s | None \<Rightarrow> ChannelErrorState_new)"

definition SendErrorTracker_on_send_success :: "instant \<Rightarrow> u8 \<Rightarrow> SendErrorTracker \<Rightarrow> SendErrorTracker" where
  "SendErrorTracker_on_send_success now channel_id t =
    (if \<not> tc_enabled (et_config t) then t
     else t\<lparr>et_channels := (et_channels t)(channel_id \<mapsto>
       ChannelErrorState_record_success now (SendErrorTracker_ensure_channel channel_id t))\<rparr>)"

text \<open>What a failure does to the state of its channel.\<close>

definition tracked_failure :: "SendErrorTrackerConfig \<Rightarrow> instant \<Rightarrow> ErrorCategory \<Rightarrow> ChannelErrorState \<Rightarrow>
    TrackingResult \<times> ChannelErrorState" where
  "tracked_failure c now category s =
    (let window = tc_window_ms c * 1000;
         s = ChannelErrorState_prune_old_events now window (ChannelErrorState_record_failure now category s)
     in if tc_consecutive_threshold c \<le> es_consecutive_errors s \<and> \<not> es_restart_triggered s
        then (TR_ConsecutiveThresholdExceeded (es_consecutive_errors s) (tc_consecutive_threshold c),
              s\<lparr>es_restart_triggered := True\<rparr>)
        else
          let total_in_window = es_total_successes s + es_total_failures s;
              error_count = ChannelErrorState_window_error_count now window s
          in if tc_min_events_for_rate c \<le> total_in_window \<and> 0 < total_in_window \<and>
                tc_rate_exceeds c error_count total_in_window
             then (TR_RateThresholdExceeded error_count (tc_window_ms c), s)
             else (TR_Recorded, s))"

definition SendErrorTracker_on_send_failure ::
    "instant \<Rightarrow> u8 \<Rightarrow> ErrorCategory \<Rightarrow> SendErrorTracker \<Rightarrow> TrackingResult \<times> SendErrorTracker" where
  "SendErrorTracker_on_send_failure now channel_id category t =
    (if \<not> tc_enabled (et_config t) then (TR_Recorded, t)
     else
       let (result, s) = tracked_failure (et_config t) now category (SendErrorTracker_ensure_channel channel_id t)
       in (result, t\<lparr>et_channels := (et_channels t)(channel_id \<mapsto> s)\<rparr>))"

definition SendErrorTracker_reset_channel :: "u8 \<Rightarrow> SendErrorTracker \<Rightarrow> SendErrorTracker" where
  "SendErrorTracker_reset_channel channel_id t =
    (case et_channels t channel_id of
       Some s \<Rightarrow> t\<lparr>et_channels := (et_channels t)(channel_id \<mapsto> ChannelErrorState_reset s)\<rparr>
     | None \<Rightarrow> t)"

definition SendErrorTracker_remove_channel :: "u8 \<Rightarrow> SendErrorTracker \<Rightarrow> SendErrorTracker" where
  "SendErrorTracker_remove_channel channel_id t = t\<lparr>et_channels := (et_channels t)(channel_id := None)\<rparr>"


section \<open>The action of every heartbeat\<close>

text \<open>The number of the heartbeat counts from zero.\<close>

fun scheduled :: "HeartbeatSchedule \<Rightarrow> nat \<Rightarrow> bool \<Rightarrow> HeartbeatAction" where
  "scheduled HS_Normal k draw = HA_Continue"
| "scheduled (HS_Override action) k draw = action"
| "scheduled (HS_Sequence actions) k draw = actions ! min k (length actions - 1)"
| "scheduled (HS_Periodic action interval) k draw = (if unat interval dvd k + 1 then action else HA_Continue)"
| "scheduled (HS_Probabilistic action) k draw = (if draw then action else HA_Continue)"
| "scheduled (HS_CountdownToFailure action countdown) k draw = (if unat countdown \<le> k then action else HA_Continue)"

fun heartbeats :: "HeartbeatScheduler \<Rightarrow> bool list \<Rightarrow> (unit, HeartbeatAction list \<times> HeartbeatScheduler) outcome" where
  "heartbeats s [] = Ok ([], s)"
| "heartbeats s (draw # draws) =
    obind (HeartbeatScheduler_next_action draw s) (\<lambda>(a, s).
    obind (heartbeats s draws) (\<lambda>(as, s). Ok (a # as, s)))"

definition at_heartbeat :: "HeartbeatSchedule \<Rightarrow> nat \<Rightarrow> HeartbeatScheduler \<Rightarrow> bool" where
  "at_heartbeat schedule k s \<longleftrightarrow> hs_schedule s = schedule \<and> unat (hs_counter s) = k \<and>
     (\<forall>actions. schedule = HS_Sequence actions \<longrightarrow> unat (hs_sequence_index s) = k)"

lemma unat_Suc_u32: "unat w < 2 ^ 32 - 1 \<Longrightarrow> unat (w + 1) = unat w + 1" for w :: u32
  by (simp add: unat_word_ariths(1))

lemma next_action_scheduled:
  assumes "at_heartbeat schedule k s" "HeartbeatSchedule_validate schedule = Ok ()" "k < 2 ^ 32 - 1"
  shows "\<exists>s'. HeartbeatScheduler_next_action draw s = (Ok (scheduled schedule k draw, s') :: (unit, _) outcome) \<and>
    at_heartbeat schedule (k + 1) s'"
proof -
  have k: "unat (hs_counter s) = k" "hs_schedule s = schedule" using assms(1) by (simp_all add: at_heartbeat_def)
  then have suc: "unat (hs_counter s + 1) = k + 1" using assms(3) by (simp add: unat_Suc_u32)
  show ?thesis
  proof (cases schedule)
    case (HS_Sequence actions)
    then have i: "unat (hs_sequence_index s) = k" "actions \<noteq> []" using assms by (auto simp: at_heartbeat_def split: if_splits)
    then have "unat (hs_sequence_index s + 1) = k + 1" using assms(3) by (simp add: unat_Suc_u32)
    moreover have "(if k < length actions then actions ! k else last actions) = actions ! min k (length actions - 1)"
    proof (cases "k < length actions")
      case False
      then have "min k (length actions - 1) = length actions - 1" by simp
      then show ?thesis using False i(2) by (simp add: last_conv_nth)
    next
      case True
      then have "min k (length actions - 1) = k" by simp
      then show ?thesis using True by simp
    qed
    ultimately show ?thesis using HS_Sequence k suc i
      by (auto simp: HeartbeatScheduler_next_action_def at_heartbeat_def Let_def)
  next
    case (HS_Periodic action interval)
    then show ?thesis using k suc assms(2,3)
      by (auto simp: HeartbeatScheduler_next_action_def at_heartbeat_def Let_def dvd_eq_mod_eq_0 split: if_splits)
  next
    case (HS_CountdownToFailure action countdown)
    then show ?thesis using k suc
      by (auto simp: HeartbeatScheduler_next_action_def at_heartbeat_def Let_def word_le_nat_alt)
  qed (use k suc in \<open>simp_all add: HeartbeatScheduler_next_action_def at_heartbeat_def Let_def\<close>)
qed

lemma heartbeats_scheduled:
  assumes "at_heartbeat schedule k s" "HeartbeatSchedule_validate schedule = Ok ()" "k + length draws < 2 ^ 32"
  shows "\<exists>s'. heartbeats s draws = Ok (map (\<lambda>i. scheduled schedule (k + i) (draws ! i)) [0..<length draws], s')"
  using assms(1,3)
proof (induction draws arbitrary: k s)
  case (Cons draw draws)
  have "k < 2 ^ 32 - 1" using Cons.prems(2) by simp
  with next_action_scheduled [OF Cons.prems(1) assms(2)] obtain s1 where
    s1: "HeartbeatScheduler_next_action draw s = (Ok (scheduled schedule k draw, s1) :: (unit, _) outcome)"
      "at_heartbeat schedule (k + 1) s1" by blast
  from Cons.IH [OF s1(2)] Cons.prems(2) obtain s' where
    "heartbeats s1 draws = Ok (map (\<lambda>i. scheduled schedule (k + 1 + i) (draws ! i)) [0..<length draws], s')" by auto
  moreover have "map (\<lambda>i. scheduled schedule (k + i) ((draw # draws) ! i)) [0..<length (draw # draws)] =
      scheduled schedule k draw # map (\<lambda>i. scheduled schedule (k + 1 + i) (draws ! i)) [0..<length draws]"
    by (simp add: upt_conv_Cons map_Suc_upt [symmetric] del: upt_Suc)
  ultimately show ?case using s1(1) by simp
qed simp

text \<open>
  C38. The schedule decides every heartbeat. Under a valid schedule the heartbeats are answered in closed form: always
  normally or always with the override, down the sequence and then with its last action, with the fault at every
  multiple of the interval, by the draw, or with the fault from the countdown on. None of the first
  four thousand million heartbeats panics.
\<close>
theorem heartbeat_actions:
  assumes "HeartbeatSchedule_validate schedule = Ok ()" "length draws < 2 ^ 32"
  shows "\<exists>s'. heartbeats (HeartbeatScheduler_new schedule) draws =
    Ok (map (\<lambda>i. scheduled schedule i (draws ! i)) [0..<length draws], s')"
  using heartbeats_scheduled [of schedule 0 "HeartbeatScheduler_new schedule" draws] assms
  by (simp add: at_heartbeat_def HeartbeatScheduler_new_def)

theorem heartbeat_actions_witness:
  "\<exists>s'. heartbeats (HeartbeatScheduler_new (HS_Periodic HA_NoResponse 2)) [False, False, False, False] =
    Ok ([HA_Continue, HA_NoResponse, HA_Continue, HA_NoResponse], s')"
  using heartbeat_actions [of "HS_Periodic HA_NoResponse 2" "[False, False, False, False]"]
  by (simp add: upt_conv_Cons)

text \<open>The scheduler does not validate: an interval of zero panics at once, and every periodic schedule does when its
  32-bit counter is about to wrap.\<close>

lemma periodic_panics_iff:
  "HeartbeatScheduler_next_action draw (s\<lparr>hs_schedule := HS_Periodic action interval\<rparr>) = (Panic :: (unit, _) outcome) \<longleftrightarrow>
    interval = 0 \<or> hs_counter s = 0xFFFFFFFF"
proof -
  have "unat (hs_counter s) + 1 = 2 ^ 32 \<longleftrightarrow> hs_counter s = 0xFFFFFFFF"
  proof
    assume "unat (hs_counter s) + 1 = 2 ^ 32"
    then have "unat (hs_counter s) = unat (0xFFFFFFFF :: u32)" by simp
    then show "hs_counter s = 0xFFFFFFFF" by (simp only: word_unat_eq_iff)
  qed simp
  then show ?thesis by (auto simp: HeartbeatScheduler_next_action_def Let_def)
qed


section \<open>Runs of errors\<close>

text \<open>What is reported of a channel: a success, or an error with its category.\<close>

fun tracked :: "u8 \<Rightarrow> instant \<times> ErrorCategory option \<Rightarrow> SendErrorTracker \<Rightarrow> SendErrorTracker" where
  "tracked ch (now, None) t = SendErrorTracker_on_send_success now ch t"
| "tracked ch (now, Some category) t = snd (SendErrorTracker_on_send_failure now ch category t)"

definition error_run :: "(instant \<times> ErrorCategory option) list \<Rightarrow> nat" where
  "error_run events = length (takeWhile (\<lambda>ev. snd ev \<noteq> None) (rev events))"

lemma error_run_snoc [simp]:
  "error_run [] = 0" "error_run (events @ [(now, None)]) = 0"
  "error_run (events @ [(now, Some category)]) = Suc (error_run events)"
  by (simp_all add: error_run_def)

definition run_state :: "nat \<Rightarrow> nat \<Rightarrow> ChannelErrorState \<Rightarrow> bool" where
  "run_state threshold n s \<longleftrightarrow> es_consecutive_errors s = n \<and> (es_restart_triggered s \<longleftrightarrow> threshold \<le> n)"

lemma tracked_failure_run:
  assumes "run_state (tc_consecutive_threshold c) n s" "0 < tc_consecutive_threshold c"
  shows "run_state (tc_consecutive_threshold c) (Suc n) (snd (tracked_failure c now category s))"
    and "fst (tracked_failure c now category s) = TR_ConsecutiveThresholdExceeded (Suc n) (tc_consecutive_threshold c) \<longleftrightarrow>
      Suc n = tc_consecutive_threshold c"
    and "(\<exists>m k. fst (tracked_failure c now category s) = TR_ConsecutiveThresholdExceeded m k) \<longleftrightarrow>
      Suc n = tc_consecutive_threshold c"
  using assms by (auto simp: run_state_def tracked_failure_def ChannelErrorState_record_failure_def
      ChannelErrorState_prune_old_events_def Let_def)

lemma channel_after_success [simp]:
  "tc_enabled (et_config t) \<Longrightarrow> SendErrorTracker_ensure_channel ch (SendErrorTracker_on_send_success now ch t) =
     ChannelErrorState_record_success now (SendErrorTracker_ensure_channel ch t)"
  by (simp add: SendErrorTracker_on_send_success_def SendErrorTracker_ensure_channel_def)

lemma channel_after_failure [simp]:
  "tc_enabled (et_config t) \<Longrightarrow>
     SendErrorTracker_ensure_channel ch (snd (SendErrorTracker_on_send_failure now ch category t)) =
     snd (tracked_failure (et_config t) now category (SendErrorTracker_ensure_channel ch t))"
  "tc_enabled (et_config t) \<Longrightarrow> fst (SendErrorTracker_on_send_failure now ch category t) =
     fst (tracked_failure (et_config t) now category (SendErrorTracker_ensure_channel ch t))"
  by (simp_all add: SendErrorTracker_on_send_failure_def SendErrorTracker_ensure_channel_def split: prod.split)

lemma tracked_config [simp]:
  "et_config (SendErrorTracker_on_send_success now ch t) = et_config t"
  "et_config (snd (SendErrorTracker_on_send_failure now ch category t)) = et_config t"
  by (auto simp: SendErrorTracker_on_send_success_def SendErrorTracker_on_send_failure_def split: prod.split)

lemma run_after_events:
  fixes ch :: u8 and events :: "(instant \<times> ErrorCategory option) list"
  assumes "tc_enabled c" "0 < tc_consecutive_threshold c"
  defines "t \<equiv> fold (tracked ch) events (SendErrorTracker_new c)"
  shows "et_config t = c \<and> run_state (tc_consecutive_threshold c) (error_run events) (SendErrorTracker_ensure_channel ch t)"
  unfolding t_def
proof (induction events rule: rev_induct)
  case Nil
  show ?case using assms(2)
    by (simp add: SendErrorTracker_new_def SendErrorTracker_ensure_channel_def ChannelErrorState_new_def run_state_def)
next
  case (snoc ev events)
  obtain now r where ev: "ev = (now, r)" by fastforce
  show ?case
  proof (cases r)
    case None
    with snoc ev assms(1,2) show ?thesis by (simp add: run_state_def ChannelErrorState_record_success_def)
  next
    case (Some category)
    with snoc ev assms(1) tracked_failure_run(1) [OF _ assms(2)] show ?thesis by simp
  qed
qed

text \<open>
  C37. A run of errors is reported once. Whatever was reported of a channel before, an error makes the tracker ask for a
  restart exactly when it completes a run of as many errors in a row as the threshold says: not before, and not
  again until a success has ended the run.
\<close>
theorem restart_signalled_once:
  assumes "tc_enabled c" "0 < tc_consecutive_threshold c"
  shows "(\<exists>m k. fst (SendErrorTracker_on_send_failure now ch category (fold (tracked ch) events (SendErrorTracker_new c))) =
      TR_ConsecutiveThresholdExceeded m k) \<longleftrightarrow>
    Suc (length (takeWhile (\<lambda>ev. snd ev \<noteq> None) (rev events))) = tc_consecutive_threshold c"
  using run_after_events [OF assms, of ch events] tracked_failure_run(3) [OF _ assms(2), of "error_run events"] assms(1)
  by (simp add: error_run_def)

definition sample_tracker_config :: SendErrorTrackerConfig where
  "sample_tracker_config = \<lparr>tc_enabled = True, tc_consecutive_threshold = 2, tc_window_ms = 60000,
     tc_rate_exceeds = (\<lambda>errors sends. sends < 2 * errors), tc_min_events_for_rate = 10\<rparr>"

theorem restart_signalled_once_witness:
  "(\<exists>m k. fst (SendErrorTracker_on_send_failure 3 7 EC_AckTimeout
      (fold (tracked 7) [(1, None), (2, Some EC_SendFailure)] (SendErrorTracker_new sample_tracker_config))) =
    TR_ConsecutiveThresholdExceeded m k)"
proof -
  have "tc_enabled sample_tracker_config" "0 < tc_consecutive_threshold sample_tracker_config"
    by (simp_all add: sample_tracker_config_def)
  from restart_signalled_once [OF this, of 3 7 EC_AckTimeout "[(1, None), (2, Some EC_SendFailure)]"] show ?thesis
    by (simp add: sample_tracker_config_def)
qed

text \<open>The error rate of the window divides by all sends of the channel's life, not by those of the window: a channel
  with a past as long as the run of errors never exceeds a rate of one half, though every send of the window failed.\<close>

lemma tracked_totals:
  fixes ch :: u8 and events :: "(instant \<times> ErrorCategory option) list"
  assumes "tc_enabled c"
  defines "t \<equiv> fold (tracked ch) events (SendErrorTracker_new c)"
  shows "et_config t = c \<and> es_total_successes (SendErrorTracker_ensure_channel ch t) = length (filter (\<lambda>ev. snd ev = None) events) \<and>
    es_total_failures (SendErrorTracker_ensure_channel ch t) = length (filter (\<lambda>ev. snd ev \<noteq> None) events) \<and>
    length (es_recent_errors (SendErrorTracker_ensure_channel ch t)) \<le> length (filter (\<lambda>ev. snd ev \<noteq> None) events)"
  unfolding t_def
proof (induction events rule: rev_induct)
  case Nil
  show ?case by (simp add: SendErrorTracker_new_def SendErrorTracker_ensure_channel_def ChannelErrorState_new_def)
next
  case (snoc ev events)
  obtain now r where ev: "ev = (now, r)" by fastforce
  show ?case
  proof (cases r)
    case None
    with snoc ev assms(1) show ?thesis by (simp add: ChannelErrorState_record_success_def)
  next
    case (Some category)
    let ?s = "SendErrorTracker_ensure_channel ch (fold (tracked ch) events (SendErrorTracker_new c))"
    have "length (dropWhile P xs) \<le> length xs" for P and xs :: "ErrorEvent list" by (rule length_dropWhile_le)
    from this [of "\<lambda>e. ee_timestamp e + tc_window_ms c * 1000 < now" "es_recent_errors ?s @ [\<lparr>ee_timestamp = now, ee_category = category\<rparr>]"]
    show ?thesis using snoc ev Some assms(1)
      by (auto simp: tracked_failure_def ChannelErrorState_record_failure_def ChannelErrorState_prune_old_events_def Let_def)
  qed
qed

lemma old_successes_hide_errors:
  assumes "tc_enabled c" "tc_rate_exceeds c = (\<lambda>errors sends. sends < 2 * errors)"
    and "length (filter (\<lambda>ev. snd ev \<noteq> None) events) < length (filter (\<lambda>ev. snd ev = None) events)"
  shows "fst (SendErrorTracker_on_send_failure now ch category (fold (tracked ch) events (SendErrorTracker_new c))) \<noteq>
    TR_RateThresholdExceeded n w"
proof -
  let ?t = "fold (tracked ch) events (SendErrorTracker_new c)"
  let ?s = "SendErrorTracker_ensure_channel ch ?t"
  let ?s' = "ChannelErrorState_prune_old_events now (tc_window_ms c * 1000) (ChannelErrorState_record_failure now category ?s)"
  note totals = tracked_totals [OF assms(1), of ch events]
  have "ChannelErrorState_window_error_count now (tc_window_ms c * 1000) ?s' \<le> length (es_recent_errors ?s')"
    by (simp add: ChannelErrorState_window_error_count_def)
  also have "\<dots> \<le> Suc (length (es_recent_errors ?s))"
    using length_dropWhile_le [of "\<lambda>e. ee_timestamp e + tc_window_ms c * 1000 < now"
        "es_recent_errors ?s @ [\<lparr>ee_timestamp = now, ee_category = category\<rparr>]"]
    by (simp add: ChannelErrorState_prune_old_events_def ChannelErrorState_record_failure_def)
  also have "\<dots> \<le> es_total_failures ?s'"
    using totals by (simp add: ChannelErrorState_prune_old_events_def ChannelErrorState_record_failure_def)
  finally have "2 * ChannelErrorState_window_error_count now (tc_window_ms c * 1000) ?s' \<le> es_total_successes ?s' + es_total_failures ?s'"
    using totals assms(3) by (simp add: ChannelErrorState_prune_old_events_def ChannelErrorState_record_failure_def)
  then show ?thesis using totals assms(1,2) by (simp add: tracked_failure_def Let_def)
qed

end
