(* ===== verification/Knx_Dib.thy ===== *)
theory Knx_Dib
  imports Knx_Dpt Knx_Address Knx_Frame Rust_Std
begin

text \<open>
  Description information blocks, \<^verbatim>\<open>mabi-knx/src/frame/dib.rs\<close>: the device information and the supported
  service families that the server sends in its search and description responses, and the reader of a sequence of
  blocks. An array of six bytes is a list; its length is part of what makes a block representable.

  The lemmas show that a sequence of blocks is read back from its bytes, and on which input the reader of a single
  block panics, which the reader of a sequence never does.
\<close>

section \<open>Blocks\<close>

datatype (plugins only: code size) DibType =
    DT_DeviceInfo | DT_SupportedServiceFamilies | DT_IpConfig | DT_IpCurrentConfig | DT_KnxAddresses
  | DT_SecuredServiceFamilies | DT_TunnellingInfo | DT_ExtendedDeviceInfo | DT_ManufacturerData

fun DibType_to_u8 :: "DibType \<Rightarrow> u8" where
  "DibType_to_u8 DT_DeviceInfo = 0x01"
| "DibType_to_u8 DT_SupportedServiceFamilies = 0x02"
| "DibType_to_u8 DT_IpConfig = 0x03"
| "DibType_to_u8 DT_IpCurrentConfig = 0x04"
| "DibType_to_u8 DT_KnxAddresses = 0x05"
| "DibType_to_u8 DT_SecuredServiceFamilies = 0x06"
| "DibType_to_u8 DT_TunnellingInfo = 0x07"
| "DibType_to_u8 DT_ExtendedDeviceInfo = 0x08"
| "DibType_to_u8 DT_ManufacturerData = 0xFE"

definition DibType_from_u8 :: "u8 \<Rightarrow> DibType option" where
  "DibType_from_u8 value =
    (if value = 0x01 then Some DT_DeviceInfo
     else if value = 0x02 then Some DT_SupportedServiceFamilies
     else if value = 0x03 then Some DT_IpConfig
     else if value = 0x04 then Some DT_IpCurrentConfig
     else if value = 0x05 then Some DT_KnxAddresses
     else if value = 0x06 then Some DT_SecuredServiceFamilies
     else if value = 0x07 then Some DT_TunnellingInfo
     else if value = 0x08 then Some DT_ExtendedDeviceInfo
     else if value = 0xFE then Some DT_ManufacturerData
     else None)"

datatype KnxMedium = KM_Tp1 | KM_Pl110 | KM_Rf | KM_Ip

fun KnxMedium_to_u8 :: "KnxMedium \<Rightarrow> u8" where
  "KnxMedium_to_u8 KM_Tp1 = 0x02"
| "KnxMedium_to_u8 KM_Pl110 = 0x04"
| "KnxMedium_to_u8 KM_Rf = 0x10"
| "KnxMedium_to_u8 KM_Ip = 0x20"

definition KnxMedium_from_u8 :: "u8 \<Rightarrow> KnxMedium option" where
  "KnxMedium_from_u8 value =
    (if value = 0x02 then Some KM_Tp1
     else if value = 0x04 then Some KM_Pl110
     else if value = 0x10 then Some KM_Rf
     else if value = 0x20 then Some KM_Ip
     else None)"

record DeviceInfo =
  di_knx_medium :: KnxMedium
  di_device_status :: u8
  di_individual_address :: IndividualAddress
  di_project_installation_id :: u16
  di_serial_number :: bytes
  di_multicast_address :: Ipv4Addr
  di_mac_address :: bytes
  di_device_name :: string

definition DeviceInfo_LENGTH :: u8 where "DeviceInfo_LENGTH = 54"

definition DeviceInfo_new :: "string \<Rightarrow> IndividualAddress \<Rightarrow> DeviceInfo" where
  "DeviceInfo_new name individual_address =
     \<lparr>di_knx_medium = KM_Tp1, di_device_status = 0x00, di_individual_address = individual_address,
      di_project_installation_id = 0x0000, di_serial_number = replicate 6 0,
      di_multicast_address = (224, 0, 23, 12), di_mac_address = replicate 6 0, di_device_name = name\<rparr>"

definition DeviceInfo_encode :: "buf_api \<Rightarrow> DeviceInfo \<Rightarrow> bytes" where
  "DeviceInfo_encode B d =
    (let buf = api_put_u8 B [] DeviceInfo_LENGTH;
         buf = api_put_u8 B buf (DibType_to_u8 DT_DeviceInfo);
         buf = api_put_u8 B buf (KnxMedium_to_u8 (di_knx_medium d));
         buf = api_put_u8 B buf (di_device_status d);
         buf = api_put_u16 B buf (IndividualAddress_encode (di_individual_address d));
         buf = api_put_u16 B buf (di_project_installation_id d);
         buf = api_put_slice B buf (di_serial_number d);
         buf = api_put_slice B buf (Ipv4Addr_octets (di_multicast_address d));
         buf = api_put_slice B buf (di_mac_address d);
         name_bytes = string_bytes (di_device_name d);
         name_len = min (length name_bytes) 30;
         buf = api_put_slice B buf (take name_len name_bytes)
     in fold (\<lambda>_ buf. api_put_u8 B buf 0) [name_len..<30] buf)"

definition DeviceInfo_decode :: "buf_api \<Rightarrow> bytes \<Rightarrow> DeviceInfo KnxResult" where
  "DeviceInfo_decode B data =
    (if length data < unat DeviceInfo_LENGTH then Err (KnxError_frame_too_short (unat DeviceInfo_LENGTH) (length data))
     else
       obind (slice_from data 2) (\<lambda>buf.
       obind (get_u8 B buf) (\<lambda>(medium, buf).
       obind (get_u8 B buf) (\<lambda>(device_status, buf).
       obind (get_u16 B buf) (\<lambda>(address, buf).
       obind (get_u16 B buf) (\<lambda>(project_installation_id, buf).
       obind (slice_to buf 6) (\<lambda>serial_number.
       obind (slice_from buf 6) (\<lambda>buf.
       obind (get_u8 B buf) (\<lambda>(a, buf). obind (get_u8 B buf) (\<lambda>(b, buf).
       obind (get_u8 B buf) (\<lambda>(c, buf). obind (get_u8 B buf) (\<lambda>(d, buf).
       obind (slice_to buf 6) (\<lambda>mac_address.
       obind (slice_from buf 6) (\<lambda>buf.
       obind (slice_to buf 30) (\<lambda>name.
       let name_end = length (takeWhile (\<lambda>b. b \<noteq> 0) name) in
       obind (slice_to buf name_end) (\<lambda>name.
       Ok \<lparr>di_knx_medium = (case KnxMedium_from_u8 medium of Some m \<Rightarrow> m | None \<Rightarrow> KM_Tp1),
           di_device_status = device_status, di_individual_address = IndividualAddress_decode address,
           di_project_installation_id = project_installation_id, di_serial_number = serial_number,
           di_multicast_address = (a, b, c, d), di_mac_address = mac_address,
           di_device_name = bytes_string (utf8_lossy name)\<rparr>))))))))))))))))"

record ServiceFamilyEntry =
  sfe_family :: ServiceFamily
  sfe_version :: u8

record SupportedServiceFamilies =
  ssf_families :: "ServiceFamilyEntry list"

definition SupportedServiceFamilies_default_families :: SupportedServiceFamilies where
  "SupportedServiceFamilies_default_families =
     \<lparr>ssf_families = [\<lparr>sfe_family = SF_Core, sfe_version = 1\<rparr>, \<lparr>sfe_family = SF_DeviceManagement, sfe_version = 1\<rparr>,
       \<lparr>sfe_family = SF_Tunnelling, sfe_version = 1\<rparr>]\<rparr>"

definition SupportedServiceFamilies_with_family ::
    "ServiceFamily \<Rightarrow> u8 \<Rightarrow> SupportedServiceFamilies \<Rightarrow> SupportedServiceFamilies" where
  "SupportedServiceFamilies_with_family family version f =
     f\<lparr>ssf_families := ssf_families f @ [\<lparr>sfe_family = family, sfe_version = version\<rparr>]\<rparr>"

definition SupportedServiceFamilies_encode :: "buf_api \<Rightarrow> SupportedServiceFamilies \<Rightarrow> bytes" where
  "SupportedServiceFamilies_encode B f =
    (let len = 2 + length (ssf_families f) * 2;
         buf = api_put_u8 B [] (as_u8 len);
         buf = api_put_u8 B buf (DibType_to_u8 DT_SupportedServiceFamilies)
     in fold (\<lambda>e buf. api_put_u8 B (api_put_u8 B buf (ServiceFamily_id (sfe_family e))) (sfe_version e)) (ssf_families f) buf)"

text \<open>The loop of \<^verbatim>\<open>decode\<close>, which reads pairs while at least two bytes remain.\<close>

fun family_entries :: "bytes \<Rightarrow> ServiceFamilyEntry list" where
  "family_entries (family_id # version # buf) =
     \<lparr>sfe_family = ServiceFamily_from_id family_id, sfe_version = version\<rparr> # family_entries buf"
| "family_entries _ = []"

definition SupportedServiceFamilies_decode :: "bytes \<Rightarrow> SupportedServiceFamilies KnxResult" where
  "SupportedServiceFamilies_decode data =
    (if length data < 2 then Err (KnxError_frame_too_short 2 (length data))
     else
       obind (idx data 0) (\<lambda>len.
       if length data < unat len then Err (KnxError_frame_too_short (unat len) (length data))
       else obind (slice_range data 2 (unat len)) (\<lambda>buf. Ok \<lparr>ssf_families = family_entries buf\<rparr>)))"

definition SupportedServiceFamilies_version :: "ServiceFamily \<Rightarrow> SupportedServiceFamilies \<Rightarrow> u8 option" where
  "SupportedServiceFamilies_version family f =
     map_option sfe_version (find (\<lambda>e. sfe_family e = family) (ssf_families f))"

datatype Dib =
    Dib_DeviceInfo DeviceInfo
  | Dib_SupportedServiceFamilies SupportedServiceFamilies
  | Dib_Generic u8 bytes

fun Dib_dib_type :: "Dib \<Rightarrow> u8" where
  "Dib_dib_type (Dib_DeviceInfo _) = DibType_to_u8 DT_DeviceInfo"
| "Dib_dib_type (Dib_SupportedServiceFamilies _) = DibType_to_u8 DT_SupportedServiceFamilies"
| "Dib_dib_type (Dib_Generic dib_type _) = dib_type"

fun Dib_encode :: "buf_api \<Rightarrow> Dib \<Rightarrow> bytes" where
  "Dib_encode B (Dib_DeviceInfo info) = DeviceInfo_encode B info"
| "Dib_encode B (Dib_SupportedServiceFamilies svc) = SupportedServiceFamilies_encode B svc"
| "Dib_encode B (Dib_Generic dib_type data) =
     api_put_slice B (api_put_u8 B (api_put_u8 B [] (as_u8 (2 + length data))) dib_type) data"

definition Dib_decode :: "buf_api \<Rightarrow> bytes \<Rightarrow> Dib KnxResult" where
  "Dib_decode B data =
    (if length data < 2 then Err (KnxError_frame_too_short 2 (length data))
     else
       obind (idx data 0) (\<lambda>len.
       obind (idx data 1) (\<lambda>dib_type.
       if length data < unat len then Err (KnxError_frame_too_short (unat len) (length data))
       else case DibType_from_u8 dib_type of
           Some DT_DeviceInfo \<Rightarrow>
             obind (slice_to data (unat len)) (\<lambda>d. obind (DeviceInfo_decode B d) (\<lambda>info. Ok (Dib_DeviceInfo info)))
         | Some DT_SupportedServiceFamilies \<Rightarrow>
             obind (slice_to data (unat len)) (\<lambda>d.
               obind (SupportedServiceFamilies_decode d) (\<lambda>svc. Ok (Dib_SupportedServiceFamilies svc)))
         | _ \<Rightarrow> obind (slice_range data 2 (unat len)) (\<lambda>d. Ok (Dib_Generic dib_type d)))))"

function Dib_decode_all :: "buf_api \<Rightarrow> bytes \<Rightarrow> Dib list KnxResult" where
  "Dib_decode_all B remaining =
    (if length remaining < 2 then Ok []
     else
       let len = unat (hd remaining) in
       if len < 2 \<or> length remaining < len then Ok []
       else obind (Dib_decode B (take len remaining)) (\<lambda>dib.
         obind (Dib_decode_all B (drop len remaining)) (\<lambda>dibs. Ok (dib # dibs))))"
  by pat_completeness auto

termination by (relation "measure (\<lambda>(B, remaining). length remaining)") auto

declare Dib_decode_all.simps [simp del]


section \<open>Reading back\<close>

definition DeviceInfo_representable :: "DeviceInfo \<Rightarrow> bool" where
  "DeviceInfo_representable d \<longleftrightarrow> valid_ia (di_individual_address d) \<and> length (di_serial_number d) = 6 \<and>
     length (di_mac_address d) = 6 \<and> length (di_device_name d) \<le> 30 \<and>
     (\<forall>b \<in> set (string_bytes (di_device_name d)). 0 < b \<and> b < 0x80)"

fun Dib_representable :: "Dib \<Rightarrow> bool" where
  "Dib_representable (Dib_DeviceInfo d) = DeviceInfo_representable d"
| "Dib_representable (Dib_SupportedServiceFamilies f) \<longleftrightarrow> length (ssf_families f) \<le> 126"
| "Dib_representable (Dib_Generic t data) \<longleftrightarrow> t \<notin> {0x01, 0x02} \<and> length data \<le> 253"

lemma KnxMedium_from_to_u8 [simp]: "KnxMedium_from_u8 (KnxMedium_to_u8 m) = Some m"
  by (cases m) (simp_all add: KnxMedium_from_u8_def)

lemma length_string_bytes [simp]: "length (string_bytes s) = length s"
  by (simp add: string_bytes_def)

lemma family_entries_pairs:
  "family_entries (concat (map (\<lambda>e. [ServiceFamily_id (sfe_family e), sfe_version e]) fs)) = fs"
  by (induction fs) simp_all

lemma takeWhile_name:
  assumes "\<forall>b \<in> set xs. (0 :: u8) < b"
  shows "takeWhile (\<lambda>b. b \<noteq> 0) (xs @ replicate n 0) = xs"
  using assms by (induction xs) (auto simp: takeWhile_eq_Nil_iff hd_replicate)

context bytes_crate
begin

lemma put_zeros: "fold (\<lambda>_ buf. api_put_u8 B buf 0) is buf = buf @ replicate (length is) 0"
  by (induction "is" arbitrary: buf) (simp_all add: put_laws replicate_append_same)

lemma put_families:
  "fold (\<lambda>e buf. api_put_u8 B (api_put_u8 B buf (ServiceFamily_id (sfe_family e))) (sfe_version e)) fs buf =
   buf @ concat (map (\<lambda>e. [ServiceFamily_id (sfe_family e), sfe_version e]) fs)"
  by (induction fs arbitrary: buf) (simp_all add: put_laws)

lemma device_info_encode:
  assumes "length (di_device_name d) \<le> 30"
  shows "DeviceInfo_encode B d =
    [54, 1, KnxMedium_to_u8 (di_knx_medium d), di_device_status d] @
    u16_to_be (IndividualAddress_encode (di_individual_address d)) @ u16_to_be (di_project_installation_id d) @
    di_serial_number d @ Ipv4Addr_octets (di_multicast_address d) @ di_mac_address d @
    string_bytes (di_device_name d) @ replicate (30 - length (di_device_name d)) 0"
  using assms by (simp add: DeviceInfo_encode_def DeviceInfo_LENGTH_def put_zeros) (simp add: put_laws)

lemma length_device_info_encode:
  "DeviceInfo_representable d \<Longrightarrow> length (DeviceInfo_encode B d) = 54"
  by (cases "di_multicast_address d") (simp add: DeviceInfo_representable_def device_info_encode u16_to_be_def)

lemma device_info_decode_encode:
  assumes "DeviceInfo_representable d"
  shows "DeviceInfo_decode B (DeviceInfo_encode B d) = Ok d"
proof -
  from assms have d: "valid_ia (di_individual_address d)" "length (di_serial_number d) = 6" "length (di_mac_address d) = 6"
    "length (di_device_name d) \<le> 30" "\<forall>b \<in> set (string_bytes (di_device_name d)). 0 < b"
    "\<forall>b \<in> set (string_bytes (di_device_name d)). b < 0x80"
    by (auto simp: DeviceInfo_representable_def)
  obtain i j k l where ip: "di_multicast_address d = (i, j, k, l)" by (cases "di_multicast_address d")
  let ?name = "string_bytes (di_device_name d) @ replicate (30 - length (di_device_name d)) 0"
  have name: "length ?name = 30" "takeWhile (\<lambda>b. b \<noteq> 0) ?name = string_bytes (di_device_name d)"
    using d(4) takeWhile_name [OF d(5)] by simp_all
  define ia where "ia = IndividualAddress_encode (di_individual_address d)"
  define pid where "pid = di_project_installation_id d"
  define nm where "nm = ?name"
  have enc: "DeviceInfo_encode B d =
    54 # 1 # KnxMedium_to_u8 (di_knx_medium d) # di_device_status d # u16_be_hi ia # u16_be_lo ia # u16_be_hi pid #
    u16_be_lo pid # (di_serial_number d @ i # j # k # l # (di_mac_address d @ nm))"
    using d(4) by (simp add: device_info_encode ip u16_to_be_def ia_def pid_def nm_def)
  have "DeviceInfo_decode B (DeviceInfo_encode B d) =
    Ok (d\<lparr>di_individual_address := IndividualAddress_decode ia, di_device_name := bytes_string (utf8_lossy (take (length (takeWhile (\<lambda>b. b \<noteq> 0) nm)) nm))\<rparr>)"
    unfolding enc using d(2,3) name(1) [folded nm_def]
    by (simp add: DeviceInfo_decode_def DeviceInfo_LENGTH_def get_laws slice_from_def slice_to_def Let_def ip pid_def
        length_takeWhile_le order_trans [OF length_takeWhile_le])
  also have "take (length (takeWhile (\<lambda>b. b \<noteq> 0) nm)) nm = string_bytes (di_device_name d)"
    unfolding nm_def name(2) by simp
  finally show ?thesis using d(1,6) by (simp add: ia_def utf8_lossy_ascii)
qed

lemma families_encode:
  "SupportedServiceFamilies_encode B f = [as_u8 (2 + length (ssf_families f) * 2), 2] @
    concat (map (\<lambda>e. [ServiceFamily_id (sfe_family e), sfe_version e]) (ssf_families f))"
  by (simp add: SupportedServiceFamilies_encode_def put_families) (simp add: put_laws)

lemma length_families_encode:
  "length (SupportedServiceFamilies_encode B f) = 2 + length (ssf_families f) * 2"
  by (simp add: families_encode length_concat o_def sum_list_triv)

lemma unat_families_len: "length (ssf_families f) \<le> 126 \<Longrightarrow> unat (as_u8 (2 + length (ssf_families f) * 2)) = 2 + length (ssf_families f) * 2"
  by (rule unat_as_u8) simp

lemma families_decode_encode:
  assumes "length (ssf_families f) \<le> 126"
  shows "SupportedServiceFamilies_decode (SupportedServiceFamilies_encode B f) = Ok f"
proof -
  note len = length_families_encode [of f] unat_families_len [OF assms]
  show ?thesis unfolding SupportedServiceFamilies_decode_def
    by (simp add: idx_def slice_range_def len)
      (simp add: families_encode len(2) [simplified] family_entries_pairs length_concat o_def sum_list_triv)
qed

text \<open>A block is its length, its type and the rest.\<close>

lemma dib_encode_shape:
  assumes "Dib_representable x"
  shows "\<exists>rest. Dib_encode B x = as_u8 (2 + length rest) # Dib_dib_type x # rest \<and> 2 + length rest \<le> 255"
proof (cases x)
  case (Dib_DeviceInfo d)
  with assms have "length (DeviceInfo_encode B d) = 54" by (simp add: length_device_info_encode)
  moreover from assms Dib_DeviceInfo have "take 2 (DeviceInfo_encode B d) = [54, 1]"
    by (simp add: device_info_encode DeviceInfo_representable_def)
  ultimately show ?thesis using Dib_DeviceInfo
    by (intro exI [of _ "drop 2 (DeviceInfo_encode B d)"])
      (use append_take_drop_id [of 2 "DeviceInfo_encode B d"] in simp)
next
  case (Dib_SupportedServiceFamilies f)
  with assms show ?thesis
    by (intro exI [of _ "concat (map (\<lambda>e. [ServiceFamily_id (sfe_family e), sfe_version e]) (ssf_families f))"])
      (simp add: families_encode length_concat o_def sum_list_triv)
next
  case (Dib_Generic t data)
  with assms show ?thesis by (simp add: put_laws)
qed

lemma dib_decode_cons:
  "Dib_decode B (n # t # rest) =
    (if 2 + length rest < unat n then Err (FrameTooShort (unat n) (2 + length rest))
     else if t = 1 then obind (DeviceInfo_decode B (take (unat n) (n # t # rest))) (\<lambda>d. Ok (Dib_DeviceInfo d))
     else if t = 2 then obind (SupportedServiceFamilies_decode (take (unat n) (n # t # rest))) (\<lambda>f. Ok (Dib_SupportedServiceFamilies f))
     else if unat n < 2 then Panic else Ok (Dib_Generic t (take (unat n - 2) rest)))"
  by (simp add: Dib_decode_def idx_def slice_to_def slice_range_def DibType_from_u8_def KnxError_frame_too_short_def not_less)

lemma dib_decode_encode:
  assumes "Dib_representable x"
  shows "Dib_decode B (Dib_encode B x) = Ok x"
proof -
  from dib_encode_shape [OF assms] obtain rest where enc: "Dib_encode B x = as_u8 (2 + length rest) # Dib_dib_type x # rest"
    and len: "2 + length rest \<le> 255" by blast
  have ulen: "unat (as_u8 (2 + length rest)) = 2 + length rest" using len by (rule unat_as_u8)
  have dec: "Dib_decode B (Dib_encode B x) =
    (if Dib_dib_type x = 1 then obind (DeviceInfo_decode B (Dib_encode B x)) (\<lambda>d. Ok (Dib_DeviceInfo d))
     else if Dib_dib_type x = 2 then obind (SupportedServiceFamilies_decode (Dib_encode B x)) (\<lambda>f. Ok (Dib_SupportedServiceFamilies f))
     else Ok (Dib_Generic (Dib_dib_type x) rest))"
    unfolding enc dib_decode_cons ulen by simp
  show ?thesis
  proof (cases x)
    case (Dib_DeviceInfo d)
    then show ?thesis unfolding dec using assms by (simp add: device_info_decode_encode)
  next
    case (Dib_SupportedServiceFamilies f)
    then show ?thesis unfolding dec using assms by (simp add: families_decode_encode)
  next
    case (Dib_Generic t data)
    then have "rest = data" using enc by (simp add: put_laws)
    then show ?thesis unfolding dec using Dib_Generic assms by simp
  qed
qed

lemma dib_decode_all_encode:
  assumes "list_all Dib_representable xs"
  shows "Dib_decode_all B (concat (map (Dib_encode B) xs)) = Ok xs"
  using assms
proof (induction xs)
  case Nil
  show ?case by (simp add: Dib_decode_all.simps)
next
  case (Cons x xs)
  from Cons.prems dib_encode_shape obtain rest where enc: "Dib_encode B x = as_u8 (2 + length rest) # Dib_dib_type x # rest"
    and len: "2 + length rest \<le> 255" by force
  have ulen: "unat (as_u8 (2 + length rest)) = 2 + length rest" using len by (rule unat_as_u8)
  have "length (Dib_encode B x) = 2 + length rest" by (simp add: enc)
  then have parts: "take (2 + length rest) (Dib_encode B x @ ys) = Dib_encode B x"
    "drop (2 + length rest) (Dib_encode B x @ ys) = ys" for ys by simp_all
  have "Dib_decode_all B (Dib_encode B x @ concat (map (Dib_encode B) xs)) =
      obind (Dib_decode B (Dib_encode B x)) (\<lambda>dib. obind (Dib_decode_all B (concat (map (Dib_encode B) xs))) (\<lambda>dibs. Ok (dib # dibs)))"
    using parts [of "concat (map (Dib_encode B) xs)"]
    by (subst Dib_decode_all.simps) (simp add: enc ulen [simplified])
  then show ?case using Cons dib_decode_encode by simp
qed

lemma device_info_not_panic: "DeviceInfo_decode B data \<noteq> Panic"
proof (cases "length data < 54")
  case False
  then have len: "8 \<le> length data" "54 \<le> length data" by simp_all
  from list_ge8E [OF len(1)] obtain a b c d e f g h ys where data: "data = a # b # c # d # e # f # g # h # ys" .
  define zs where "zs = drop 6 ys"
  have ys: "46 \<le> length ys" using len(2) by (simp add: data)
  then have "8 \<le> length zs" by (simp add: zs_def)
  from list_ge8E [OF this] obtain i j k l r t u v ws where zs: "zs = i # j # k # l # r # t # u # v # ws" .
  have ws: "32 \<le> length ws" using ys arg_cong [OF zs, of length] by (simp add: zs_def)
  have "length (takeWhile (\<lambda>b. b \<noteq> 0) (take 30 (drop 2 ws))) \<le> length (drop 2 ws)" for ws :: bytes
    by (rule order_trans [OF length_takeWhile_le]) simp
  then show ?thesis unfolding data using ys ws
    by (simp add: DeviceInfo_decode_def DeviceInfo_LENGTH_def get_laws slice_from_def slice_to_def Let_def
        zs_def [symmetric] zs)
qed (simp add: DeviceInfo_decode_def DeviceInfo_LENGTH_def)

lemma families_not_panic: "SupportedServiceFamilies_decode data = Panic \<longleftrightarrow> 2 \<le> length data \<and> unat (hd data) < 2"
  by (cases data) (auto simp: SupportedServiceFamilies_decode_def idx_def slice_range_def Suc_le_eq)

lemma dib_decode_panic: "Dib_decode B (n # t # rest) = Panic \<longleftrightarrow> unat n < 2 \<and> t \<noteq> 1 \<and> t \<noteq> 2"
proof -
  have "length (take (unat n) (n # t # rest)) < 2" if "unat n < 2"
    using that by simp
  then have "SupportedServiceFamilies_decode (take (unat n) (n # t # rest)) \<noteq> Panic"
    by (auto simp: families_not_panic hd_take)
  then show ?thesis by (auto simp: dib_decode_cons obind_eq_Panic_iff device_info_not_panic)
qed

lemma dib_decode_all_not_panic: "Dib_decode_all B data \<noteq> Panic"
proof (induction "length data" arbitrary: data rule: less_induct)
  case less
  show ?case
  proof (cases "length data < 2")
    case False
    then obtain n t rest where data: "data = n # t # rest" by (cases data rule: remdups_adj.cases) auto
    show ?thesis
    proof (cases "unat n < 2 \<or> length data < unat n")
      case True
      then show ?thesis using False by (subst Dib_decode_all.simps) (auto simp: data Let_def)
    next
      case n: False
      then have "take (unat n) data = n # t # take (unat n - 2) rest" "length (drop (unat n) data) < length data"
        by (auto simp: data take_Cons' numeral_2_eq_2)
      with less [of "drop (unat n) data"] n show ?thesis
        by (subst Dib_decode_all.simps) (auto simp: obind_eq_Panic_iff dib_decode_panic Let_def data)
    qed
  qed (simp add: Dib_decode_all.simps)
qed

end

text \<open>
  C29. A sequence of description blocks is read back from its bytes. Every list of representable blocks (device
  information with a plain text name of at most thirty characters, at most 126 service families, any other block of
  at most 253 bytes), written one after the other, is decoded to the same list.
\<close>
theorem dib_blocks_roundtrip:
  assumes "bytes_crate B" "list_all Dib_representable xs"
  shows "Dib_decode_all B (concat (map (Dib_encode B) xs)) = Ok xs"
  using bytes_crate.dib_decode_all_encode [OF assms] .

theorem dib_blocks_roundtrip_witness:
  "Dib_decode_all std_buf (concat (map (Dib_encode std_buf)
      [Dib_DeviceInfo (DeviceInfo_new ''Gate'' \<lparr>ia_area = 1, ia_line = 1, ia_device = 1\<rparr>), Dib_SupportedServiceFamilies SupportedServiceFamilies_default_families])) =
   Ok [Dib_DeviceInfo (DeviceInfo_new ''Gate'' \<lparr>ia_area = 1, ia_line = 1, ia_device = 1\<rparr>), Dib_SupportedServiceFamilies SupportedServiceFamilies_default_families]"
proof -
  have "list_all Dib_representable
      [Dib_DeviceInfo (DeviceInfo_new ''Gate'' \<lparr>ia_area = 1, ia_line = 1, ia_device = 1\<rparr>), Dib_SupportedServiceFamilies SupportedServiceFamilies_default_families]"
    by (simp add: DeviceInfo_representable_def DeviceInfo_new_def valid_ia_def IndividualAddress_MAX_AREA_def IndividualAddress_MAX_LINE_def string_bytes_def
        SupportedServiceFamilies_default_families_def)
  then show ?thesis by (rule dib_blocks_roundtrip [OF bytes_crate_std])
qed

text \<open>
  C30. When the reader of description blocks panics. The reader of one block does so on exactly the data whose length
  byte is 0 or 1 and whose type is neither device information nor service families; the reader of a sequence stops
  at such a length and never panics.
\<close>
theorem dib_decode_panics_iff:
  assumes "bytes_crate B"
  shows "(Dib_decode B data = Panic \<longleftrightarrow> (\<exists>n t rest. data = n # t # rest \<and> unat n < 2 \<and> t \<noteq> 1 \<and> t \<noteq> 2)) \<and>
    Dib_decode_all B data \<noteq> Panic"
proof -
  have "Dib_decode B data \<noteq> Panic" if "length data < 2" using that by (simp add: Dib_decode_def)
  then show ?thesis using bytes_crate.dib_decode_panic [OF assms] bytes_crate.dib_decode_all_not_panic [OF assms]
    by (cases data rule: remdups_adj.cases) auto
qed

theorem dib_decode_panics_iff_witness:
  "Dib_decode std_buf [0, 5] = Panic \<and> Dib_decode_all std_buf [0, 5] = Ok []"
  using dib_decode_panics_iff [OF bytes_crate_std, of "[0, 5]"] by (simp add: Dib_decode_all.simps)

end
