(* ===== verification/Modbus_Sharded.thy ===== *)
theory Modbus_Sharded
  imports Rust_Std
begin

text \<open>
  The sharded sparse map behind the sparse register store, first part of
  \<^verbatim>\<open>mabi-modbus/src/registers/sparse_store.rs\<close>: 64 shards of 16 slots, each slot empty or a
  segment of 64 cells with an occupancy bitmap, and a cached number of entries. The shard
  locks make each segment access atomic. The theory proves that the structure refines a
  partial map from 16-bit addresses.
\<close>

definition SHARD_COUNT :: usize where "SHARD_COUNT = 64"
definition SHARD_MASK :: usize where "SHARD_MASK = SHARD_COUNT - 1"
definition SHARD_SHIFT :: usize where "SHARD_SHIFT = 6"
definition SEGMENT_SIZE :: usize where "SEGMENT_SIZE = 64"
definition SEGMENT_MASK :: usize where "SEGMENT_MASK = SEGMENT_SIZE - 1"
definition TOTAL_SEGMENTS :: usize where "TOTAL_SEGMENTS = (65535 + 1) div SEGMENT_SIZE"
definition SEGMENTS_PER_SHARD :: usize where "SEGMENTS_PER_SHARD = TOTAL_SEGMENTS div SHARD_COUNT"

section \<open>Segments\<close>

record 'a RegisterSegment =
  seg_values :: "'a list"
  seg_occupancy :: u64

definition RegisterSegment_new :: "'a \<Rightarrow> 'a RegisterSegment" where
  "RegisterSegment_new d = \<lparr>seg_values = replicate SEGMENT_SIZE d, seg_occupancy = 0\<rparr>"

definition RegisterSegment_contains :: "'a RegisterSegment \<Rightarrow> usize \<Rightarrow> bool" where
  "RegisterSegment_contains g offset \<longleftrightarrow> seg_occupancy g AND push_bit offset 1 \<noteq> 0"

definition RegisterSegment_get :: "'a RegisterSegment \<Rightarrow> usize \<Rightarrow> 'a option" where
  "RegisterSegment_get g offset =
    (if RegisterSegment_contains g offset then Some (seg_values g ! offset) else None)"

definition RegisterSegment_set :: "'a RegisterSegment \<Rightarrow> usize \<Rightarrow> 'a \<Rightarrow> 'a option \<times> 'a RegisterSegment" where
  "RegisterSegment_set g offset value =
    (let mask = push_bit offset 1;
         previous = (if seg_occupancy g AND mask \<noteq> 0 then Some (seg_values g ! offset) else None)
     in (previous, \<lparr>seg_values = (seg_values g)[offset := value], seg_occupancy = seg_occupancy g OR mask\<rparr>))"

definition RegisterSegment_remove :: "'a RegisterSegment \<Rightarrow> usize \<Rightarrow> 'a option \<times> 'a RegisterSegment" where
  "RegisterSegment_remove g offset =
    (let mask = push_bit offset 1 in
     if seg_occupancy g AND mask = 0 then (None, g)
     else (Some (seg_values g ! offset), g\<lparr>seg_occupancy := seg_occupancy g AND NOT mask\<rparr>))"

definition RegisterSegment_is_empty :: "'a RegisterSegment \<Rightarrow> bool" where
  "RegisterSegment_is_empty g \<longleftrightarrow> seg_occupancy g = 0"


section \<open>The sharded map\<close>

record 'a ShardedRegisterMap =
  sh_shards :: "'a RegisterSegment option list list"
  sh_len :: usize

definition ShardedRegisterMap_new :: "'a ShardedRegisterMap" where
  "ShardedRegisterMap_new =
     \<lparr>sh_shards = replicate SHARD_COUNT (replicate SEGMENTS_PER_SHARD None), sh_len = 0\<rparr>"

definition ShardedRegisterMap_split_address :: "u16 \<Rightarrow> u16 \<times> usize" where
  "ShardedRegisterMap_split_address address =
    (let raw = unat address in (as_u16 (raw div SEGMENT_SIZE), raw AND SEGMENT_MASK))"

definition ShardedRegisterMap_shard_index :: "u16 \<Rightarrow> usize" where
  "ShardedRegisterMap_shard_index segment = unat segment AND SHARD_MASK"

definition ShardedRegisterMap_slot_index :: "u16 \<Rightarrow> usize" where
  "ShardedRegisterMap_slot_index segment = drop_bit SHARD_SHIFT (unat segment)"

definition ShardedRegisterMap_next_boundary :: "usize \<Rightarrow> usize" where
  "ShardedRegisterMap_next_boundary address = (address div SEGMENT_SIZE + 1) * SEGMENT_SIZE"

text \<open>The slot of a segment, and the slot replaced.\<close>

definition slot_of :: "'a ShardedRegisterMap \<Rightarrow> u16 \<Rightarrow> 'a RegisterSegment option" where
  "slot_of m segment_key =
     sh_shards m ! ShardedRegisterMap_shard_index segment_key ! ShardedRegisterMap_slot_index segment_key"

definition set_slot :: "'a ShardedRegisterMap \<Rightarrow> u16 \<Rightarrow> 'a RegisterSegment option \<Rightarrow> 'a ShardedRegisterMap" where
  "set_slot m segment_key g =
    (let i = ShardedRegisterMap_shard_index segment_key
     in m\<lparr>sh_shards := (sh_shards m)[i := (sh_shards m ! i)[ShardedRegisterMap_slot_index segment_key := g]]\<rparr>)"

text \<open>\<^verbatim>\<open>get_or_insert_with(RegisterSegment::new)\<close>\<close>

definition segment_or_new :: "'a \<Rightarrow> 'a ShardedRegisterMap \<Rightarrow> u16 \<Rightarrow> 'a RegisterSegment" where
  "segment_or_new d m segment_key =
    (case slot_of m segment_key of Some g \<Rightarrow> g | None \<Rightarrow> RegisterSegment_new d)"

definition ShardedRegisterMap_insert ::
  "'a \<Rightarrow> 'a ShardedRegisterMap \<Rightarrow> u16 \<Rightarrow> 'a \<Rightarrow> 'a option \<times> 'a ShardedRegisterMap" where
  "ShardedRegisterMap_insert d m address value =
    (let (segment_key, offset) = ShardedRegisterMap_split_address address;
         (previous, g) = RegisterSegment_set (segment_or_new d m segment_key) offset value;
         m = set_slot m segment_key (Some g)
     in (previous, if previous = None then m\<lparr>sh_len := sh_len m + 1\<rparr> else m))"

text \<open>The inner loop over one chunk: set consecutive cells, count the new ones.\<close>

fun set_cells :: "usize \<Rightarrow> 'a list \<Rightarrow> usize \<times> 'a RegisterSegment \<Rightarrow> usize \<times> 'a RegisterSegment" where
  "set_cells offset [] acc = acc"
| "set_cells offset (v # vs) (inserted, g) =
    (let (previous, g') = RegisterSegment_set g offset v
     in set_cells (offset + 1) vs (if previous = None then inserted + 1 else inserted, g'))"

definition write_chunk ::
  "'a \<Rightarrow> 'a ShardedRegisterMap \<Rightarrow> usize \<Rightarrow> 'a list \<Rightarrow> 'a ShardedRegisterMap" where
  "write_chunk d m current vs =
    (let (segment_key, start_offset) = ShardedRegisterMap_split_address (as_u16 current);
         (inserted, g) = set_cells start_offset vs (0, segment_or_new d m segment_key);
         m = set_slot m segment_key (Some g)
     in if 0 < inserted then m\<lparr>sh_len := sh_len m + inserted\<rparr> else m)"

lemma next_boundary_greater: "current < ShardedRegisterMap_next_boundary current"
  by (simp add: ShardedRegisterMap_next_boundary_def SEGMENT_SIZE_def)

function populate_loop ::
  "'a \<Rightarrow> (u16 \<Rightarrow> 'a) \<Rightarrow> usize \<Rightarrow> usize \<Rightarrow> 'a ShardedRegisterMap \<Rightarrow> 'a ShardedRegisterMap" where
  "populate_loop d value_for end_exclusive current m =
    (if current < end_exclusive then
       let chunk_end = min (ShardedRegisterMap_next_boundary current) end_exclusive
       in populate_loop d value_for end_exclusive chunk_end
            (write_chunk d m current (map (\<lambda>raw. value_for (as_u16 raw)) [current..<chunk_end]))
     else m)"
  by pat_completeness auto
termination
  by (relation "measure (\<lambda>(d, f, e, c, m). e - c)")
    (use next_boundary_greater in \<open>auto simp: min_def intro: diff_less_mono2\<close>)

declare populate_loop.simps [simp del]

definition ShardedRegisterMap_populate_range ::
  "'a \<Rightarrow> 'a ShardedRegisterMap \<Rightarrow> u16 \<Rightarrow> u16 \<Rightarrow> (u16 \<Rightarrow> 'a) \<Rightarrow> 'a ShardedRegisterMap" where
  "ShardedRegisterMap_populate_range d m start end_inclusive value_for =
     populate_loop d value_for (unat end_inclusive + 1) (unat start) m"

function read_loop :: "'a ShardedRegisterMap \<Rightarrow> usize \<Rightarrow> usize \<Rightarrow> usize \<Rightarrow> 'a list \<Rightarrow> 'a list" where
  "read_loop m address end_exclusive current result =
    (if current < end_exclusive then
       let chunk_end = min (ShardedRegisterMap_next_boundary current) end_exclusive;
           (segment_key, start_offset) = ShardedRegisterMap_split_address (as_u16 current);
           result = (case slot_of m segment_key of
               Some g \<Rightarrow> fold (\<lambda>raw r. case RegisterSegment_get g (start_offset + (raw - current)) of
                   Some v \<Rightarrow> r[current - address + (raw - current) := v] | None \<Rightarrow> r)
                 [current..<chunk_end] result
             | None \<Rightarrow> result)
       in read_loop m address end_exclusive chunk_end result
     else result)"
  by pat_completeness auto
termination
  by (relation "measure (\<lambda>(m, a, e, c, r). e - c)")
    (use next_boundary_greater in \<open>auto simp: min_def intro: diff_less_mono2\<close>)

declare read_loop.simps [simp del]

definition ShardedRegisterMap_read_range ::
  "'a ShardedRegisterMap \<Rightarrow> u16 \<Rightarrow> u16 \<Rightarrow> 'a \<Rightarrow> 'a list" where
  "ShardedRegisterMap_read_range m address quantity dflt =
     read_loop m (unat address) (unat address + unat quantity) (unat address)
       (replicate (unat quantity) dflt)"

definition ShardedRegisterMap_read_one :: "'a ShardedRegisterMap \<Rightarrow> u16 \<Rightarrow> 'a \<Rightarrow> 'a" where
  "ShardedRegisterMap_read_one m address dflt =
    (let (segment_key, offset) = ShardedRegisterMap_split_address address
     in case Option.bind (slot_of m segment_key) (\<lambda>g. RegisterSegment_get g offset) of
          Some v \<Rightarrow> v | None \<Rightarrow> dflt)"

function write_loop_from ::
  "'a \<Rightarrow> usize \<Rightarrow> 'a list \<Rightarrow> usize \<Rightarrow> 'a ShardedRegisterMap \<Rightarrow> 'a ShardedRegisterMap" where
  "write_loop_from d address vals current m =
    (let end_exclusive = address + length vals in
     if current < end_exclusive then
       let chunk_end = min (ShardedRegisterMap_next_boundary current) end_exclusive;
           start_offset = current - address;
           end_offset = start_offset + (chunk_end - current)
       in write_loop_from d address vals chunk_end
            (write_chunk d m current (take (end_offset - start_offset) (drop start_offset vals)))
     else m)"
  by pat_completeness auto
termination
  by (relation "measure (\<lambda>(d, a, vs, c, m). a + length vs - c)")
    (use next_boundary_greater in \<open>auto simp: min_def intro: diff_less_mono2\<close>)

declare write_loop_from.simps [simp del]

definition ShardedRegisterMap_write_range ::
  "'a \<Rightarrow> 'a ShardedRegisterMap \<Rightarrow> u16 \<Rightarrow> 'a list \<Rightarrow> 'a ShardedRegisterMap" where
  "ShardedRegisterMap_write_range d m address vals =
    (if vals = [] then m else write_loop_from d (unat address) vals (unat address) m)"

definition ShardedRegisterMap_clear :: "'a ShardedRegisterMap \<Rightarrow> 'a ShardedRegisterMap" where
  "ShardedRegisterMap_clear m =
     \<lparr>sh_shards = map (map (\<lambda>_. None)) (sh_shards m), sh_len = 0\<rparr>"

definition ShardedRegisterMap_active_shard_count :: "'a ShardedRegisterMap \<Rightarrow> usize" where
  "ShardedRegisterMap_active_shard_count m =
     length (filter (list_ex (\<lambda>g. g \<noteq> None)) (sh_shards m))"

definition ShardedRegisterMap_contains_key :: "'a ShardedRegisterMap \<Rightarrow> u16 \<Rightarrow> bool" where
  "ShardedRegisterMap_contains_key m address =
    (let (segment_key, offset) = ShardedRegisterMap_split_address address
     in case slot_of m segment_key of Some g \<Rightarrow> RegisterSegment_contains g offset | None \<Rightarrow> False)"

definition ShardedRegisterMap_remove ::
  "'a ShardedRegisterMap \<Rightarrow> u16 \<Rightarrow> 'a option \<times> 'a ShardedRegisterMap" where
  "ShardedRegisterMap_remove m address =
    (let (segment_key, offset) = ShardedRegisterMap_split_address address in
     case slot_of m segment_key of
       None \<Rightarrow> (None, m)
     | Some g \<Rightarrow>
         let (previous, g') = RegisterSegment_remove g offset in
         if previous = None then (None, m)
         else (previous,
               (set_slot m segment_key (if RegisterSegment_is_empty g' then None else Some g'))
                 \<lparr>sh_len := sh_len m - 1\<rparr>))"

definition snapshot_segment :: "usize \<Rightarrow> 'a RegisterSegment \<Rightarrow> (u16 \<times> 'a) list" where
  "snapshot_segment base g =
     List.map_filter (\<lambda>offset. map_option (\<lambda>v. (as_u16 (base + offset), v)) (RegisterSegment_get g offset))
       [0..<SEGMENT_SIZE]"

definition ShardedRegisterMap_snapshot :: "'a ShardedRegisterMap \<Rightarrow> (u16 \<times> 'a) list" where
  "ShardedRegisterMap_snapshot m =
     concat (map (\<lambda>(shard_index, shard).
       concat (map (\<lambda>(slot_index, segment). case segment of
           None \<Rightarrow> []
         | Some g \<Rightarrow>
             let segment_key = push_bit SHARD_SHIFT slot_index OR shard_index
             in snapshot_segment (segment_key * SEGMENT_SIZE) g)
         (enumerate 0 shard)))
       (enumerate 0 (sh_shards m)))"


section \<open>Segments as partial arrays\<close>

lemma bit_mask_u64: "o1 < 64 \<Longrightarrow> bit (push_bit o1 1 :: u64) n \<longleftrightarrow> n = o1"
  by (auto simp: bit_exp_iff)

lemma contains_bit: "o1 < 64 \<Longrightarrow> RegisterSegment_contains g o1 \<longleftrightarrow> bit (seg_occupancy g) o1"
proof -
  assume o: "o1 < 64"
  have "seg_occupancy g AND push_bit o1 1 \<noteq> 0 \<longleftrightarrow> (\<exists>n. bit (seg_occupancy g AND push_bit o1 1) n)"
    by (metis bit_0_eq bot_apply bot_bool_def bit_word_eqI)
  then show ?thesis using o
    by (simp add: RegisterSegment_contains_def bit_and_iff bit_mask_u64 del: push_bit_of_1)
qed

definition seg_wf :: "'a RegisterSegment \<Rightarrow> bool" where
  "seg_wf g \<longleftrightarrow> length (seg_values g) = 64 \<and> seg_occupancy g \<noteq> 0"

lemma get_bit:
  "o1 < 64 \<Longrightarrow> RegisterSegment_get g o1 = (if bit (seg_occupancy g) o1 then Some (seg_values g ! o1) else None)"
  by (simp add: RegisterSegment_get_def contains_bit)

lemma get_new [simp]: "o1 < 64 \<Longrightarrow> RegisterSegment_get (RegisterSegment_new d) o1 = None"
  by (simp add: get_bit RegisterSegment_new_def)

lemma fst_set: "fst (RegisterSegment_set g o1 v) = RegisterSegment_get g o1"
  by (simp add: RegisterSegment_set_def RegisterSegment_get_def RegisterSegment_contains_def)

lemma get_set:
  "o1 < 64 \<Longrightarrow> o2 < 64 \<Longrightarrow> length (seg_values g) = 64 \<Longrightarrow>
   RegisterSegment_get (snd (RegisterSegment_set g o1 v)) o2 = (if o2 = o1 then Some v else RegisterSegment_get g o2)"
  by (auto simp: get_bit RegisterSegment_set_def Let_def bit_or_iff bit_mask_u64 simp del: push_bit_of_1)

lemma seg_wf_set:
  assumes "o1 < 64" "length (seg_values g) = 64"
  shows "seg_wf (snd (RegisterSegment_set g o1 v))"
proof -
  have "bit (seg_occupancy (snd (RegisterSegment_set g o1 v))) o1"
    using assms(1) by (simp add: RegisterSegment_set_def Let_def bit_or_iff bit_mask_u64 del: push_bit_of_1)
  then have "seg_occupancy (snd (RegisterSegment_set g o1 v)) \<noteq> 0" by auto
  then show ?thesis using assms(2) by (simp add: seg_wf_def RegisterSegment_set_def Let_def)
qed

lemma fst_remove: "fst (RegisterSegment_remove g o1) = RegisterSegment_get g o1"
  by (simp add: RegisterSegment_remove_def RegisterSegment_get_def RegisterSegment_contains_def Let_def)

lemma get_remove:
  "o1 < 64 \<Longrightarrow> o2 < 64 \<Longrightarrow>
   RegisterSegment_get (snd (RegisterSegment_remove g o1)) o2 = (if o2 = o1 then None else RegisterSegment_get g o2)"
proof -
  assume o: "o1 < 64" "o2 < 64"
  show ?thesis
  proof (cases "bit (seg_occupancy g) o1")
    case True
    then have "seg_occupancy g AND push_bit o1 1 \<noteq> 0"
      using contains_bit [OF o(1), of g] by (simp add: RegisterSegment_contains_def)
    then show ?thesis using o
      by (auto simp: RegisterSegment_remove_def Let_def get_bit bit_and_iff bit_not_iff bit_mask_u64
          simp del: push_bit_of_1)
  next
    case False
    then have "seg_occupancy g AND push_bit o1 1 = 0"
      using contains_bit [OF o(1), of g] by (simp add: RegisterSegment_contains_def)
    then show ?thesis using o False by (simp add: RegisterSegment_remove_def Let_def get_bit)
  qed
qed

lemma length_remove [simp]: "length (seg_values (snd (RegisterSegment_remove g o1))) = length (seg_values g)"
  by (simp add: RegisterSegment_remove_def Let_def)

lemma empty_segment_get:
  "RegisterSegment_is_empty g \<Longrightarrow> o1 < 64 \<Longrightarrow> RegisterSegment_get g o1 = None"
  by (simp add: RegisterSegment_is_empty_def get_bit)


section \<open>Addresses\<close>

lemma and_63: "n AND 63 = n mod (64 :: nat)"
  using take_bit_eq_mask [of 6 n] by (simp add: take_bit_eq_mod mask_eq_exp_minus_1)

definition seg_key :: "u16 \<Rightarrow> u16" where "seg_key a = as_u16 (unat a div 64)"
definition seg_off :: "u16 \<Rightarrow> usize" where "seg_off a = unat a mod 64"

lemma split_address_eq: "ShardedRegisterMap_split_address a = (seg_key a, seg_off a)"
  by (simp add: ShardedRegisterMap_split_address_def SEGMENT_SIZE_def SEGMENT_MASK_def and_63 Let_def
      seg_key_def seg_off_def)

lemma unat_seg_key: "unat (seg_key a) = unat a div 64"
  unfolding seg_key_def using unat_u16_le [of a] by (intro unat_as_u16) (simp add: le_trans [OF div_le_dividend])

lemma seg_key_less: "unat (seg_key a) < 1024"
  unfolding unat_seg_key by (rule less_mult_imp_div_less) simp

lemma seg_off_less [simp]: "seg_off a < 64"
  by (simp add: seg_off_def)

lemma same_cell: "seg_key a = seg_key b \<Longrightarrow> seg_off a = seg_off b \<Longrightarrow> a = b"
proof -
  assume "seg_key a = seg_key b" and off: "seg_off a = seg_off b"
  then have "unat a div 64 = unat b div 64" by (metis unat_seg_key)
  with off have "unat a = unat b" by (metis div_mult_mod_eq seg_off_def)
  then show "a = b" by (simp add: word_unat_eq_iff)
qed

lemma indices:
  "ShardedRegisterMap_shard_index k = unat k mod 64"
  "ShardedRegisterMap_slot_index k = unat k div 64"
  by (simp_all add: ShardedRegisterMap_shard_index_def SHARD_MASK_def SHARD_COUNT_def and_63
      ShardedRegisterMap_slot_index_def SHARD_SHIFT_def drop_bit_eq_div)


section \<open>The map behind the structure\<close>

definition sh_lookup :: "'a ShardedRegisterMap \<Rightarrow> u16 \<Rightarrow> 'a option" where
  "sh_lookup m a = Option.bind (slot_of m (seg_key a)) (\<lambda>g. RegisterSegment_get g (seg_off a))"

definition sh_shape :: "'a ShardedRegisterMap \<Rightarrow> bool" where
  "sh_shape m \<longleftrightarrow> length (sh_shards m) = 64 \<and> (\<forall>sh \<in> set (sh_shards m). length sh = 16) \<and>
     (\<forall>sh \<in> set (sh_shards m). \<forall>g. Some g \<in> set sh \<longrightarrow> seg_wf g)"

definition sh_wf :: "'a ShardedRegisterMap \<Rightarrow> bool" where
  "sh_wf m \<longleftrightarrow> sh_shape m \<and> sh_len m = card (dom (sh_lookup m))"

lemma slot_of_set_slot:
  assumes "sh_shape m" "unat k < 1024" "unat k' < 1024"
  shows "slot_of (set_slot m k g) k' = (if k' = k then g else slot_of m k')"
proof -
  have len: "length (sh_shards m) = 64" "\<And>i. i < 64 \<Longrightarrow> length (sh_shards m ! i) = 16"
    using assms(1) by (auto simp: sh_shape_def)
  have "unat k div 64 < 16" "unat k' div 64 < 16" using assms(2,3) by auto
  moreover have "k' = k \<longleftrightarrow> unat k' mod 64 = unat k mod 64 \<and> unat k' div 64 = unat k div 64"
    by (metis div_mult_mod_eq word_unat_eq_iff)
  ultimately show ?thesis using len
    by (auto simp: slot_of_def set_slot_def indices Let_def nth_list_update)
qed

lemma sh_shape_set_slot:
  assumes "sh_shape m" "\<And>s. g = Some s \<Longrightarrow> seg_wf s"
  shows "sh_shape (set_slot m k g)"
proof -
  let ?i = "unat k mod 64"
  have i: "sh_shards m ! ?i \<in> set (sh_shards m)" using assms(1) by (auto simp: sh_shape_def)
  have "set (sh_shards (set_slot m k g)) \<subseteq>
      insert ((sh_shards m ! ?i)[unat k div 64 := g]) (set (sh_shards m))"
    by (simp add: set_slot_def indices Let_def set_update_subset_insert)
  moreover have "length ((sh_shards m ! ?i)[unat k div 64 := g]) = 16"
    using assms(1) i by (auto simp: sh_shape_def)
  moreover have "seg_wf s" if "Some s \<in> set ((sh_shards m ! ?i)[unat k div 64 := g])" for s
    using that assms i set_update_subset_insert [of "sh_shards m ! ?i" "unat k div 64" g]
    unfolding sh_shape_def by blast
  moreover have "length (sh_shards (set_slot m k g)) = 64"
    using assms(1) by (simp add: set_slot_def Let_def sh_shape_def)
  ultimately show ?thesis using assms(1) unfolding sh_shape_def by blast
qed

lemma slot_of_wf: "sh_shape m \<Longrightarrow> unat k < 1024 \<Longrightarrow> slot_of m k = Some g \<Longrightarrow> seg_wf g"
proof -
  assume sh: "sh_shape m" and k: "unat k < 1024" and g: "slot_of m k = Some g"
  let ?sh = "sh_shards m ! (unat k mod 64)"
  have mem: "?sh \<in> set (sh_shards m)" using sh by (auto simp: sh_shape_def)
  have "unat k div 64 < length ?sh" using k mem sh by (auto simp: sh_shape_def)
  then have "?sh ! (unat k div 64) \<in> set ?sh" by (rule nth_mem)
  then show ?thesis using sh mem g by (auto simp: sh_shape_def slot_of_def indices)
qed

lemma length_segment_or_new: "sh_shape m \<Longrightarrow> unat k < 1024 \<Longrightarrow> length (seg_values (segment_or_new d m k)) = 64"
  using slot_of_wf [of m k]
  by (auto simp: segment_or_new_def RegisterSegment_new_def SEGMENT_SIZE_def seg_wf_def split: option.splits)

lemma get_segment_or_new:
  "o1 < 64 \<Longrightarrow> RegisterSegment_get (segment_or_new d m k) o1 = Option.bind (slot_of m k) (\<lambda>g. RegisterSegment_get g o1)"
  by (simp add: segment_or_new_def split: option.splits)

lemma set_slot_len [simp]: "sh_len (set_slot m k g) = sh_len m"
  by (simp add: set_slot_def Let_def)

lemma set_slot_len_same [simp]: "(set_slot m k g)\<lparr>sh_len := sh_len m\<rparr> = set_slot m k g"
  by (simp add: set_slot_def Let_def)

lemma slot_of_len [simp]: "slot_of (m\<lparr>sh_len := n\<rparr>) k = slot_of m k"
  by (simp add: slot_of_def)

lemma sh_shape_len [simp]: "sh_shape (m\<lparr>sh_len := n\<rparr>) = sh_shape m"
  by (simp add: sh_shape_def)

lemma sh_lookup_len [simp]: "sh_lookup (m\<lparr>sh_len := n\<rparr>) = sh_lookup m"
  by (rule ext) (simp add: sh_lookup_def)

lemma insert_eq:
  "ShardedRegisterMap_insert d m a v =
    (let g = segment_or_new d m (seg_key a); m' = set_slot m (seg_key a) (Some (snd (RegisterSegment_set g (seg_off a) v)))
     in (sh_lookup m a, m'\<lparr>sh_len := sh_len m + (if sh_lookup m a = None then 1 else 0)\<rparr>))"
proof -
  obtain p g where pg: "RegisterSegment_set (segment_or_new d m (seg_key a)) (seg_off a) v = (p, g)"
    by (rule prod.exhaust)
  have "p = sh_lookup m a"
    using fst_set [of "segment_or_new d m (seg_key a)" "seg_off a" v]
    by (simp add: pg get_segment_or_new sh_lookup_def)
  then show ?thesis
    by (simp add: ShardedRegisterMap_insert_def split_address_eq Let_def pg)
qed

lemma fst_insert: "fst (ShardedRegisterMap_insert d m a v) = sh_lookup m a"
  by (simp add: insert_eq Let_def)

lemma shape_insert: "sh_shape m \<Longrightarrow> sh_shape (snd (ShardedRegisterMap_insert d m a v))"
  by (auto simp: insert_eq Let_def length_segment_or_new seg_key_less intro!: sh_shape_set_slot seg_wf_set)

lemma lookup_insert:
  "sh_shape m \<Longrightarrow> sh_lookup (snd (ShardedRegisterMap_insert d m a v)) = (sh_lookup m)(a \<mapsto> v)"
proof (rule ext)
  fix b
  assume sh: "sh_shape m"
  show "sh_lookup (snd (ShardedRegisterMap_insert d m a v)) b = ((sh_lookup m)(a \<mapsto> v)) b"
  proof (cases "seg_key b = seg_key a")
    case True
    then have "b = a \<longleftrightarrow> seg_off b = seg_off a" using same_cell by auto
    then show ?thesis using sh True
      by (simp add: insert_eq Let_def sh_lookup_def slot_of_set_slot seg_key_less get_set
          length_segment_or_new get_segment_or_new)
  next
    case False
    then show ?thesis using sh
      by (auto simp: insert_eq Let_def sh_lookup_def slot_of_set_slot seg_key_less)
  qed
qed

lemma wf_insert: "sh_wf m \<Longrightarrow> sh_wf (snd (ShardedRegisterMap_insert d m a v))"
proof -
  assume wf: "sh_wf m"
  then have sh: "sh_shape m" and len: "sh_len m = card (dom (sh_lookup m))" by (simp_all add: sh_wf_def)
  have "card (dom ((sh_lookup m)(a \<mapsto> v))) = sh_len m + (if sh_lookup m a = None then 1 else 0)"
    by (auto simp: len card_insert_if domIff)
  then show ?thesis using sh
    by (simp add: sh_wf_def shape_insert lookup_insert) (simp add: insert_eq Let_def)
qed

lemma sh_lookup_new [simp]: "sh_lookup ShardedRegisterMap_new = Map.empty"
proof (rule ext)
  fix a
  have "unat (seg_key a) div 64 < 16" using seg_key_less [of a] by auto
  then show "sh_lookup ShardedRegisterMap_new a = None"
    by (simp add: sh_lookup_def slot_of_def ShardedRegisterMap_new_def indices SHARD_COUNT_def
        SEGMENTS_PER_SHARD_def TOTAL_SEGMENTS_def SEGMENT_SIZE_def)
qed

lemma wf_new: "sh_wf ShardedRegisterMap_new"
  by (simp add: sh_wf_def) (auto simp: sh_shape_def ShardedRegisterMap_new_def SHARD_COUNT_def
      SEGMENTS_PER_SHARD_def TOTAL_SEGMENTS_def SEGMENT_SIZE_def)

lemma read_one_eq: "ShardedRegisterMap_read_one m a dflt = (case sh_lookup m a of Some v \<Rightarrow> v | None \<Rightarrow> dflt)"
  by (simp add: ShardedRegisterMap_read_one_def split_address_eq sh_lookup_def)

lemma contains_key_eq: "ShardedRegisterMap_contains_key m a \<longleftrightarrow> a \<in> dom (sh_lookup m)"
  by (auto simp: ShardedRegisterMap_contains_key_def split_address_eq sh_lookup_def RegisterSegment_get_def
      split: option.splits if_splits)

lemma clear_lookup: "sh_shape m \<Longrightarrow> sh_lookup (ShardedRegisterMap_clear m) = Map.empty"
proof (rule ext)
  fix a
  assume sh: "sh_shape m"
  have "unat (seg_key a) div 64 < 16" using seg_key_less [of a] by auto
  then show "sh_lookup (ShardedRegisterMap_clear m) a = None"
    using sh by (simp add: sh_lookup_def slot_of_def ShardedRegisterMap_clear_def indices sh_shape_def)
qed

lemma wf_clear: "sh_shape m \<Longrightarrow> sh_wf (ShardedRegisterMap_clear m)"
  by (simp add: sh_wf_def clear_lookup) (auto simp: sh_shape_def ShardedRegisterMap_clear_def)

lemma remove_eq:
  "ShardedRegisterMap_remove m a =
    (case sh_lookup m a of
       None \<Rightarrow> (None, m)
     | Some v \<Rightarrow>
         let g = snd (RegisterSegment_remove (the (slot_of m (seg_key a))) (seg_off a))
         in (Some v, (set_slot m (seg_key a) (if RegisterSegment_is_empty g then None else Some g))
              \<lparr>sh_len := sh_len m - 1\<rparr>))"
proof (cases "slot_of m (seg_key a)")
  case None
  then show ?thesis by (simp add: ShardedRegisterMap_remove_def split_address_eq sh_lookup_def)
next
  case (Some g)
  obtain p g' where pg: "RegisterSegment_remove g (seg_off a) = (p, g')" by (rule prod.exhaust)
  have "p = sh_lookup m a"
    using fst_remove [of g "seg_off a"] Some by (simp add: pg sh_lookup_def)
  then show ?thesis using Some
    by (cases p) (simp_all add: ShardedRegisterMap_remove_def split_address_eq Let_def pg flip: \<open>p = _\<close>)
qed

lemma lookup_remove:
  assumes sh: "sh_shape m"
  shows "fst (ShardedRegisterMap_remove m a) = sh_lookup m a \<and>
    sh_lookup (snd (ShardedRegisterMap_remove m a)) = (sh_lookup m)(a := None) \<and>
    sh_shape (snd (ShardedRegisterMap_remove m a))"
proof (cases "sh_lookup m a")
  case None
  then show ?thesis using sh by (auto simp: remove_eq)
next
  case (Some v)
  then obtain g where g: "slot_of m (seg_key a) = Some g" by (auto simp: sh_lookup_def Option.bind_eq_Some_conv)
  let ?g = "snd (RegisterSegment_remove g (seg_off a))"
  have lookup: "sh_lookup (snd (ShardedRegisterMap_remove m a)) b = ((sh_lookup m)(a := None)) b" for b
  proof (cases "seg_key b = seg_key a")
    case True
    then have "b = a \<longleftrightarrow> seg_off b = seg_off a" using same_cell by auto
    then show ?thesis using sh True Some g empty_segment_get [of ?g "seg_off b"] get_remove [of "seg_off a" "seg_off b" g]
      by (auto simp: remove_eq Let_def sh_lookup_def slot_of_set_slot seg_key_less)
  next
    case False
    then show ?thesis using sh Some g
      by (auto simp: remove_eq Let_def sh_lookup_def slot_of_set_slot seg_key_less)
  qed
  have "seg_wf g" using slot_of_wf [OF sh seg_key_less g] .
  then have "sh_shape (snd (ShardedRegisterMap_remove m a))"
    using sh Some g by (auto simp: remove_eq Let_def seg_wf_def RegisterSegment_is_empty_def intro!: sh_shape_set_slot)
  then show ?thesis using lookup Some by (auto simp: remove_eq Let_def)
qed

lemma wf_remove: "sh_wf m \<Longrightarrow> sh_wf (snd (ShardedRegisterMap_remove m a))"
proof -
  assume wf: "sh_wf m"
  then have sh: "sh_shape m" and len: "sh_len m = card (dom (sh_lookup m))" by (simp_all add: sh_wf_def)
  have "sh_len (snd (ShardedRegisterMap_remove m a)) = card (dom ((sh_lookup m)(a := None)))"
    by (cases "sh_lookup m a") (auto simp: remove_eq Let_def len card_Diff_singleton_if domIff)
  then show ?thesis using lookup_remove [OF sh, of a] by (simp add: sh_wf_def)
qed


section \<open>A chunk is a sequence of insertions\<close>

fun insert_all :: "'a \<Rightarrow> 'a ShardedRegisterMap \<Rightarrow> usize \<Rightarrow> 'a list \<Rightarrow> 'a ShardedRegisterMap" where
  "insert_all d m c [] = m"
| "insert_all d m c (v # vs) = insert_all d (snd (ShardedRegisterMap_insert d m (as_u16 c) v)) (Suc c) vs"

lemma insert_all_append: "insert_all d m c (xs @ ys) = insert_all d (insert_all d m c xs) (c + length xs) ys"
  by (induction xs arbitrary: m c) simp_all

lemma set_cells_acc: "set_cells off vs (n, g) = (n + fst (set_cells off vs (0, g)), snd (set_cells off vs (0, g)))"
proof (induction vs arbitrary: off n g)
  case (Cons v vs)
  obtain p g' where "RegisterSegment_set g off v = (p, g')" by (rule prod.exhaust)
  then show ?case
    using Cons.IH [of "off + 1" "if p = None then n + 1 else n" g'] Cons.IH [of "off + 1" "if p = None then 1 else 0" g']
    by (cases p) simp_all
qed simp

lemma set_slot_id:
  assumes "sh_shape m" "unat k < 1024" "slot_of m k = Some g"
  shows "set_slot m k (Some g) = m"
proof -
  have "(sh_shards m ! (unat k mod 64))[unat k div 64 := Some g] = sh_shards m ! (unat k mod 64)"
    using assms(3) unfolding slot_of_def indices by (metis list_update_id)
  then show ?thesis by (simp add: set_slot_def indices Let_def)
qed

lemma set_slot_twice [simp]:
  fixes m :: "'a ShardedRegisterMap" and k x y n
  shows "sh_shape m \<Longrightarrow> set_slot ((set_slot m k x)\<lparr>sh_len := n\<rparr>) k y = (set_slot m k y)\<lparr>sh_len := n\<rparr>"
proof -
  assume sh: "sh_shape m"
  have "unat k mod 64 < length (sh_shards m)" using sh by (simp add: sh_shape_def)
  then show ?thesis by (simp add: set_slot_def indices Let_def)
qed

lemma set_slot_twice_same [simp]: "sh_shape m \<Longrightarrow> set_slot (set_slot m k x) k y = set_slot m k y"
  by (drule set_slot_twice [where n = "sh_len m" and k = k and x = x and y = y]) (simp only: set_slot_len_same)

lemma insert_existing:
  assumes "slot_of m (seg_key a) = Some g"
  shows "snd (ShardedRegisterMap_insert d m a v) =
    (set_slot m (seg_key a) (Some (snd (RegisterSegment_set g (seg_off a) v))))
      \<lparr>sh_len := sh_len m + (if fst (RegisterSegment_set g (seg_off a) v) = None then 1 else 0)\<rparr>"
  using assms by (simp add: insert_eq Let_def segment_or_new_def fst_set sh_lookup_def)

lemma insert_all_existing:
  assumes "sh_shape m" "unat k < 1024" "slot_of m k = Some g"
    and "\<And>i. i < length vs \<Longrightarrow> seg_key (as_u16 (c + i)) = k \<and> seg_off (as_u16 (c + i)) = off + i"
    and "length (seg_values g) = 64"
  shows "insert_all d m c vs = (set_slot m k (Some (snd (set_cells off vs (0, g)))))
      \<lparr>sh_len := sh_len m + fst (set_cells off vs (0, g))\<rparr>"
  using assms
proof (induction vs arbitrary: m c off g)
  case Nil
  then show ?case by (simp add: set_slot_id)
next
  case (Cons v vs)
  obtain p g' where pg: "RegisterSegment_set g off v = (p, g')" by (rule prod.exhaust)
  have here: "seg_key (as_u16 c) = k" "seg_off (as_u16 c) = off" using Cons.prems(4) [of 0] by simp_all
  then have off: "off < 64" using seg_off_less [of "as_u16 c"] by simp
  have g': "seg_wf g'" using seg_wf_set [OF off Cons.prems(5), of v] by (simp add: pg)
  let ?m = "snd (ShardedRegisterMap_insert d m (as_u16 c) v)"
  have m: "?m = (set_slot m k (Some g'))\<lparr>sh_len := sh_len m + (if p = None then 1 else 0)\<rparr>"
    using insert_existing [of m "as_u16 c" g d v] Cons.prems(3) here pg by simp
  have "insert_all d ?m (Suc c) vs = (set_slot ?m k (Some (snd (set_cells (off + 1) vs (0, g')))))
      \<lparr>sh_len := sh_len ?m + fst (set_cells (off + 1) vs (0, g'))\<rparr>"
  proof (rule Cons.IH)
    show "sh_shape ?m" by (rule shape_insert [OF Cons.prems(1)])
    show "slot_of ?m k = Some g'" by (simp add: m slot_of_set_slot Cons.prems(1,2))
    show "seg_key (as_u16 (Suc c + i)) = k \<and> seg_off (as_u16 (Suc c + i)) = off + 1 + i" if "i < length vs" for i
      using Cons.prems(4) [of "Suc i"] that by simp
    show "length (seg_values g') = 64" using g' by (simp add: seg_wf_def)
  qed (rule Cons.prems(2))
  then show ?case
    using set_cells_acc [of "off + 1" vs "if p = None then 1 else 0" g'] Cons.prems(1) pg
    by (cases p) (simp_all add: m)
qed

text \<open>The addresses of a chunk lie in one segment.\<close>

lemma chunk_address:
  assumes "c mod 64 + i < 64" "c + i < 65536"
  shows "seg_key (as_u16 (c + i)) = seg_key (as_u16 c)" "seg_off (as_u16 (c + i)) = c mod 64 + i"
proof -
  have "unat (as_u16 (c + i)) = c + i" "unat (as_u16 c) = c" using assms(2) by (intro unat_as_u16; simp)+
  moreover have "(c + i) div 64 = c div 64" "(c + i) mod 64 = c mod 64 + i"
    using assms(1) div_add1_eq [of c i 64] mod_add_left_eq [of c 64 i] by simp_all
  ultimately show "seg_key (as_u16 (c + i)) = seg_key (as_u16 c)" "seg_off (as_u16 (c + i)) = c mod 64 + i"
    by (simp_all only: seg_key_def seg_off_def)
qed

lemma write_chunk_insert_all:
  assumes sh: "sh_shape m" and vs: "vs \<noteq> []" and seg: "c mod 64 + length vs \<le> 64" "c + length vs \<le> 65536"
  shows "write_chunk d m c vs = insert_all d m c vs"
proof -
  obtain v ws where v: "vs = v # ws" using vs by (cases vs) auto
  let ?k = "seg_key (as_u16 c)" and ?off = "c mod 64"
  have off: "seg_off (as_u16 c) = ?off" using chunk_address(2) [of c 0] seg v by simp
  let ?g = "segment_or_new d m ?k"
  obtain p g where pg: "RegisterSegment_set ?g ?off v = (p, g)" by (rule prod.exhaust)
  have p: "p = sh_lookup m (as_u16 c)"
    using fst_set [of ?g ?off v] get_segment_or_new [of ?off d m ?k] by (simp add: pg sh_lookup_def off)
  have g: "seg_wf g"
    using seg_wf_set [of ?off ?g v] length_segment_or_new [OF sh seg_key_less, of d "as_u16 c"] by (simp add: pg)
  let ?m = "snd (ShardedRegisterMap_insert d m (as_u16 c) v)"
  have m: "?m = (set_slot m ?k (Some g))\<lparr>sh_len := sh_len m + (if p = None then 1 else 0)\<rparr>"
    by (simp add: insert_eq Let_def off pg p)
  have "insert_all d ?m (Suc c) ws = (set_slot ?m ?k (Some (snd (set_cells (?off + 1) ws (0, g)))))
      \<lparr>sh_len := sh_len ?m + fst (set_cells (?off + 1) ws (0, g))\<rparr>"
  proof (rule insert_all_existing)
    show "sh_shape ?m" by (rule shape_insert [OF sh])
    show "slot_of ?m ?k = Some g" by (simp add: m slot_of_set_slot sh seg_key_less)
    show "seg_key (as_u16 (Suc c + i)) = ?k \<and> seg_off (as_u16 (Suc c + i)) = ?off + 1 + i" if "i < length ws" for i
      using chunk_address [of c "Suc i"] seg that v by simp
    show "length (seg_values g) = 64" using g by (simp add: seg_wf_def)
  qed (rule seg_key_less)
  then show ?thesis
    using set_cells_acc [of "?off + 1" ws "if p = None then 1 else 0" g] sh pg
    by (cases p) (simp_all add: v m write_chunk_def split_address_eq off Let_def split: prod.split)
qed

lemma insert_all_shape: "sh_shape m \<Longrightarrow> sh_shape (insert_all d m c vs)"
  by (induction vs arbitrary: m c) (simp_all add: shape_insert)

lemma insert_all_wf: "sh_wf m \<Longrightarrow> sh_wf (insert_all d m c vs)"
  by (induction vs arbitrary: m c) (simp_all add: wf_insert)

text \<open>The value at a 16-bit address after consecutive cells have been replaced.\<close>

definition cells_updated :: "(u16 \<Rightarrow> 'a option) \<Rightarrow> nat \<Rightarrow> 'a list \<Rightarrow> u16 \<Rightarrow> 'a option" where
  "cells_updated f c vs a =
    (if c \<le> unat a \<and> unat a < c + length vs then Some (vs ! (unat a - c)) else f a)"

lemma insert_all_lookup:
  "sh_shape m \<Longrightarrow> c + length vs \<le> 65536 \<Longrightarrow>
   sh_lookup (insert_all d m c vs) = cells_updated (sh_lookup m) c vs"
proof (induction vs arbitrary: m c)
  case Nil
  show ?case by (rule ext) (auto simp: cells_updated_def)
next
  case (Cons v vs)
  let ?m = "snd (ShardedRegisterMap_insert d m (as_u16 c) v)"
  have c: "unat (as_u16 c) = c" using Cons.prems by (intro unat_as_u16) simp
  have "sh_lookup (insert_all d ?m (Suc c) vs) = cells_updated ((sh_lookup m)(as_u16 c \<mapsto> v)) (Suc c) vs"
    unfolding lookup_insert [OF Cons.prems(1), symmetric, where d = d]
    by (rule Cons.IH) (use Cons.prems in \<open>simp_all add: shape_insert\<close>)
  also have "\<dots> = cells_updated (sh_lookup m) c (v # vs)"
  proof (rule ext)
    fix a
    have "a = as_u16 c \<longleftrightarrow> unat a = c" using c by (metis word_unat_eq_iff)
    then show "cells_updated ((sh_lookup m)(as_u16 c \<mapsto> v)) (Suc c) vs a = cells_updated (sh_lookup m) c (v # vs) a"
      by (cases "unat a" c rule: linorder_cases) (auto simp: cells_updated_def nth_Cons' Suc_diff_Suc)
  qed
  finally show ?case by simp
qed


section \<open>The chunked loops\<close>

lemma chunk_in_segment:
  assumes "c < e" "e \<le> 65536"
  defines "n \<equiv> min (ShardedRegisterMap_next_boundary c) e - c"
  shows "0 < n" "c mod 64 + n \<le> 64" "c + n \<le> e"
proof -
  have "ShardedRegisterMap_next_boundary c = c + (64 - c mod 64)"
    unfolding ShardedRegisterMap_next_boundary_def SEGMENT_SIZE_def
    by presburger
  moreover have "c mod 64 < 64" by simp
  ultimately show "0 < n" "c mod 64 + n \<le> 64" "c + n \<le> e" using assms(1) by (auto simp: n_def min_def)
qed

lemma write_loop_insert_all:
  assumes "sh_shape m" "a \<le> c" "c \<le> a + length vs" "a + length vs \<le> 65536"
  shows "write_loop_from d a vs c m = insert_all d m c (drop (c - a) vs)"
  using assms
proof (induction d a vs c m rule: write_loop_from.induct)
  case (1 d a vs c m)
  show ?case
  proof (cases "c < a + length vs")
    case True
    define e where "e = min (ShardedRegisterMap_next_boundary c) (a + length vs)"
    define ws where "ws = take (e - c) (drop (c - a) vs)"
    note n = chunk_in_segment [OF True \<open>a + length vs \<le> 65536\<close>, folded e_def]
    have len: "length ws = e - c" using n True 1(3) by (simp add: ws_def)
    have chunk: "write_chunk d m c ws = insert_all d m c ws"
      using n len 1(2,5) by (intro write_chunk_insert_all) auto
    have "write_loop_from d a vs c m = write_loop_from d a vs e (insert_all d m c ws)"
      using True by (subst write_loop_from.simps) (simp add: Let_def chunk flip: e_def ws_def)
    also have "\<dots> = insert_all d (insert_all d m c ws) e (drop (e - a) vs)"
      using 1(1) [OF refl True e_def refl refl] 1(2,3,5) n chunk
      by (simp add: insert_all_shape flip: ws_def)
    also have "\<dots> = insert_all d m c (drop (c - a) vs)"
    proof -
      have "drop (c - a) vs = ws @ drop (e - a) vs"
        using n 1(3) append_take_drop_id [of "e - c" "drop (c - a) vs"] by (simp add: ws_def)
      then show ?thesis using n len by (simp add: insert_all_append)
    qed
    finally show ?thesis .
  next
    case False
    then show ?thesis using 1(4) by (subst write_loop_from.simps) simp
  qed
qed

lemma write_range_eq:
  "sh_shape m \<Longrightarrow> unat a + length vs \<le> 65536 \<Longrightarrow>
   ShardedRegisterMap_write_range d m a vs = insert_all d m (unat a) vs"
  by (simp add: ShardedRegisterMap_write_range_def write_loop_insert_all)

lemma populate_loop_insert_all:
  assumes "sh_shape m" "e \<le> 65536"
  shows "populate_loop d f e c m = insert_all d m c (map (\<lambda>i. f (as_u16 i)) [c..<e])"
  using assms
proof (induction d f e c m rule: populate_loop.induct)
  case (1 d f e c m)
  show ?case
  proof (cases "c < e")
    case True
    define b where "b = min (ShardedRegisterMap_next_boundary c) e"
    define ws where "ws = map (\<lambda>i. f (as_u16 i)) [c..<b]"
    note n = chunk_in_segment [OF True 1(3), folded b_def]
    have chunk: "write_chunk d m c ws = insert_all d m c ws"
      using n 1(2,3) by (intro write_chunk_insert_all) (auto simp: ws_def)
    have "populate_loop d f e c m = populate_loop d f e b (insert_all d m c ws)"
      using True chunk by (subst populate_loop.simps) (simp add: Let_def flip: b_def ws_def)
    also have "\<dots> = insert_all d (insert_all d m c ws) b (map (\<lambda>i. f (as_u16 i)) [b..<e])"
      using 1(1) [OF True b_def] 1(2,3) chunk by (simp add: insert_all_shape flip: ws_def)
    also have "\<dots> = insert_all d m c (map (\<lambda>i. f (as_u16 i)) [c..<e])"
    proof -
      have "[c..<e] = [c..<b] @ [b..<e]" using n upt_add_eq_append [of c b "e - b"] by simp
      moreover have "c + length ws = b" using n by (simp add: ws_def)
      ultimately show ?thesis by (simp only: map_append insert_all_append ws_def)
    qed
    finally show ?thesis .
  next
    case False
    then show ?thesis by (subst populate_loop.simps) simp
  qed
qed

lemma fill_nth:
  assumes "a \<le> c" "k < length r"
  shows "fold (\<lambda>j r. case h j of Some v \<Rightarrow> r[j - a := v] | None \<Rightarrow> r) [c..<b] r ! k =
    (if c \<le> a + k \<and> a + k < b then (case h (a + k) of Some v \<Rightarrow> v | None \<Rightarrow> r ! k) else r ! k)"
proof (induction b)
  case (Suc b)
  let ?r = "fold (\<lambda>j r. case h j of Some v \<Rightarrow> r[j - a := v] | None \<Rightarrow> r) [c..<b] r"
  have len: "length ?r = length r" by (rule fold_invariant [where Q = "\<lambda>_. True"]) (auto split: option.split)
  show ?case
  proof (cases "c \<le> b")
    case True
    then have "a + k = b \<longleftrightarrow> k = b - a" using assms(1) by auto
    then show ?thesis using True Suc assms len
      by (cases "a + k = b") (auto simp: nth_list_update split: option.split)
  qed (use assms in auto)
qed auto

definition read_cell :: "'a ShardedRegisterMap \<Rightarrow> nat \<Rightarrow> 'a \<Rightarrow> 'a" where
  "read_cell m i dflt = (case sh_lookup m (as_u16 i) of Some v \<Rightarrow> v | None \<Rightarrow> dflt)"

lemma length_fill [simp]:
  "length (fold (\<lambda>j r. case h j of Some v \<Rightarrow> r[f j := v] | None \<Rightarrow> r) js r) = length r"
  by (rule fold_invariant [where Q = "\<lambda>_. True"]) (auto split: option.split)

lemma read_chunk:
  fixes m :: "'a ShardedRegisterMap"
  assumes "a \<le> c" "c < e" "e \<le> 65536" "k < length r"
  defines "b \<equiv> min (ShardedRegisterMap_next_boundary c) e"
  defines "r' \<equiv> (case slot_of m (seg_key (as_u16 c)) of
      Some g \<Rightarrow> fold (\<lambda>raw r. case RegisterSegment_get g (seg_off (as_u16 c) + (raw - c)) of
          Some v \<Rightarrow> r[c - a + (raw - c) := v] | None \<Rightarrow> r) [c..<b] r
    | None \<Rightarrow> r)"
  shows "length r' = length r"
    and "r' ! k = (if c \<le> a + k \<and> a + k < b then read_cell m (a + k) (r ! k) else r ! k)"
proof -
  note n = chunk_in_segment [OF assms(2,3), folded b_def]
  show "length r' = length r" by (simp add: r'_def split: option.split)
  have cell: "sh_lookup m (as_u16 i) = Option.bind (slot_of m (seg_key (as_u16 c)))
      (\<lambda>g. RegisterSegment_get g (seg_off (as_u16 c) + (i - c)))" if "c \<le> i" "i < b" for i
    using chunk_address [of c "i - c"] chunk_address(2) [of c 0] that n assms(3) by (simp add: sh_lookup_def)
  show "r' ! k = (if c \<le> a + k \<and> a + k < b then read_cell m (a + k) (r ! k) else r ! k)"
  proof (cases "slot_of m (seg_key (as_u16 c))")
    case None
    then show ?thesis using cell [of "a + k"] by (simp add: r'_def read_cell_def)
  next
    case (Some g)
    have "r' = fold (\<lambda>raw r. case RegisterSegment_get g (seg_off (as_u16 c) + (raw - c)) of
        Some v \<Rightarrow> r[raw - a := v] | None \<Rightarrow> r) [c..<b] r"
      unfolding r'_def Some using assms(1) by (auto intro!: fold_cong split: option.split)
    then show ?thesis using fill_nth [OF assms(1,4)] cell [of "a + k"] Some by (simp add: read_cell_def)
  qed
qed

lemma read_loop_nth:
  assumes "a \<le> c" "c \<le> e" "e \<le> 65536" "length r = e - a"
  shows "length (read_loop m a e c r) = e - a \<and>
    (\<forall>k < e - a. read_loop m a e c r ! k = (if c \<le> a + k then read_cell m (a + k) (r ! k) else r ! k))"
  using assms
proof (induction m a e c r rule: read_loop.induct)
  case (1 m a e c r)
  show ?case
  proof (cases "c < e")
    case True
    define b where "b = min (ShardedRegisterMap_next_boundary c) e"
    define r' where "r' = (case slot_of m (seg_key (as_u16 c)) of
      Some g \<Rightarrow> fold (\<lambda>raw r. case RegisterSegment_get g (seg_off (as_u16 c) + (raw - c)) of
          Some v \<Rightarrow> r[c - a + (raw - c) := v] | None \<Rightarrow> r) [c..<b] r
    | None \<Rightarrow> r)"
    note n = chunk_in_segment [OF True 1(4), folded b_def]
    note chunk = read_chunk [OF 1(2) True 1(4), of _ r m, folded b_def, folded r'_def]
    have step: "read_loop m a e c r = read_loop m a e b r'"
      using True by (subst read_loop.simps) (simp add: Let_def split_address_eq flip: b_def r'_def)
    have len: "length r' = e - a" using 1(5) by (auto simp: r'_def split: option.split)
    have "length (read_loop m a e b r') = e - a \<and>
      (\<forall>k < e - a. read_loop m a e b r' ! k = (if b \<le> a + k then read_cell m (a + k) (r' ! k) else r' ! k))"
      by (rule 1(1) [OF True b_def split_address_eq [symmetric]])
        (use n 1(2,4) len in \<open>auto simp: r'_def\<close>)
    then show ?thesis using chunk n 1(5) unfolding step by auto
  next
    case False
    then have "read_loop m a e c r = r" by (subst read_loop.simps) simp
    then show ?thesis using 1(2,5) False by auto
  qed
qed

lemma read_range_eq:
  assumes "unat a + unat q \<le> 65536"
  shows "ShardedRegisterMap_read_range m a q dflt = map (\<lambda>i. read_cell m i dflt) [unat a..<unat a + unat q]"
  using read_loop_nth [of "unat a" "unat a" "unat a + unat q" "replicate (unat q) dflt" m] assms
  by (intro nth_equalityI) (simp_all add: ShardedRegisterMap_read_range_def)


section \<open>Snapshots\<close>

lemma in_snapshot_segment:
  "(a, v) \<in> set (snapshot_segment base g) \<longleftrightarrow>
     (\<exists>i < 64. a = as_u16 (base + i) \<and> RegisterSegment_get g i = Some v)"
  by (force simp: snapshot_segment_def List.map_filter_def SEGMENT_SIZE_def)

lemma segment_number: "i < 64 \<Longrightarrow> push_bit 6 j OR i = 64 * j + (i :: nat)"
proof -
  assume "i < 64"
  then have "take_bit 6 i = i" by (simp add: take_bit_nat_eq_self)
  then have "push_bit 6 j OR i = push_bit 6 j + i"
    by (intro disjunctive_add [symmetric]) (metis bit_push_bit_iff bit_take_bit_iff not_less)
  then show ?thesis by (simp add: push_bit_eq_mult)
qed

lemma seg_key_indices:
  assumes "s < 1024" "n < 64"
  shows "seg_key (as_u16 (s * 64 + n)) = as_u16 s" and "seg_off (as_u16 (s * 64 + n)) = n"
proof -
  have "unat (as_u16 (s * 64 + n)) = s * 64 + n" using assms by (intro unat_as_u16) simp
  moreover have "(s * 64 + n) div 64 = s" "(s * 64 + n) mod 64 = n" using assms(2) by simp_all
  ultimately show "seg_key (as_u16 (s * 64 + n)) = as_u16 s" "seg_off (as_u16 (s * 64 + n)) = n"
    by (simp_all only: seg_key_def seg_off_def)
qed

lemma in_concat_enumerate:
  "x \<in> set (concat (map (\<lambda>(i, y). f i y) (enumerate 0 ys))) \<longleftrightarrow> (\<exists>i < length ys. x \<in> set (f i (ys ! i)))"
  by (force simp: in_set_enumerate_eq)

lemma slot_of_number:
  "i < 64 \<Longrightarrow> j < 16 \<Longrightarrow> slot_of m (as_u16 (64 * j + i)) = sh_shards m ! i ! j"
proof -
  assume ij: "i < 64" "j < 16"
  then have "unat (as_u16 (64 * j + i)) = 64 * j + i" by (intro unat_as_u16) simp
  then show ?thesis using ij by (simp only: slot_of_def indices) simp
qed

lemma snapshot_set:
  assumes sh: "sh_shape m"
  shows "(a, v) \<in> set (ShardedRegisterMap_snapshot m) \<longleftrightarrow> sh_lookup m a = Some v"
proof -
  have len: "length (sh_shards m) = 64" "\<And>i. i < 64 \<Longrightarrow> length (sh_shards m ! i) = 16"
    using sh by (auto simp: sh_shape_def)
  have snap: "(a, v) \<in> set (ShardedRegisterMap_snapshot m) \<longleftrightarrow>
      (\<exists>i < 64. \<exists>j < 16. \<exists>g. sh_shards m ! i ! j = Some g \<and>
        (a, v) \<in> set (snapshot_segment ((64 * j + i) * 64) g))"
    unfolding ShardedRegisterMap_snapshot_def in_concat_enumerate len(1)
    by (intro ex_cong conj_cong refl)
      (simp add: in_concat_enumerate len segment_number SHARD_SHIFT_def SEGMENT_SIZE_def Let_def
        split: option.split, metis)
  show ?thesis
  proof
    assume "(a, v) \<in> set (ShardedRegisterMap_snapshot m)"
    then obtain i j g n where ij: "i < 64" "j < 16" and g: "sh_shards m ! i ! j = Some g"
      and n: "n < 64" "RegisterSegment_get g n = Some v" and a: "a = as_u16 ((64 * j + i) * 64 + n)"
      unfolding snap in_snapshot_segment by blast
    have s: "64 * j + i < 1024" using ij by simp
    show "sh_lookup m a = Some v"
      unfolding a sh_lookup_def seg_key_indices [OF s n(1)] slot_of_number [OF ij] g using n(2) by simp
  next
    assume look: "sh_lookup m a = Some v"
    let ?i = "unat a div 64 mod 64" and ?j = "unat a div 64 div 64" and ?n = "unat a mod 64"
    have ij: "?i < 64" "?j < 16" using seg_key_less [of a] by (simp_all add: unat_seg_key less_mult_imp_div_less)
    have s: "64 * ?j + ?i = unat a div 64" by simp
    have "slot_of m (seg_key a) = sh_shards m ! ?i ! ?j"
      using slot_of_number [OF ij, of m] by (simp only: s seg_key_def)
    then obtain g where g: "sh_shards m ! ?i ! ?j = Some g" "RegisterSegment_get g ?n = Some v"
      using look by (auto simp: sh_lookup_def seg_off_def Option.bind_eq_Some_conv)
    have "a = as_u16 ((64 * ?j + ?i) * 64 + ?n)" unfolding s by simp
    then show "(a, v) \<in> set (ShardedRegisterMap_snapshot m)"
      unfolding snap in_snapshot_segment using ij g by (metis mod_less_divisor zero_less_numeral)
  qed
qed

lemma reload_lookup:
  "sh_shape m \<Longrightarrow> sh_lookup (fold (\<lambda>(a, v) m. snd (ShardedRegisterMap_insert d m a v)) xs m) =
     sh_lookup m ++ map_of (rev xs) \<and> sh_shape (fold (\<lambda>(a, v) m. snd (ShardedRegisterMap_insert d m a v)) xs m)"
proof (induction xs arbitrary: m)
  case (Cons x xs)
  obtain a v where x: "x = (a, v)" by (rule prod.exhaust)
  have eq: "(sh_lookup m)(a \<mapsto> v) ++ map_of (rev xs) = sh_lookup m ++ map_of (rev xs @ [(a, v)])"
    by (simp add: map_add_def fun_eq_iff split: option.split)
  have IH: "sh_lookup (fold (\<lambda>(a, v) m. snd (ShardedRegisterMap_insert d m a v)) xs
        (snd (ShardedRegisterMap_insert d m a v))) = sh_lookup m ++ map_of (rev xs @ [(a, v)]) \<and>
      sh_shape (fold (\<lambda>(a, v) m. snd (ShardedRegisterMap_insert d m a v)) xs (snd (ShardedRegisterMap_insert d m a v)))"
    using Cons.IH [OF shape_insert [OF Cons.prems, of d a v]] unfolding lookup_insert [OF Cons.prems] eq .
  then show ?case by (simp only: x fold_Cons o_apply case_prod_conv rev.simps simp_thms)
qed simp


section \<open>Properties\<close>

text \<open>C4. The sharded store refines a partial map from addresses to values. Every state it can reach is
  well formed: 64 shards of 16 slots, no empty segment kept, and the cached length equal to the number of
  addresses present. On such a state each operation returns what the map operation returns and leaves the
  map that the map operation leaves: insertion, removal, lookup with a default, membership and clearing.\<close>
theorem sharded_map_refines:
  assumes "sh_wf m"
  shows "(let (old, m') = ShardedRegisterMap_insert d m a v in
       old = sh_lookup m a \<and> sh_lookup m' = (sh_lookup m)(a \<mapsto> v) \<and> sh_wf m') \<and>
    (let (old, m') = ShardedRegisterMap_remove m a in
       old = sh_lookup m a \<and> sh_lookup m' = (sh_lookup m)(a := None) \<and> sh_wf m') \<and>
    (ShardedRegisterMap_contains_key m a \<longleftrightarrow> a \<in> dom (sh_lookup m)) \<and>
    ShardedRegisterMap_read_one m a dflt = (case sh_lookup m a of Some w \<Rightarrow> w | None \<Rightarrow> dflt) \<and>
    sh_lookup (ShardedRegisterMap_clear m) = Map.empty \<and> sh_wf (ShardedRegisterMap_clear m) \<and>
    sh_len m = card (dom (sh_lookup m))"
proof -
  have sh: "sh_shape m" "sh_len m = card (dom (sh_lookup m))" using assms by (simp_all add: sh_wf_def)
  have "let (old, m') = ShardedRegisterMap_insert d m a v in
      old = sh_lookup m a \<and> sh_lookup m' = (sh_lookup m)(a \<mapsto> v) \<and> sh_wf m'"
    using fst_insert [of d m a v] lookup_insert [OF sh(1), of d a v] wf_insert [OF assms, of d a v]
    by (simp add: case_prod_beta)
  moreover have "let (old, m') = ShardedRegisterMap_remove m a in
      old = sh_lookup m a \<and> sh_lookup m' = (sh_lookup m)(a := None) \<and> sh_wf m'"
    using lookup_remove [OF sh(1), of a] wf_remove [OF assms, of a] by (simp add: case_prod_beta)
  ultimately show ?thesis
    using sh clear_lookup [OF sh(1)] wf_clear [OF sh(1)] contains_key_eq [of m a] read_one_eq [of m a dflt] by simp
qed

theorem sharded_map_refines_witness:
  "sh_wf (ShardedRegisterMap_new :: u16 ShardedRegisterMap) \<and>
   sh_lookup (snd (ShardedRegisterMap_insert 0 ShardedRegisterMap_new 4097 (7 :: u16))) = [4097 \<mapsto> 7]"
  using sharded_map_refines [OF wf_new, of "0 :: u16" 4097 7] wf_new by (simp add: case_prod_beta)

text \<open>C11. The chunked bulk operations agree with cell-by-cell access: a range write replaces exactly the
  cells from the address on, a range population writes the generated value at every address of the range, a
  range read returns the value of each cell or the default, and all three keep the structure well formed.\<close>
theorem sharded_ranges_exact:
  assumes "sh_wf m" "unat a + length vs \<le> 65536" "unat a + unat q \<le> 65536" "s \<le> e"
  shows "sh_wf (ShardedRegisterMap_write_range d m a vs) \<and>
    (\<forall>x. sh_lookup (ShardedRegisterMap_write_range d m a vs) x =
      (if unat a \<le> unat x \<and> unat x < unat a + length vs then Some (vs ! (unat x - unat a)) else sh_lookup m x)) \<and>
    sh_wf (ShardedRegisterMap_populate_range d m s e f) \<and>
    (\<forall>x. sh_lookup (ShardedRegisterMap_populate_range d m s e f) x =
      (if s \<le> x \<and> x \<le> e then Some (f x) else sh_lookup m x)) \<and>
    ShardedRegisterMap_read_range m a q dflt =
      map (\<lambda>i. ShardedRegisterMap_read_one m (as_u16 i) dflt) [unat a..<unat a + unat q]"
proof -
  have sh: "sh_shape m" using assms(1) by (simp add: sh_wf_def)
  let ?fs = "map (\<lambda>i. f (as_u16 i)) [unat s..<unat e + 1]"
  have se: "unat s \<le> unat e" using assms(4) by (simp add: word_le_nat_alt)
  have top: "unat e + 1 \<le> 65536" using unat_u16_less [of e] by linarith
  have pop: "ShardedRegisterMap_populate_range d m s e f = insert_all d m (unat s) ?fs"
    by (simp only: ShardedRegisterMap_populate_range_def populate_loop_insert_all [OF sh top])
  have "sh_lookup (insert_all d m (unat s) ?fs) x = (if s \<le> x \<and> x \<le> e then Some (f x) else sh_lookup m x)" for x
    using insert_all_lookup [OF sh, of "unat s" ?fs d] se top
    by (auto simp: cells_updated_def word_le_nat_alt simp del: upt_Suc)
  then show ?thesis
    using sh assms(1-3) pop
    by (simp add: write_range_eq insert_all_wf insert_all_lookup cells_updated_def read_range_eq read_cell_def
        read_one_eq)
qed

theorem sharded_ranges_exact_witness:
  "ShardedRegisterMap_read_range
     (ShardedRegisterMap_write_range 0 ShardedRegisterMap_new 62 [1 :: u16, 2, 3]) 61 5 9 = [9, 1, 2, 3, 9]"
proof -
  let ?m = "ShardedRegisterMap_write_range 0 ShardedRegisterMap_new 62 [1 :: u16, 2, 3]"
  have w: "sh_wf ?m" "\<And>x. sh_lookup ?m x = (if 62 \<le> unat x \<and> unat x < 65 then Some ([1, 2, 3] ! (unat x - 62)) else None)"
    using sharded_ranges_exact [OF wf_new, of 62 "[1 :: u16, 2, 3]" 0 0 0 0 "\<lambda>_. 0" 0] by simp_all
  have "[61..<66] = [61, 62, 63, 64, 65 :: nat]" by (simp add: upt_rec)
  then show ?thesis
    using sharded_ranges_exact [OF w(1), of 61 "[]" 5 0 0 0 "\<lambda>_. 0" 9] by (simp add: read_one_eq w(2))
qed

text \<open>A snapshot lists exactly the present cells, and loading it into an empty store gives back the
  same map.\<close>
theorem sharded_snapshot_roundtrip:
  assumes "sh_wf m"
  shows "set (ShardedRegisterMap_snapshot m) = {(a, v). sh_lookup m a = Some v} \<and>
    sh_lookup (fold (\<lambda>(a, v) m. snd (ShardedRegisterMap_insert d m a v))
      (ShardedRegisterMap_snapshot m) ShardedRegisterMap_new) = sh_lookup m"
proof -
  have sh: "sh_shape m" "sh_shape (ShardedRegisterMap_new :: 'a ShardedRegisterMap)"
    using assms wf_new [where ?'a = 'a] by (simp_all add: sh_wf_def)
  let ?xs = "ShardedRegisterMap_snapshot m"
  have set: "set ?xs = {(a, v). sh_lookup m a = Some v}" using snapshot_set [OF sh(1)] by auto
  have "map_of (rev ?xs) = sh_lookup m"
  proof (rule ext)
    fix a
    have "map_of (rev ?xs) a = None \<longleftrightarrow> sh_lookup m a = None"
      using set by (force simp: map_of_eq_None_iff)
    moreover have "sh_lookup m a = Some v" if "map_of (rev ?xs) a = Some v" for v
      using map_of_SomeD [OF that] set by auto
    ultimately show "map_of (rev ?xs) a = sh_lookup m a" by (cases "map_of (rev ?xs) a") auto
  qed
  then show ?thesis using set reload_lookup [OF sh(2), of d ?xs] by simp
qed

theorem sharded_snapshot_roundtrip_witness:
  "set (ShardedRegisterMap_snapshot (snd (ShardedRegisterMap_insert 0 ShardedRegisterMap_new 4097 (7 :: u16)))) =
    {(4097, 7)}"
proof -
  have sh: "sh_shape (ShardedRegisterMap_new :: u16 ShardedRegisterMap)"
    using wf_new [where ?'a = u16] by (simp add: sh_wf_def)
  show ?thesis
    using sharded_snapshot_roundtrip [OF wf_insert [OF wf_new, of "0 :: u16" 4097 7], of 0]
    by (auto simp: lookup_insert [OF sh] split: if_splits)
qed

end
