(* ===== verification/Modbus_Rtu.thy ===== *)
theory Modbus_Rtu
  imports Wire_Codec
begin

text \<open>
  The Modbus RTU frame layer, \<^verbatim>\<open>mabi-modbus/src/rtu/frame.rs\<close>: the CRC-16 with its lookup
  table and without it, frames and their encoder and decoder, the length estimate of the
  incremental decoder, and the packing of coils into bytes.
\<close>

section \<open>CRC-16\<close>

definition RTU_MIN_FRAME_SIZE :: usize where "RTU_MIN_FRAME_SIZE = 4"
definition RTU_MAX_FRAME_SIZE :: usize where "RTU_MAX_FRAME_SIZE = 256"
definition RTU_MAX_PDU_SIZE :: usize where "RTU_MAX_PDU_SIZE = 253"
definition CRC_POLYNOMIAL :: u16 where "CRC_POLYNOMIAL = 0xA001"

text \<open>One turn of the inner loop, shared by the table generator and the slow routine.\<close>

definition crc_shift :: "u16 \<Rightarrow> u16" where
  "crc_shift crc =
    (if crc AND 0x0001 \<noteq> 0 then drop_bit 1 crc XOR CRC_POLYNOMIAL else drop_bit 1 crc)"

definition generate_crc_table :: "u16 list" where
  "generate_crc_table = map (\<lambda>i. (crc_shift ^^ 8) (of_nat i)) [0..<256]"

definition CRC_TABLE :: "u16 list" where "CRC_TABLE = generate_crc_table"

fun crc_table_loop :: "u16 \<Rightarrow> bytes \<Rightarrow> u16" where
  "crc_table_loop crc [] = crc"
| "crc_table_loop crc (b # bs) =
    (let index = (crc XOR ucast b) AND 0xFF
     in crc_table_loop (drop_bit 8 crc XOR CRC_TABLE ! unat index) bs)"

definition calculate_crc :: "bytes \<Rightarrow> u16" where
  "calculate_crc data = crc_table_loop 0xFFFF data"

fun crc_slow_loop :: "u16 \<Rightarrow> bytes \<Rightarrow> u16" where
  "crc_slow_loop crc [] = crc"
| "crc_slow_loop crc (b # bs) = crc_slow_loop ((crc_shift ^^ 8) (crc XOR ucast b)) bs"

definition calculate_crc_slow :: "bytes \<Rightarrow> u16" where
  "calculate_crc_slow data = crc_slow_loop 0xFFFF data"

definition u16_of_le :: "u8 \<Rightarrow> u8 \<Rightarrow> u16" where
  "u16_of_le lo hi = u16_of_be hi lo"

definition verify_crc :: "bytes \<Rightarrow> bool" where
  "verify_crc frame =
    (if length frame < RTU_MIN_FRAME_SIZE then False
     else let data_len = length frame - 2;
              received_crc = u16_of_le (frame ! data_len) (frame ! (data_len + 1));
              calculated_crc = calculate_crc (take data_len frame)
          in received_crc = calculated_crc)"

definition append_crc :: "buf_api \<Rightarrow> bytes \<Rightarrow> bytes" where
  "append_crc B buf = api_put_u16_le B buf (calculate_crc buf)"


section \<open>Frames\<close>

datatype RtuFrameError =
    RtuTooShort usize usize
  | RtuTooLong usize usize
  | RtuCrcMismatch u16 u16
  | RtuInvalidUnitId u8
  | RtuInvalidFunctionCode u8
  | RtuIncomplete usize usize

record RtuFrame =
  rtu_unit_id :: u8
  rtu_pdu :: bytes
  rtu_crc :: u16

definition RtuFrame_new :: "u8 \<Rightarrow> bytes \<Rightarrow> RtuFrame" where
  "RtuFrame_new unit_id pdu =
     \<lparr>rtu_unit_id = unit_id, rtu_pdu = pdu, rtu_crc = calculate_crc (unit_id # pdu)\<rparr>"

definition RtuFrame_response :: "RtuFrame \<Rightarrow> bytes \<Rightarrow> RtuFrame" where
  "RtuFrame_response request response_pdu = RtuFrame_new (rtu_unit_id request) response_pdu"

definition RtuFrame_exception :: "u8 \<Rightarrow> u8 \<Rightarrow> u8 \<Rightarrow> RtuFrame" where
  "RtuFrame_exception unit_id function_code exception_code =
     RtuFrame_new unit_id [function_code OR 0x80, exception_code]"

definition RtuFrame_is_exception :: "RtuFrame \<Rightarrow> bool" where
  "RtuFrame_is_exception f = (case rtu_pdu f of [] \<Rightarrow> False | fc # _ \<Rightarrow> fc AND 0x80 \<noteq> 0)"

definition RtuFrame_encode_to :: "buf_api \<Rightarrow> RtuFrame \<Rightarrow> bytes \<Rightarrow> bytes" where
  "RtuFrame_encode_to B f buf =
    (let buf = api_put_u8 B buf (rtu_unit_id f);
         buf = api_put_slice B buf (rtu_pdu f)
     in api_put_u16_le B buf (rtu_crc f))"

definition RtuFrame_encode :: "buf_api \<Rightarrow> RtuFrame \<Rightarrow> bytes" where
  "RtuFrame_encode B f = RtuFrame_encode_to B f []"

definition RtuFrame_decode :: "bytes \<Rightarrow> (RtuFrameError, RtuFrame) outcome" where
  "RtuFrame_decode data =
    (if length data < RTU_MIN_FRAME_SIZE then Err (RtuTooShort (length data) RTU_MIN_FRAME_SIZE)
     else if RTU_MAX_FRAME_SIZE < length data then Err (RtuTooLong (length data) RTU_MAX_FRAME_SIZE)
     else let data_len = length data - 2 in
       obind (idx data data_len) (\<lambda>lo. obind (idx data (data_len + 1)) (\<lambda>hi.
         let received_crc = u16_of_le lo hi;
             calculated_crc = calculate_crc (take data_len data)
         in if received_crc \<noteq> calculated_crc then Err (RtuCrcMismatch calculated_crc received_crc)
            else obind (idx data 0) (\<lambda>unit_id.
              let pdu = drop 1 (take data_len data) in
              if pdu = [] then Err (RtuTooShort (length data) (RTU_MIN_FRAME_SIZE + 1))
              else Ok \<lparr>rtu_unit_id = unit_id, rtu_pdu = pdu, rtu_crc = received_crc\<rparr>))))"

definition estimate_frame_length :: "bytes \<Rightarrow> usize option" where
  "estimate_frame_length data =
    (if length data < 2 then None
     else let function_code = data ! 1 in
       if function_code AND 0x80 \<noteq> 0 then Some 5
       else if function_code \<in> {0x01, 0x02, 0x03, 0x04} then
         (if 3 \<le> length data then
            let third_byte = data ! 2 in
            if 8 \<le> length data then Some 8
            else if 3 + unat third_byte + 2 \<le> length data then Some (3 + unat third_byte + 2)
            else Some 8
          else Some 8)
       else if function_code \<in> {0x05, 0x06} then Some 8
       else if function_code = 0x16 then Some 10
       else if function_code = 0x0F then
         (if 7 \<le> length data then Some (7 + unat (data ! 6) + 2) else None)
       else if function_code = 0x10 then
         (if 7 \<le> length data then Some (7 + unat (data ! 6) + 2) else None)
       else None)"

definition RtuFrame_try_decode :: "bytes \<Rightarrow> (RtuFrameError, RtuFrame option) outcome" where
  "RtuFrame_try_decode data =
    (if length data < RTU_MIN_FRAME_SIZE then Ok None
     else case estimate_frame_length data of
       Some expected_len \<Rightarrow>
         if length data < expected_len then Ok None
         else obind (slice_to data expected_len) (\<lambda>d.
              obind (RtuFrame_decode d) (\<lambda>f. Ok (Some f)))
     | None \<Rightarrow> Ok None)"


section \<open>Bits\<close>

definition unpack_bits :: "bytes \<Rightarrow> usize \<Rightarrow> bool list" where
  "unpack_bits bs count =
     map (\<lambda>i. if i div 8 < length bs then drop_bit (i mod 8) (bs ! (i div 8)) AND 1 \<noteq> 0 else False)
       [0..<count]"

fun pack_loop :: "nat \<Rightarrow> bool list \<Rightarrow> bytes \<Rightarrow> bytes" where
  "pack_loop i [] result = result"
| "pack_loop i (b # bits) result =
     pack_loop (i + 1) bits
       (if b then result[i div 8 := result ! (i div 8) OR push_bit (i mod 8) 1] else result)"

definition pack_bits :: "bool list \<Rightarrow> bytes" where
  "pack_bits bits = pack_loop 0 bits (replicate ((length bits + 7) div 8) 0)"


section \<open>The table computes the bitwise CRC\<close>

lemma bit_and_1: "w AND 1 \<noteq> 0 \<longleftrightarrow> bit w 0" for w :: "'a::len word"
  by (simp add: and_one_eq bit_0 odd_iff_mod_2_eq_one)

lemma bit_imp_le_length_u16: "bit (w :: u16) n \<Longrightarrow> n < 16"
  using bit_imp_le_length [of w n] by simp

lemma crc_shift_bit: "crc_shift c = drop_bit 1 c XOR (if bit c 0 then CRC_POLYNOMIAL else 0)"
  by (simp add: crc_shift_def bit_and_1)

lemma crc_shift_xor: "crc_shift (a XOR b) = crc_shift a XOR crc_shift b"
  by (cases "bit a 0"; cases "bit b 0")
    (simp_all add: crc_shift_bit drop_bit_xor bit_xor_iff ac_simps)

lemma crc_shift_pow_xor: "(crc_shift ^^ n) (a XOR b) = (crc_shift ^^ n) a XOR (crc_shift ^^ n) b"
  by (induction n) (simp_all add: crc_shift_xor)

lemma crc_shift_pow_high:
  "(\<And>k. k < n \<Longrightarrow> \<not> bit w k) \<Longrightarrow> (crc_shift ^^ n) w = drop_bit n w"
proof (induction n arbitrary: w)
  case 0
  then show ?case by simp
next
  case (Suc n)
  have "crc_shift w = drop_bit 1 w" using Suc.prems [of 0] by (simp add: crc_shift_bit)
  moreover have "(crc_shift ^^ n) (drop_bit 1 w) = drop_bit n (drop_bit 1 w)"
    by (rule Suc.IH) (use Suc.prems in \<open>auto simp: bit_drop_bit_eq\<close>)
  ultimately show ?case by (simp add: funpow_Suc_right del: funpow.simps)
qed

lemma CRC_TABLE_nth: "w \<le> 0xFF \<Longrightarrow> CRC_TABLE ! unat w = (crc_shift ^^ 8) w"
  by (simp add: CRC_TABLE_def generate_crc_table_def word_le_nat_alt)

lemma and_0xFF_le: "w AND 0xFF \<le> 0xFF" for w :: u16
  by (rule word_and_le1)

lemma crc_byte_step:
  "drop_bit 8 c XOR CRC_TABLE ! unat ((c XOR ucast b) AND 0xFF) = (crc_shift ^^ 8) (c XOR ucast (b :: u8))"
proof -
  let ?x = "c XOR ucast b" and ?h = "push_bit 8 (drop_bit 8 c)"
  have x: "?x = (?x AND 0xFF) XOR ?h"
    by (rule bit_word_eqI) (auto simp: bit_simps dest: bit_imp_le_length)
  have "drop_bit 8 ?h = drop_bit 8 c"
  proof (rule bit_word_eqI)
    show "bit (drop_bit 8 ?h) n = bit (drop_bit 8 c) n" for n
      using bit_imp_le_length_u16 [of c "8 + n"] by (auto simp: bit_simps)
  qed
  then have h: "(crc_shift ^^ 8) ?h = drop_bit 8 c"
    by (subst crc_shift_pow_high) (auto simp: bit_simps)
  have "(crc_shift ^^ 8) ?x = (crc_shift ^^ 8) (?x AND 0xFF) XOR (crc_shift ^^ 8) ?h"
    by (subst x) (rule crc_shift_pow_xor)
  then show ?thesis
    by (simp only: h CRC_TABLE_nth [OF and_0xFF_le] ac_simps)
qed

lemma crc_loops_agree: "crc_table_loop c data = crc_slow_loop c data"
  by (induction data arbitrary: c) (simp_all add: Let_def crc_byte_step del: funpow.simps)

text \<open>The step is invertible: a byte cannot be changed without changing the CRC.\<close>

lemma bit_CRC_POLYNOMIAL_15: "bit CRC_POLYNOMIAL 15"
  by (simp add: CRC_POLYNOMIAL_def)

lemma xor_cancel_right: "a XOR c = b XOR c \<Longrightarrow> a = b" for a b c :: "'a::len word"
  by (metis xor.assoc xor_self_eq xor.right_neutral)

lemma xor_cancel_left: "c XOR a = c XOR b \<Longrightarrow> a = b" for a b c :: "'a::len word"
  by (metis xor.assoc xor_self_eq xor.left_neutral)

lemma crc_shift_inj: "crc_shift a = crc_shift b \<Longrightarrow> a = b"
proof -
  assume eq: "crc_shift a = crc_shift b"
  have top: "bit (crc_shift c) 15 = bit c 0" for c
    using bit_CRC_POLYNOMIAL_15 by (auto simp: crc_shift_bit bit_simps dest: bit_imp_le_length)
  have low: "bit a 0 = bit b 0" using arg_cong [OF eq, of "\<lambda>w. bit w 15"] by (simp only: top)
  with eq have "drop_bit 1 a = drop_bit 1 b" by (auto simp: crc_shift_bit dest: xor_cancel_right split: if_splits)
  then have "bit (drop_bit 1 a) n = bit (drop_bit 1 b) n" for n by simp
  then have high: "bit a (Suc n) = bit b (Suc n)" for n by (simp add: bit_drop_bit_eq)
  show "a = b" by (rule bit_word_eqI) (metis low high not0_implies_Suc)
qed

lemma crc_shift_pow_inj: "(crc_shift ^^ n) a = (crc_shift ^^ n) b \<Longrightarrow> a = b"
  by (induction n) (auto dest: crc_shift_inj)

lemma crc_slow_loop_inj_state: "crc_slow_loop c data = crc_slow_loop d data \<Longrightarrow> c = d"
  by (induction data arbitrary: c d) (auto dest!: crc_shift_pow_inj xor_cancel_right simp del: funpow.simps)

lemma crc_slow_loop_append: "crc_slow_loop c (xs @ ys) = crc_slow_loop (crc_slow_loop c xs) ys"
  by (induction xs arbitrary: c) (simp_all del: funpow.simps)

lemma ucast_u8_u16_inj: "ucast (a :: u8) = (ucast b :: u16) \<Longrightarrow> a = b"
  by (metis unat_ucast_u8_u16 word_unat_eq_iff)

lemma calculate_crc_slow: "calculate_crc data = calculate_crc_slow data"
  by (simp add: calculate_crc_def calculate_crc_slow_def crc_loops_agree)

lemma crc_one_byte_changed:
  assumes "calculate_crc (xs @ a # ys) = calculate_crc (xs @ b # ys)"
  shows "a = b"
proof -
  let ?c = "crc_slow_loop 0xFFFF xs"
  have "crc_slow_loop ((crc_shift ^^ 8) (?c XOR ucast a)) ys = crc_slow_loop ((crc_shift ^^ 8) (?c XOR ucast b)) ys"
    using assms by (simp add: calculate_crc_slow calculate_crc_slow_def crc_slow_loop_append del: funpow.simps)
  then have "?c XOR ucast a = ?c XOR ucast b"
    by (rule crc_shift_pow_inj [OF crc_slow_loop_inj_state])
  then show ?thesis by (rule ucast_u8_u16_inj [OF xor_cancel_left])
qed


section \<open>The frame codec\<close>

lemma u16_of_le_split [simp]: "u16_of_le (u16_be_lo v) (u16_be_hi v) = v"
  by (simp add: u16_of_le_def)

lemma u16_to_le_of_le [simp]: "u16_to_le (u16_of_le a b) = [a, b]"
  by (simp add: u16_to_le_def u16_of_le_def)

lemma rtu_list_cases:
  assumes "4 \<le> length (data :: bytes)"
  obtains u fc rest lo hi where "data = u # fc # rest @ [lo, hi]"
proof -
  obtain ys hi where "data = ys @ [hi]" using assms by (cases data rule: rev_cases) auto
  moreover obtain zs lo where "ys = zs @ [lo]" using assms calculation by (cases ys rule: rev_cases) auto
  moreover obtain u vs where "zs = u # vs" using assms calculation by (cases zs) auto
  moreover obtain fc rest where "vs = fc # rest" using assms calculation by (cases vs) auto
  ultimately show thesis using that by simp
qed

lemma rtu_body_cases:
  assumes "4 \<le> length (data :: bytes)"
  obtains body lo hi where "data = body @ [lo, hi]" "2 \<le> length body"
proof -
  obtain u fc rest lo hi where "data = u # fc # rest @ [lo, hi]" using assms by (rule rtu_list_cases)
  then show thesis by (intro that [of "u # fc # rest" lo hi]) simp_all
qed

lemma RtuFrame_decode_split:
  "RtuFrame_decode (u # fc # rest @ [lo, hi]) =
    (if 252 < length rest then Err (RtuTooLong (length rest + 4) 256)
     else if u16_of_le lo hi \<noteq> calculate_crc (u # fc # rest)
     then Err (RtuCrcMismatch (calculate_crc (u # fc # rest)) (u16_of_le lo hi))
     else Ok (RtuFrame_new u (fc # rest)))"
  by (auto simp: RtuFrame_decode_def RTU_MIN_FRAME_SIZE_def RTU_MAX_FRAME_SIZE_def Let_def idx_def
      nth_append RtuFrame_new_def)

context bytes_crate
begin

lemma RtuFrame_encode_eq: "RtuFrame_encode B f = rtu_unit_id f # rtu_pdu f @ u16_to_le (rtu_crc f)"
  by (simp add: RtuFrame_encode_def RtuFrame_encode_to_def put_laws Let_def)

lemma rtu_decode_encode:
  "1 \<le> length pdu \<Longrightarrow> length pdu \<le> RTU_MAX_PDU_SIZE \<Longrightarrow>
   RtuFrame_decode (RtuFrame_encode B (RtuFrame_new u pdu)) = Ok (RtuFrame_new u pdu)"
  by (cases pdu)
    (simp_all add: RtuFrame_encode_eq RtuFrame_decode_split RtuFrame_new_def u16_to_le_def RTU_MAX_PDU_SIZE_def)

lemma rtu_decode_exact:
  "RtuFrame_decode data = Ok f \<longleftrightarrow>
     (\<exists>u pdu. 1 \<le> length pdu \<and> length pdu \<le> RTU_MAX_PDU_SIZE \<and>
        f = RtuFrame_new u pdu \<and> data = RtuFrame_encode B f)"
proof
  assume ok: "RtuFrame_decode data = Ok f"
  then have "4 \<le> length data"
    by (simp add: RtuFrame_decode_def RTU_MIN_FRAME_SIZE_def split: if_splits)
  then obtain u fc rest lo hi where d: "data = u # fc # rest @ [lo, hi]" by (rule rtu_list_cases)
  have "length rest \<le> 252" "u16_of_le lo hi = calculate_crc (u # fc # rest)" "f = RtuFrame_new u (fc # rest)"
    using ok unfolding d RtuFrame_decode_split by (auto split: if_splits)
  then show "\<exists>u pdu. 1 \<le> length pdu \<and> length pdu \<le> RTU_MAX_PDU_SIZE \<and>
        f = RtuFrame_new u pdu \<and> data = RtuFrame_encode B f"
    by (intro exI [of _ u] exI [of _ "fc # rest"])
      (auto simp: d RtuFrame_encode_eq RtuFrame_new_def RTU_MAX_PDU_SIZE_def dest: sym)
next
  assume "\<exists>u pdu. 1 \<le> length pdu \<and> length pdu \<le> RTU_MAX_PDU_SIZE \<and>
        f = RtuFrame_new u pdu \<and> data = RtuFrame_encode B f"
  then obtain u pdu where "1 \<le> length pdu" "length pdu \<le> RTU_MAX_PDU_SIZE"
    and f: "f = RtuFrame_new u pdu" "data = RtuFrame_encode B f" by blast
  then show "RtuFrame_decode data = Ok f" unfolding f by (intro rtu_decode_encode)
qed

lemma verify_append_crc: "2 \<le> length buf \<Longrightarrow> verify_crc (append_crc B buf)"
  by (simp add: verify_crc_def append_crc_def put_laws RTU_MIN_FRAME_SIZE_def u16_to_le_def nth_append)

end

text \<open>A frame with one byte replaced fails the check, wherever the byte is.\<close>

lemma verify_crc_split:
  "2 \<le> length body \<Longrightarrow> verify_crc (body @ [lo, hi]) \<longleftrightarrow> u16_of_le lo hi = calculate_crc body"
  by (simp add: verify_crc_def RTU_MIN_FRAME_SIZE_def nth_append)

lemma u16_of_le_inj: "u16_of_le a b = u16_of_le c d \<Longrightarrow> a = c \<and> b = d"
  by (metis u16_of_le_def u16_be_hi_of_be u16_be_lo_of_be)

lemma verify_crc_changed_body:
  assumes "verify_crc (body @ [lo, hi])" "2 \<le> length body" "i < length body" "body ! i \<noteq> b"
  shows "\<not> verify_crc (body[i := b] @ [lo, hi])"
proof -
  have "calculate_crc (body[i := b]) \<noteq> calculate_crc body"
    using crc_one_byte_changed [of "take i body" "body ! i" "drop (Suc i) body" b] assms(3,4)
    by (metis id_take_nth_drop upd_conv_take_nth_drop)
  then show ?thesis using assms by (simp add: verify_crc_split)
qed


section \<open>Packing of bits\<close>

lemma length_pack_loop [simp]: "length (pack_loop i bits result) = length result"
  by (induction i bits result rule: pack_loop.induct) simp_all

lemma length_pack_bits [simp]: "length (pack_bits bits) = (length bits + 7) div 8"
  by (simp add: pack_bits_def)

lemma length_unpack_bits [simp]: "length (unpack_bits bs n) = n"
  by (simp add: unpack_bits_def)

lemma bit_pow_u8: "bit (2 ^ m :: u8) n \<longleftrightarrow> n = m \<and> m < 8"
  by (auto simp: bit_exp_iff)

lemma pack_loop_bit:
  "k < length result \<Longrightarrow> j < 8 \<Longrightarrow>
   bit (pack_loop i bits result ! k) j \<longleftrightarrow>
     bit (result ! k) j \<or> (i \<le> 8 * k + j \<and> 8 * k + j < i + length bits \<and> bits ! (8 * k + j - i))"
proof (induction i bits result rule: pack_loop.induct)
  case (1 i result)
  then show ?case by auto
next
  case (2 i b bits result)
  let ?r = "if b then result[i div 8 := result ! (i div 8) OR push_bit (i mod 8) 1] else result"
  let ?m = "8 * k + j"
  have IH: "bit (pack_loop (i + 1) bits ?r ! k) j \<longleftrightarrow> bit (?r ! k) j \<or>
      (i + 1 \<le> ?m \<and> ?m < i + 1 + length bits \<and> bits ! (?m - (i + 1)))"
    by (rule 2(1)) (use 2 in simp_all)
  have "i div 8 = k \<and> i mod 8 = j \<longleftrightarrow> i = ?m" using \<open>j < 8\<close> by auto
  then have upd: "bit (?r ! k) j \<longleftrightarrow> bit (result ! k) j \<or> (b \<and> i = ?m)"
    using 2(2) by (cases "i div 8 = k") (auto simp: bit_or_iff bit_pow_u8)
  show ?case
  proof (cases ?m i rule: linorder_cases)
    case less
    then show ?thesis by (simp only: pack_loop.simps IH upd) simp
  next
    case equal
    show ?thesis by (simp only: pack_loop.simps IH upd) (simp add: equal)
  next
    case greater
    then obtain d where d: "?m = Suc (i + d)" using less_imp_Suc_add by blast
    show ?thesis by (simp only: pack_loop.simps IH upd) (simp add: d)
  qed
qed

lemma pack_bits_bit:
  "k < (length bits + 7) div 8 \<Longrightarrow> j < 8 \<Longrightarrow>
   bit (pack_bits bits ! k) j \<longleftrightarrow> 8 * k + j < length bits \<and> bits ! (8 * k + j)"
  by (simp add: pack_bits_def pack_loop_bit)

lemma unpack_bits_nth:
  "i < n \<Longrightarrow> unpack_bits bs n ! i \<longleftrightarrow> i div 8 < length bs \<and> bit (bs ! (i div 8)) (i mod 8)"
  by (simp add: unpack_bits_def bit_and_1 bit_drop_bit_eq)

lemma unpack_pack_bits: "unpack_bits (pack_bits bits) (length bits) = bits"
proof (rule nth_equalityI)
  fix i
  assume "i < length (unpack_bits (pack_bits bits) (length bits))"
  then have i: "i < length bits" by simp
  then have k: "i div 8 < (length bits + 7) div 8"
    using div_le_mono [of "i + 8" "length bits + 7" 8] by simp
  have "bit (pack_bits bits ! (i div 8)) (i mod 8) = bits ! i"
    using pack_bits_bit [OF k, of "i mod 8"] i by (simp only: mult_div_mod_eq) simp
  with i k show "unpack_bits (pack_bits bits) (length bits) ! i = bits ! i"
    by (simp add: unpack_bits_nth)
qed simp

text \<open>In the other direction the padding bits of the last byte must be clear.\<close>

lemma pack_unpack_bits:
  assumes "length bs = (n + 7) div 8"
    and "\<And>k j. k < length bs \<Longrightarrow> j < 8 \<Longrightarrow> n \<le> 8 * k + j \<Longrightarrow> \<not> bit (bs ! k) j"
  shows "pack_bits (unpack_bits bs n) = bs"
proof (rule nth_equalityI)
  fix k
  assume "k < length (pack_bits (unpack_bits bs n))"
  then have k: "k < (n + 7) div 8" by simp
  show "pack_bits (unpack_bits bs n) ! k = bs ! k"
  proof (rule bit_word_eqI)
    fix j
    assume "j < LENGTH(8)"
    then have j: "j < 8" by simp
    show "bit (pack_bits (unpack_bits bs n) ! k) j = bit (bs ! k) j"
    proof (cases "8 * k + j < n")
      case True
      then show ?thesis using k j pack_bits_bit [of k "unpack_bits bs n" j] unpack_bits_nth [OF True, of bs]
        by (simp add: assms(1))
    next
      case False
      then show ?thesis using k j assms(2) [of k j] by (simp add: pack_bits_bit assms(1))
    qed
  qed
qed (simp add: assms(1))


section \<open>Properties\<close>

text \<open>C14. The lookup-table CRC computes the same value as the bit-by-bit routine on every input.\<close>
theorem crc_table_equiv: "calculate_crc data = calculate_crc_slow data"
  by (rule calculate_crc_slow)

text \<open>C15. A frame that passes the CRC check never passes it again after one of its bytes, the CRC
  bytes included, has been replaced by a different one.\<close>
theorem crc_detects_byte_error:
  assumes "verify_crc frame" "i < length frame" "frame ! i \<noteq> b"
  shows "\<not> verify_crc (frame[i := b])"
proof -
  have "4 \<le> length frame" using assms(1) by (simp add: verify_crc_def RTU_MIN_FRAME_SIZE_def split: if_splits)
  then obtain body lo hi where fb: "frame = body @ [lo, hi]" and len: "2 \<le> length body"
    by (rule rtu_body_cases)
  consider "i < length body" | "i = length body" | "i = Suc (length body)"
    using assms(2) fb by fastforce
  then show ?thesis
  proof cases
    case 1
    then show ?thesis using verify_crc_changed_body [of body lo hi i b] assms(1,3)
      by (simp add: fb len nth_append list_update_append1)
  next
    case 2
    then have "frame[i := b] = body @ [b, hi]" "b \<noteq> lo" using assms(3) by (auto simp: fb list_update_append nth_append)
    then show ?thesis using assms(1) len by (simp add: fb verify_crc_split) (metis u16_of_le_inj)
  next
    case 3
    then have "frame[i := b] = body @ [lo, b]" "b \<noteq> hi" using assms(3) by (auto simp: fb list_update_append nth_append)
    then show ?thesis using assms(1) len by (simp add: fb verify_crc_split) (metis u16_of_le_inj)
  qed
qed

theorem crc_detects_byte_error_witness:
  "verify_crc (append_crc std_buf [1, 3]) \<and> \<not> verify_crc ((append_crc std_buf [1, 3])[1 := 4])"
proof -
  have "verify_crc (append_crc std_buf [1, 3])" by (rule std.verify_append_crc) simp
  then show ?thesis using crc_detects_byte_error [of "append_crc std_buf [1, 3]" 1 4]
    by (simp add: append_crc_def std.put_laws u16_to_le_def)
qed

text \<open>C16. The frame decoder accepts exactly the encodings: a frame comes out of a byte string if and
  only if it is the frame of some unit and some PDU of 1 to 253 bytes and the byte string is its encoding.\<close>
theorem rtu_frame_decode_exact:
  assumes "bytes_crate B"
  shows "RtuFrame_decode data = Ok f \<longleftrightarrow>
    (\<exists>u pdu. 1 \<le> length pdu \<and> length pdu \<le> RTU_MAX_PDU_SIZE \<and>
       f = RtuFrame_new u pdu \<and> data = RtuFrame_encode B f)"
  by (rule bytes_crate.rtu_decode_exact [OF assms])

theorem rtu_frame_decode_exact_witness:
  "RtuFrame_decode (RtuFrame_encode std_buf (RtuFrame_new 1 [3, 0, 0, 0, 1])) = Ok (RtuFrame_new 1 [3, 0, 0, 0, 1])"
  by (subst rtu_frame_decode_exact [OF bytes_crate_std], rule exI [of _ 1], rule exI [of _ "[3, 0, 0, 0, 1]"])
    (simp add: RTU_MAX_PDU_SIZE_def)

end
