(* ===== verification/Modbus_Pdu.thy ===== *)
theory Modbus_Pdu
  imports Modbus_Rtu Rust_Std
begin

text \<open>
  Modbus protocol data units: the error type (\<^verbatim>\<open>error.rs\<close>), exception codes and responses
  (\<^verbatim>\<open>handler/exception.rs\<close>), and the typed requests and responses of the semantic core
  with their parser and encoder (\<^verbatim>\<open>core.rs\<close>).
\<close>

section \<open>Errors and exceptions\<close>

datatype (plugins only: code size) ModbusError =
    ME_InvalidFunction u8
  | ME_InvalidAddress u16 u16
  | ME_InvalidQuantity u16 u16
  | ME_InvalidData string
  | ME_DeviceNotFound u8
  | ME_Server string
  | ME_Connection string
  | ME_Io string
  | ME_Core string
  | ME_Internal string
  | ME_InvalidUnitId u8 string
  | ME_UnitNotFound u8
  | ME_UnitAlreadyExists u8
  | ME_UnitLimitReached usize
  | ME_UnitDisabled u8
  | ME_Config string

fun ModbusError_to_exception_code :: "ModbusError \<Rightarrow> u8" where
  "ModbusError_to_exception_code (ME_InvalidFunction _) = 0x01"
| "ModbusError_to_exception_code (ME_InvalidAddress _ _) = 0x02"
| "ModbusError_to_exception_code (ME_InvalidQuantity _ _) = 0x03"
| "ModbusError_to_exception_code (ME_InvalidData _) = 0x03"
| "ModbusError_to_exception_code (ME_DeviceNotFound _) = 0x0B"
| "ModbusError_to_exception_code (ME_Server _) = 0x04"
| "ModbusError_to_exception_code (ME_Connection _) = 0x0A"
| "ModbusError_to_exception_code (ME_Io _) = 0x04"
| "ModbusError_to_exception_code (ME_Core _) = 0x04"
| "ModbusError_to_exception_code (ME_Internal _) = 0x04"
| "ModbusError_to_exception_code (ME_InvalidUnitId _ _) = 0x0B"
| "ModbusError_to_exception_code (ME_UnitNotFound _) = 0x0B"
| "ModbusError_to_exception_code (ME_UnitAlreadyExists _) = 0x04"
| "ModbusError_to_exception_code (ME_UnitLimitReached _) = 0x04"
| "ModbusError_to_exception_code (ME_UnitDisabled _) = 0x0B"
| "ModbusError_to_exception_code (ME_Config _) = 0x04"

datatype (plugins only: code size) ExceptionCode =
    EC_IllegalFunction
  | EC_IllegalDataAddress
  | EC_IllegalDataValue
  | EC_SlaveDeviceFailure
  | EC_Acknowledge
  | EC_SlaveDeviceBusy
  | EC_MemoryParityError
  | EC_GatewayPathUnavailable
  | EC_GatewayTargetDeviceFailedToRespond

fun ExceptionCode_as_u8 :: "ExceptionCode \<Rightarrow> u8" where
  "ExceptionCode_as_u8 EC_IllegalFunction = 0x01"
| "ExceptionCode_as_u8 EC_IllegalDataAddress = 0x02"
| "ExceptionCode_as_u8 EC_IllegalDataValue = 0x03"
| "ExceptionCode_as_u8 EC_SlaveDeviceFailure = 0x04"
| "ExceptionCode_as_u8 EC_Acknowledge = 0x05"
| "ExceptionCode_as_u8 EC_SlaveDeviceBusy = 0x06"
| "ExceptionCode_as_u8 EC_MemoryParityError = 0x08"
| "ExceptionCode_as_u8 EC_GatewayPathUnavailable = 0x0A"
| "ExceptionCode_as_u8 EC_GatewayTargetDeviceFailedToRespond = 0x0B"

definition ExceptionCode_from_u8 :: "u8 \<Rightarrow> ExceptionCode option" where
  "ExceptionCode_from_u8 value =
    (if value = 0x01 then Some EC_IllegalFunction
     else if value = 0x02 then Some EC_IllegalDataAddress
     else if value = 0x03 then Some EC_IllegalDataValue
     else if value = 0x04 then Some EC_SlaveDeviceFailure
     else if value = 0x05 then Some EC_Acknowledge
     else if value = 0x06 then Some EC_SlaveDeviceBusy
     else if value = 0x08 then Some EC_MemoryParityError
     else if value = 0x0A then Some EC_GatewayPathUnavailable
     else if value = 0x0B then Some EC_GatewayTargetDeviceFailedToRespond
     else None)"

record ExceptionResponse =
  er_function_code :: u8
  er_exception_code :: ExceptionCode

definition ExceptionResponse_new :: "u8 \<Rightarrow> ExceptionCode \<Rightarrow> ExceptionResponse" where
  "ExceptionResponse_new function_code exception_code =
     \<lparr>er_function_code = function_code, er_exception_code = exception_code\<rparr>"

definition ExceptionResponse_to_pdu :: "ExceptionResponse \<Rightarrow> bytes" where
  "ExceptionResponse_to_pdu r = [er_function_code r OR 0x80, ExceptionCode_as_u8 (er_exception_code r)]"

definition ExceptionResponse_from_pdu :: "bytes \<Rightarrow> ExceptionResponse option" where
  "ExceptionResponse_from_pdu pdu =
    (if length pdu < 2 then None
     else if pdu ! 0 AND 0x80 = 0 then None
     else case ExceptionCode_from_u8 (pdu ! 1) of
       None \<Rightarrow> None
     | Some code \<Rightarrow> Some \<lparr>er_function_code = pdu ! 0 AND 0x7F, er_exception_code = code\<rparr>)"

definition ExceptionResponse_is_exception :: "bytes \<Rightarrow> bool" where
  "ExceptionResponse_is_exception pdu \<longleftrightarrow> pdu \<noteq> [] \<and> pdu ! 0 AND 0x80 \<noteq> 0"

definition build_exception_pdu :: "u8 \<Rightarrow> ExceptionCode \<Rightarrow> bytes" where
  "build_exception_pdu function_code exception_code =
     ExceptionResponse_to_pdu (ExceptionResponse_new function_code exception_code)"


section \<open>Function codes and data units\<close>

datatype (plugins only: code size) FunctionCode =
    FC_ReadCoils
  | FC_ReadDiscreteInputs
  | FC_ReadHoldingRegisters
  | FC_ReadInputRegisters
  | FC_WriteSingleCoil
  | FC_WriteSingleRegister
  | FC_WriteMultipleCoils
  | FC_WriteMultipleRegisters
  | FC_MaskWriteRegister
  | FC_ReadWriteMultipleRegisters

fun FunctionCode_as_u8 :: "FunctionCode \<Rightarrow> u8" where
  "FunctionCode_as_u8 FC_ReadCoils = 0x01"
| "FunctionCode_as_u8 FC_ReadDiscreteInputs = 0x02"
| "FunctionCode_as_u8 FC_ReadHoldingRegisters = 0x03"
| "FunctionCode_as_u8 FC_ReadInputRegisters = 0x04"
| "FunctionCode_as_u8 FC_WriteSingleCoil = 0x05"
| "FunctionCode_as_u8 FC_WriteSingleRegister = 0x06"
| "FunctionCode_as_u8 FC_WriteMultipleCoils = 0x0F"
| "FunctionCode_as_u8 FC_WriteMultipleRegisters = 0x10"
| "FunctionCode_as_u8 FC_MaskWriteRegister = 0x16"
| "FunctionCode_as_u8 FC_ReadWriteMultipleRegisters = 0x17"

definition FunctionCode_try_from :: "u8 \<Rightarrow> (ModbusError, FunctionCode) outcome" where
  "FunctionCode_try_from value =
    (if value = 0x01 then Ok FC_ReadCoils
     else if value = 0x02 then Ok FC_ReadDiscreteInputs
     else if value = 0x03 then Ok FC_ReadHoldingRegisters
     else if value = 0x04 then Ok FC_ReadInputRegisters
     else if value = 0x05 then Ok FC_WriteSingleCoil
     else if value = 0x06 then Ok FC_WriteSingleRegister
     else if value = 0x0F then Ok FC_WriteMultipleCoils
     else if value = 0x10 then Ok FC_WriteMultipleRegisters
     else if value = 0x16 then Ok FC_MaskWriteRegister
     else if value = 0x17 then Ok FC_ReadWriteMultipleRegisters
     else Err (ME_InvalidFunction value))"

datatype RequestPdu = RequestPdu (request_bytes: bytes)

definition RequestPdu_new :: "bytes \<Rightarrow> (ModbusError, RequestPdu) outcome" where
  "RequestPdu_new bytes =
    (if bytes = [] then Err (ME_InvalidData ''request PDU must contain at least a function code'')
     else Ok (RequestPdu bytes))"

definition RequestPdu_raw_function_code :: "RequestPdu \<Rightarrow> ('e, u8) outcome" where
  "RequestPdu_raw_function_code p = idx (request_bytes p) 0"

datatype ResponsePdu = ResponsePdu (response_bytes: bytes)

definition ResponsePdu_new :: "bytes \<Rightarrow> (ModbusError, ResponsePdu) outcome" where
  "ResponsePdu_new bytes =
    (if bytes = [] then Err (ME_InvalidData ''response PDU must contain at least a function code'')
     else Ok (ResponsePdu bytes))"

datatype (plugins only: code size) SemanticRequest =
    SR_ReadCoils u16 u16
  | SR_ReadDiscreteInputs u16 u16
  | SR_ReadHoldingRegisters u16 u16
  | SR_ReadInputRegisters u16 u16
  | SR_WriteSingleCoil u16 bool
  | SR_WriteSingleRegister u16 u16
  | SR_WriteMultipleCoils u16 "bool list"
  | SR_WriteMultipleRegisters u16 "u16 list"
  | SR_MaskWriteRegister u16 u16 u16
  | SR_ReadWriteMultipleRegisters u16 u16 u16 "u16 list"
  | SR_Custom u8 bytes

fun SemanticRequest_function_code :: "SemanticRequest \<Rightarrow> u8" where
  "SemanticRequest_function_code (SR_ReadCoils _ _) = FunctionCode_as_u8 FC_ReadCoils"
| "SemanticRequest_function_code (SR_ReadDiscreteInputs _ _) = FunctionCode_as_u8 FC_ReadDiscreteInputs"
| "SemanticRequest_function_code (SR_ReadHoldingRegisters _ _) = FunctionCode_as_u8 FC_ReadHoldingRegisters"
| "SemanticRequest_function_code (SR_ReadInputRegisters _ _) = FunctionCode_as_u8 FC_ReadInputRegisters"
| "SemanticRequest_function_code (SR_WriteSingleCoil _ _) = FunctionCode_as_u8 FC_WriteSingleCoil"
| "SemanticRequest_function_code (SR_WriteSingleRegister _ _) = FunctionCode_as_u8 FC_WriteSingleRegister"
| "SemanticRequest_function_code (SR_WriteMultipleCoils _ _) = FunctionCode_as_u8 FC_WriteMultipleCoils"
| "SemanticRequest_function_code (SR_WriteMultipleRegisters _ _) = FunctionCode_as_u8 FC_WriteMultipleRegisters"
| "SemanticRequest_function_code (SR_MaskWriteRegister _ _ _) = FunctionCode_as_u8 FC_MaskWriteRegister"
| "SemanticRequest_function_code (SR_ReadWriteMultipleRegisters _ _ _ _) =
     FunctionCode_as_u8 FC_ReadWriteMultipleRegisters"
| "SemanticRequest_function_code (SR_Custom function_code _) = function_code"

fun SemanticRequest_allows_broadcast :: "SemanticRequest \<Rightarrow> bool" where
  "SemanticRequest_allows_broadcast (SR_WriteSingleCoil _ _) = True"
| "SemanticRequest_allows_broadcast (SR_WriteSingleRegister _ _) = True"
| "SemanticRequest_allows_broadcast (SR_WriteMultipleCoils _ _) = True"
| "SemanticRequest_allows_broadcast (SR_WriteMultipleRegisters _ _) = True"
| "SemanticRequest_allows_broadcast (SR_MaskWriteRegister _ _ _) = True"
| "SemanticRequest_allows_broadcast _ = False"

datatype (plugins only: code size) SemanticResponse =
    SP_Bits FunctionCode "bool list"
  | SP_Registers FunctionCode "u16 list"
  | SP_WriteSingleCoilAck u16 bool
  | SP_WriteSingleRegisterAck u16 u16
  | SP_WriteMultipleAck FunctionCode u16 u16
  | SP_MaskWriteAck u16 u16 u16
  | SP_Custom ResponsePdu


section \<open>The request parser\<close>

definition ensure_len :: "bytes \<Rightarrow> usize \<Rightarrow> (ExceptionCode, unit) outcome" where
  "ensure_len pdu minimum = (if length pdu < minimum then Err EC_IllegalDataValue else Ok ())"

definition ensure_quantity :: "u16 \<Rightarrow> u16 \<Rightarrow> (ExceptionCode, unit) outcome" where
  "ensure_quantity quantity maximum =
    (if quantity = 0 \<or> maximum < quantity then Err EC_IllegalDataValue else Ok ())"

definition ensure_span :: "u16 \<Rightarrow> u16 \<Rightarrow> (ExceptionCode, unit) outcome" where
  "ensure_span address quantity =
    (if quantity = 0 then Err EC_IllegalDataValue
     else let end = unat address + unat quantity - 1
          in if 65535 < end then Err EC_IllegalDataAddress else Ok ())"

definition core_unpack_bits :: "bytes \<Rightarrow> usize \<Rightarrow> ('e, bool list) outcome" where
  "core_unpack_bits data quantity =
     omap (\<lambda>i. obind (idx data (i div 8)) (\<lambda>b. Ok (b AND push_bit (i mod 8) 1 \<noteq> 0))) [0..<quantity]"

definition core_pack_bits :: "bool list \<Rightarrow> bytes" where
  "core_pack_bits values = pack_loop 0 values (replicate (div_ceil (length values) 8) 0)"

definition parse_read_bits :: "FunctionCode \<Rightarrow> bytes \<Rightarrow> (ExceptionCode, SemanticRequest) outcome" where
  "parse_read_bits function pdu =
     obind (ensure_len pdu 5) (\<lambda>_. obind (be16_at pdu 1) (\<lambda>address. obind (be16_at pdu 3) (\<lambda>quantity.
     obind (ensure_quantity quantity 2000) (\<lambda>_. obind (ensure_span address quantity) (\<lambda>_.
       case function of
         FC_ReadCoils \<Rightarrow> Ok (SR_ReadCoils address quantity)
       | FC_ReadDiscreteInputs \<Rightarrow> Ok (SR_ReadDiscreteInputs address quantity)
       | _ \<Rightarrow> Panic)))))"

definition parse_read_registers :: "FunctionCode \<Rightarrow> bytes \<Rightarrow> (ExceptionCode, SemanticRequest) outcome" where
  "parse_read_registers function pdu =
     obind (ensure_len pdu 5) (\<lambda>_. obind (be16_at pdu 1) (\<lambda>address. obind (be16_at pdu 3) (\<lambda>quantity.
     obind (ensure_quantity quantity 125) (\<lambda>_. obind (ensure_span address quantity) (\<lambda>_.
       case function of
         FC_ReadHoldingRegisters \<Rightarrow> Ok (SR_ReadHoldingRegisters address quantity)
       | FC_ReadInputRegisters \<Rightarrow> Ok (SR_ReadInputRegisters address quantity)
       | _ \<Rightarrow> Panic)))))"

definition parse_write_single_coil :: "bytes \<Rightarrow> (ExceptionCode, SemanticRequest) outcome" where
  "parse_write_single_coil pdu =
     obind (ensure_len pdu 5) (\<lambda>_. obind (be16_at pdu 1) (\<lambda>address. obind (be16_at pdu 3) (\<lambda>raw_value.
       if raw_value = 0x0000 then Ok (SR_WriteSingleCoil address False)
       else if raw_value = 0xFF00 then Ok (SR_WriteSingleCoil address True)
       else Err EC_IllegalDataValue)))"

definition parse_write_single_register :: "bytes \<Rightarrow> (ExceptionCode, SemanticRequest) outcome" where
  "parse_write_single_register pdu =
     obind (ensure_len pdu 5) (\<lambda>_. obind (be16_at pdu 1) (\<lambda>address. obind (be16_at pdu 3) (\<lambda>value.
       Ok (SR_WriteSingleRegister address value))))"

definition parse_write_multiple_coils :: "bytes \<Rightarrow> (ExceptionCode, SemanticRequest) outcome" where
  "parse_write_multiple_coils pdu =
     obind (ensure_len pdu 6) (\<lambda>_. obind (be16_at pdu 1) (\<lambda>address. obind (be16_at pdu 3) (\<lambda>quantity.
     obind (ensure_quantity quantity 1968) (\<lambda>_. obind (ensure_span address quantity) (\<lambda>_.
     obind (idx pdu 5) (\<lambda>count.
       let byte_count = unat count; expected = div_ceil (unat quantity) 8
       in if byte_count \<noteq> expected \<or> length pdu < 6 + byte_count then Err EC_IllegalDataValue
          else obind (slice_range pdu 6 (6 + byte_count)) (\<lambda>data.
               obind (core_unpack_bits data (unat quantity)) (\<lambda>values.
               Ok (SR_WriteMultipleCoils address values)))))))))"

definition parse_write_multiple_registers :: "bytes \<Rightarrow> (ExceptionCode, SemanticRequest) outcome" where
  "parse_write_multiple_registers pdu =
     obind (ensure_len pdu 6) (\<lambda>_. obind (be16_at pdu 1) (\<lambda>address. obind (be16_at pdu 3) (\<lambda>quantity.
     obind (ensure_quantity quantity 123) (\<lambda>_. obind (ensure_span address quantity) (\<lambda>_.
     obind (idx pdu 5) (\<lambda>count.
       let byte_count = unat count; expected = unat quantity * 2
       in if byte_count \<noteq> expected \<or> length pdu < 6 + byte_count then Err EC_IllegalDataValue
          else obind (slice_range pdu 6 (6 + byte_count)) (\<lambda>data.
               Ok (SR_WriteMultipleRegisters address (be16_chunks data)))))))))"

definition parse_mask_write_register :: "bytes \<Rightarrow> (ExceptionCode, SemanticRequest) outcome" where
  "parse_mask_write_register pdu =
     obind (ensure_len pdu 7) (\<lambda>_. obind (be16_at pdu 1) (\<lambda>address. obind (be16_at pdu 3) (\<lambda>and_mask.
     obind (be16_at pdu 5) (\<lambda>or_mask. Ok (SR_MaskWriteRegister address and_mask or_mask)))))"

definition parse_read_write_multiple_registers :: "bytes \<Rightarrow> (ExceptionCode, SemanticRequest) outcome" where
  "parse_read_write_multiple_registers pdu =
     obind (ensure_len pdu 10) (\<lambda>_. obind (be16_at pdu 1) (\<lambda>read_address. obind (be16_at pdu 3) (\<lambda>read_quantity.
     obind (ensure_quantity read_quantity 125) (\<lambda>_. obind (ensure_span read_address read_quantity) (\<lambda>_.
     obind (be16_at pdu 5) (\<lambda>write_address. obind (be16_at pdu 7) (\<lambda>write_quantity.
     obind (ensure_quantity write_quantity 121) (\<lambda>_. obind (ensure_span write_address write_quantity) (\<lambda>_.
     obind (idx pdu 9) (\<lambda>count.
       let byte_count = unat count; expected = unat write_quantity * 2
       in if byte_count \<noteq> expected \<or> length pdu < 10 + byte_count then Err EC_IllegalDataValue
          else obind (slice_range pdu 10 (10 + byte_count)) (\<lambda>data.
               Ok (SR_ReadWriteMultipleRegisters read_address read_quantity write_address
                     (be16_chunks data)))))))))))))"

definition parse_by_function :: "u8 \<Rightarrow> bytes \<Rightarrow> (ExceptionCode, SemanticRequest) outcome" where
  "parse_by_function function_code pdu =
    (case FunctionCode_try_from function_code of
       Ok FC_ReadCoils \<Rightarrow> parse_read_bits FC_ReadCoils pdu
     | Ok FC_ReadDiscreteInputs \<Rightarrow> parse_read_bits FC_ReadDiscreteInputs pdu
     | Ok FC_ReadHoldingRegisters \<Rightarrow> parse_read_registers FC_ReadHoldingRegisters pdu
     | Ok FC_ReadInputRegisters \<Rightarrow> parse_read_registers FC_ReadInputRegisters pdu
     | Ok FC_WriteSingleCoil \<Rightarrow> parse_write_single_coil pdu
     | Ok FC_WriteSingleRegister \<Rightarrow> parse_write_single_register pdu
     | Ok FC_WriteMultipleCoils \<Rightarrow> parse_write_multiple_coils pdu
     | Ok FC_WriteMultipleRegisters \<Rightarrow> parse_write_multiple_registers pdu
     | Ok FC_MaskWriteRegister \<Rightarrow> parse_mask_write_register pdu
     | Ok FC_ReadWriteMultipleRegisters \<Rightarrow> parse_read_write_multiple_registers pdu
     | Err (ME_InvalidFunction _) \<Rightarrow>
         obind (slice_from pdu 1) (\<lambda>payload. Ok (SR_Custom function_code payload))
     | Err _ \<Rightarrow> Err EC_IllegalFunction
     | Panic \<Rightarrow> Panic)"

definition parse_semantic_request :: "bytes \<Rightarrow> bool \<Rightarrow> (ExceptionCode, SemanticRequest) outcome" where
  "parse_semantic_request pdu is_broadcast =
     obind (case pdu of [] \<Rightarrow> Err EC_IllegalDataValue | fc # _ \<Rightarrow> Ok fc) (\<lambda>function_code.
     obind (parse_by_function function_code pdu) (\<lambda>request.
       if is_broadcast \<and> \<not> SemanticRequest_allows_broadcast request then Err EC_IllegalFunction
       else Ok request))"


section \<open>The response encoder\<close>

fun response_payload :: "SemanticResponse \<Rightarrow> bytes" where
  "response_payload (SP_Bits function values) =
     FunctionCode_as_u8 function # as_u8 (div_ceil (length values) 8) # core_pack_bits values"
| "response_payload (SP_Registers function values) =
     FunctionCode_as_u8 function # as_u8 (length values * 2) # be16_bytes values"
| "response_payload (SP_WriteSingleCoilAck address value) =
     FunctionCode_as_u8 FC_WriteSingleCoil # u16_to_be address @ u16_to_be (if value then 0xFF00 else 0x0000)"
| "response_payload (SP_WriteSingleRegisterAck address value) =
     FunctionCode_as_u8 FC_WriteSingleRegister # u16_to_be address @ u16_to_be value"
| "response_payload (SP_WriteMultipleAck function address quantity) =
     FunctionCode_as_u8 function # u16_to_be address @ u16_to_be quantity"
| "response_payload (SP_MaskWriteAck address and_mask or_mask) =
     FunctionCode_as_u8 FC_MaskWriteRegister # u16_to_be address @ u16_to_be and_mask @ u16_to_be or_mask"
| "response_payload (SP_Custom response) = response_bytes response"

definition SemanticResponse_encode :: "SemanticResponse \<Rightarrow> (ModbusError, ResponsePdu) outcome" where
  "SemanticResponse_encode r =
    (case r of SP_Custom response \<Rightarrow> Ok response | _ \<Rightarrow> ResponsePdu_new (response_payload r))"


section \<open>Function and exception codes\<close>

lemma FunctionCode_roundtrip [simp]: "FunctionCode_try_from (FunctionCode_as_u8 f) = Ok f"
  by (cases f) (simp_all add: FunctionCode_try_from_def)

lemma ExceptionCode_roundtrip [simp]: "ExceptionCode_from_u8 (ExceptionCode_as_u8 c) = Some c"
  by (cases c) (simp_all add: ExceptionCode_from_u8_def)

lemma FunctionCode_try_from_exact: "FunctionCode_try_from v = Ok f \<longleftrightarrow> v = FunctionCode_as_u8 f"
proof
  show "v = FunctionCode_as_u8 f" if "FunctionCode_try_from v = Ok f"
    using that by (simp add: FunctionCode_try_from_def split: if_splits)
qed simp

lemma FunctionCode_try_from_not_panic [simp]: "FunctionCode_try_from v \<noteq> Panic"
  by (simp add: FunctionCode_try_from_def)

lemma FunctionCode_below_0x80: "FunctionCode_as_u8 f AND 0x80 = 0"
  by (cases f) simp_all

lemma build_exception_pdu_is_exception: "ExceptionResponse_is_exception (build_exception_pdu fc c)"
proof -
  have "bit ((fc OR 0x80) AND 0x80) 7" by (simp add: bit_simps)
  then have "(fc OR 0x80) AND 0x80 \<noteq> 0" by fastforce
  then show ?thesis
    by (simp add: ExceptionResponse_is_exception_def build_exception_pdu_def ExceptionResponse_to_pdu_def
        ExceptionResponse_new_def)
qed

lemma exception_from_built:
  "ExceptionResponse_from_pdu (build_exception_pdu fc c) =
     Some \<lparr>er_function_code = fc AND 0x7F, er_exception_code = c\<rparr>"
proof -
  have "(fc OR 0x80) AND 0x7F = fc AND 0x7F"
    by (rule bit_word_eqI) (auto simp: bit_simps)
  then show ?thesis
    using build_exception_pdu_is_exception [of fc c]
    by (simp add: ExceptionResponse_from_pdu_def build_exception_pdu_def ExceptionResponse_to_pdu_def
        ExceptionResponse_new_def ExceptionResponse_is_exception_def)
qed


section \<open>The wire format of requests\<close>

text \<open>What a client sends, and the quantities and spans the protocol admits.\<close>

fun request_wire :: "SemanticRequest \<Rightarrow> bytes" where
  "request_wire (SR_ReadCoils a q) = 0x01 # u16_to_be a @ u16_to_be q"
| "request_wire (SR_ReadDiscreteInputs a q) = 0x02 # u16_to_be a @ u16_to_be q"
| "request_wire (SR_ReadHoldingRegisters a q) = 0x03 # u16_to_be a @ u16_to_be q"
| "request_wire (SR_ReadInputRegisters a q) = 0x04 # u16_to_be a @ u16_to_be q"
| "request_wire (SR_WriteSingleCoil a v) = 0x05 # u16_to_be a @ u16_to_be (if v then 0xFF00 else 0)"
| "request_wire (SR_WriteSingleRegister a v) = 0x06 # u16_to_be a @ u16_to_be v"
| "request_wire (SR_WriteMultipleCoils a vs) =
     0x0F # u16_to_be a @ u16_to_be (as_u16 (length vs)) @ as_u8 (length (pack_bits vs)) # pack_bits vs"
| "request_wire (SR_WriteMultipleRegisters a vs) =
     0x10 # u16_to_be a @ u16_to_be (as_u16 (length vs)) @ as_u8 (2 * length vs) # be16_bytes vs"
| "request_wire (SR_MaskWriteRegister a m n) = 0x16 # u16_to_be a @ u16_to_be m @ u16_to_be n"
| "request_wire (SR_ReadWriteMultipleRegisters a q b vs) =
     0x17 # u16_to_be a @ u16_to_be q @ u16_to_be b @ u16_to_be (as_u16 (length vs)) @
       as_u8 (2 * length vs) # be16_bytes vs"
| "request_wire (SR_Custom fc payload) = fc # payload"

definition span_ok :: "u16 \<Rightarrow> nat \<Rightarrow> nat \<Rightarrow> bool" where
  "span_ok a n mx \<longleftrightarrow> 1 \<le> n \<and> n \<le> mx \<and> unat a + n \<le> 65536"

fun request_valid :: "SemanticRequest \<Rightarrow> bool" where
  "request_valid (SR_ReadCoils a q) = span_ok a (unat q) 2000"
| "request_valid (SR_ReadDiscreteInputs a q) = span_ok a (unat q) 2000"
| "request_valid (SR_ReadHoldingRegisters a q) = span_ok a (unat q) 125"
| "request_valid (SR_ReadInputRegisters a q) = span_ok a (unat q) 125"
| "request_valid (SR_WriteMultipleCoils a vs) = span_ok a (length vs) 1968"
| "request_valid (SR_WriteMultipleRegisters a vs) = span_ok a (length vs) 123"
| "request_valid (SR_ReadWriteMultipleRegisters a q b vs) =
     (span_ok a (unat q) 125 \<and> span_ok b (length vs) 121)"
| "request_valid (SR_Custom fc payload) = (FunctionCode_try_from fc = Err (ME_InvalidFunction fc))"
| "request_valid _ = True"

lemma ensure_quantity_span:
  assumes "unat mx = m"
  shows "obind (ensure_quantity q mx) (\<lambda>_. obind (ensure_span a q) (\<lambda>_. k)) =
    (if q = 0 \<or> m < unat q then Err EC_IllegalDataValue
     else if span_ok a (unat q) m then k else Err EC_IllegalDataAddress)"
proof (cases "q = 0")
  case True
  then show ?thesis by (simp add: ensure_quantity_def)
next
  case False
  then have pos: "1 \<le> unat q" by (simp add: Suc_le_eq unat_gt_0)
  have less: "mx < q \<longleftrightarrow> m < unat q" using assms by (simp add: word_less_nat_alt)
  have "65535 < unat a + unat q - 1 \<longleftrightarrow> \<not> unat a + unat q \<le> 65536" using pos by linarith
  then show ?thesis using False pos
    by (simp add: ensure_quantity_def ensure_span_def span_ok_def less del: One_nat_def)
qed

lemma word_and_bit: "b AND push_bit k 1 \<noteq> 0 \<longleftrightarrow> drop_bit k b AND 1 \<noteq> 0" if "k < 8" for b :: u8
proof -
  have "b AND push_bit k 1 \<noteq> 0 \<longleftrightarrow> (\<exists>n. bit (b AND push_bit k 1) n)"
    by (metis bit_0_eq bot_apply bot_bool_def bit_word_eqI)
  also have "\<dots> \<longleftrightarrow> bit b k" using that by (auto simp: bit_and_iff bit_pow_u8)
  finally show ?thesis by (simp add: bit_and_1 bit_drop_bit_eq)
qed

lemma core_unpack_bits_eq:
  assumes "n \<le> 8 * length data"
  shows "core_unpack_bits data n = Ok (unpack_bits data n)"
proof -
  have "i div 8 < length data" if "i < n" for i
    using that assms by (simp add: less_mult_imp_div_less mult.commute)
  then show ?thesis unfolding core_unpack_bits_def unpack_bits_def
    by (intro omap_Ok) (simp add: idx_def word_and_bit [OF mod_less_divisor] del: push_bit_of_1)
qed

lemma core_pack_bits_eq: "core_pack_bits vs = pack_bits vs"
  by (simp add: core_pack_bits_def pack_bits_def div_ceil_8)


section \<open>What the parser accepts\<close>

lemma list_ge5E:
  assumes "5 \<le> length (xs :: 'a list)"
  obtains a b c d e ys where "xs = a # b # c # d # e # ys"
  using assms that by (auto simp: numeral_eq_Suc Suc_le_length_iff)

lemmas parse_defs = parse_read_bits_def parse_read_registers_def parse_write_single_coil_def
  parse_write_single_register_def parse_mask_write_register_def ensure_len_def be16_at_def idx_def

lemma parse_read_bits_eq:
  "parse_read_bits f (fc # a1 # a0 # q1 # q0 # rest) =
    (let a = u16_of_be a1 a0; q = u16_of_be q1 q0 in
     if q = 0 \<or> 2000 < unat q then Err EC_IllegalDataValue
     else if span_ok a (unat q) 2000 then
       (case f of FC_ReadCoils \<Rightarrow> Ok (SR_ReadCoils a q)
        | FC_ReadDiscreteInputs \<Rightarrow> Ok (SR_ReadDiscreteInputs a q) | _ \<Rightarrow> Panic)
     else Err EC_IllegalDataAddress)"
  by (simp add: parse_defs ensure_quantity_span [where m = 2000] Let_def)

lemma parse_read_registers_eq:
  "parse_read_registers f (fc # a1 # a0 # q1 # q0 # rest) =
    (let a = u16_of_be a1 a0; q = u16_of_be q1 q0 in
     if q = 0 \<or> 125 < unat q then Err EC_IllegalDataValue
     else if span_ok a (unat q) 125 then
       (case f of FC_ReadHoldingRegisters \<Rightarrow> Ok (SR_ReadHoldingRegisters a q)
        | FC_ReadInputRegisters \<Rightarrow> Ok (SR_ReadInputRegisters a q) | _ \<Rightarrow> Panic)
     else Err EC_IllegalDataAddress)"
  by (simp add: parse_defs ensure_quantity_span [where m = 125] Let_def)

lemma parse_write_multiple_coils_eq:
  "parse_write_multiple_coils (fc # a1 # a0 # q1 # q0 # bc # rest) =
    (let a = u16_of_be a1 a0; q = u16_of_be q1 q0 in
     if q = 0 \<or> 1968 < unat q then Err EC_IllegalDataValue
     else if span_ok a (unat q) 1968 then
       (if unat bc \<noteq> div_ceil (unat q) 8 \<or> length rest < unat bc then Err EC_IllegalDataValue
        else Ok (SR_WriteMultipleCoils a (unpack_bits (take (unat bc) rest) (unat q))))
     else Err EC_IllegalDataAddress)"
proof -
  have "unat q \<le> 8 * length (take (unat bc) rest)"
    if "unat bc = div_ceil (unat q) 8" "\<not> length rest < unat bc" for q :: u16
    using that by (simp add: div_ceil_8)
  then show ?thesis
    by (simp add: parse_write_multiple_coils_def parse_defs ensure_quantity_span [where m = 1968]
        slice_range_def core_unpack_bits_eq Let_def)
qed

lemma parse_write_multiple_registers_eq:
  "parse_write_multiple_registers (fc # a1 # a0 # q1 # q0 # bc # rest) =
    (let a = u16_of_be a1 a0; q = u16_of_be q1 q0 in
     if q = 0 \<or> 123 < unat q then Err EC_IllegalDataValue
     else if span_ok a (unat q) 123 then
       (if unat bc \<noteq> unat q * 2 \<or> length rest < unat bc then Err EC_IllegalDataValue
        else Ok (SR_WriteMultipleRegisters a (be16_chunks (take (unat bc) rest))))
     else Err EC_IllegalDataAddress)"
  by (simp add: parse_write_multiple_registers_def parse_defs ensure_quantity_span [where m = 123]
      slice_range_def Let_def)

lemma parse_read_write_multiple_registers_eq:
  "parse_read_write_multiple_registers (fc # a1 # a0 # q1 # q0 # b1 # b0 # n1 # n0 # bc # rest) =
    (let a = u16_of_be a1 a0; q = u16_of_be q1 q0; b = u16_of_be b1 b0; n = u16_of_be n1 n0 in
     if q = 0 \<or> 125 < unat q then Err EC_IllegalDataValue
     else if \<not> span_ok a (unat q) 125 then Err EC_IllegalDataAddress
     else if n = 0 \<or> 121 < unat n then Err EC_IllegalDataValue
     else if span_ok b (unat n) 121 then
       (if unat bc \<noteq> unat n * 2 \<or> length rest < unat bc then Err EC_IllegalDataValue
        else Ok (SR_ReadWriteMultipleRegisters a q b (be16_chunks (take (unat bc) rest))))
     else Err EC_IllegalDataAddress)"
  by (simp add: parse_read_write_multiple_registers_def parse_defs ensure_quantity_span [where m = 125]
      ensure_quantity_span [where m = 121] slice_range_def Let_def)

lemma parse_by_function_simps:
  "parse_by_function 0x01 pdu = parse_read_bits FC_ReadCoils pdu"
  "parse_by_function 0x02 pdu = parse_read_bits FC_ReadDiscreteInputs pdu"
  "parse_by_function 0x03 pdu = parse_read_registers FC_ReadHoldingRegisters pdu"
  "parse_by_function 0x04 pdu = parse_read_registers FC_ReadInputRegisters pdu"
  "parse_by_function 0x05 pdu = parse_write_single_coil pdu"
  "parse_by_function 0x06 pdu = parse_write_single_register pdu"
  "parse_by_function 0x0F pdu = parse_write_multiple_coils pdu"
  "parse_by_function 0x10 pdu = parse_write_multiple_registers pdu"
  "parse_by_function 0x16 pdu = parse_mask_write_register pdu"
  "parse_by_function 0x17 pdu = parse_read_write_multiple_registers pdu"
  by (simp_all add: parse_by_function_def FunctionCode_try_from_def)

lemma parse_by_function_custom:
  "FunctionCode_try_from fc = Err (ME_InvalidFunction fc) \<Longrightarrow>
   parse_by_function fc (fc # payload) = Ok (SR_Custom fc payload)"
  by (simp add: parse_by_function_def slice_from_def)

text \<open>One request: short input is rejected, nothing panics, what is accepted is valid.\<close>

definition parse_sound :: "u8 \<Rightarrow> (ExceptionCode, SemanticRequest) outcome \<Rightarrow> bool" where
  "parse_sound fc m \<longleftrightarrow> m \<noteq> Panic \<and>
     (\<forall>r. m = Ok r \<longrightarrow> request_valid r \<and> SemanticRequest_function_code r = fc)"

lemma parse_sound_Err [simp]: "parse_sound fc (Err e)"
  by (simp add: parse_sound_def)

lemma parse_sound_Ok: "parse_sound fc (Ok r) \<longleftrightarrow> request_valid r \<and> SemanticRequest_function_code r = fc"
  by (simp add: parse_sound_def)

lemma parse_fixed_sound:
  "parse_sound 0x01 (parse_read_bits FC_ReadCoils pdu) \<and>
   parse_sound 0x02 (parse_read_bits FC_ReadDiscreteInputs pdu) \<and>
   parse_sound 0x03 (parse_read_registers FC_ReadHoldingRegisters pdu) \<and>
   parse_sound 0x04 (parse_read_registers FC_ReadInputRegisters pdu) \<and>
   parse_sound 0x05 (parse_write_single_coil pdu) \<and>
   parse_sound 0x06 (parse_write_single_register pdu)"
proof (cases "length pdu < 5")
  case True
  then show ?thesis by (simp add: parse_defs)
next
  case False
  then have "5 \<le> length pdu" by simp
  then obtain a b c d e ys where pdu: "pdu = a # b # c # d # e # ys" by (rule list_ge5E)
  have "parse_sound 0x05 (parse_write_single_coil pdu)" "parse_sound 0x06 (parse_write_single_register pdu)"
    by (simp_all add: pdu parse_defs parse_sound_Ok)
  then show ?thesis
    by (simp add: pdu parse_read_bits_eq parse_read_registers_eq parse_sound_Ok Let_def)
qed

lemma list_ge6_cases:
  obtains "length (xs :: 'a list) < 6" | a b c d e f ys where "xs = a # b # c # d # e # f # ys"
proof (cases "length xs < 6")
  case False
  then have "Suc (Suc (Suc (Suc (Suc (Suc 0))))) \<le> length xs" by simp
  then show thesis using that(2) by (auto simp: Suc_le_length_iff)
qed (rule that(1))

lemma parse_write_multiple_sound:
  "parse_sound 0x0F (parse_write_multiple_coils pdu) \<and>
   parse_sound 0x10 (parse_write_multiple_registers pdu)"
proof (cases pdu rule: list_ge6_cases)
  case 1
  then show ?thesis
    by (simp add: parse_write_multiple_coils_def parse_write_multiple_registers_def ensure_len_def)
next
  case (2 fc a b c d bc rest)
  then show ?thesis
    by (simp add: parse_write_multiple_coils_eq parse_write_multiple_registers_eq parse_sound_Ok Let_def)
qed

lemma parse_mask_write_sound: "parse_sound 0x16 (parse_mask_write_register pdu)"
  by (simp add: parse_defs parse_sound_Ok)

lemma parse_read_write_sound: "parse_sound 0x17 (parse_read_write_multiple_registers pdu)"
proof (cases "length pdu < 10")
  case True
  then show ?thesis by (simp add: parse_read_write_multiple_registers_def ensure_len_def)
next
  case False
  then have "Suc (Suc (Suc (Suc (Suc (Suc (Suc (Suc (Suc (Suc 0))))))))) \<le> length pdu" by simp
  then obtain fc a1 a0 q1 q0 b1 b0 n1 n0 bc rest
    where "pdu = fc # a1 # a0 # q1 # q0 # b1 # b0 # n1 # n0 # bc # rest"
    by (auto simp: Suc_le_length_iff)
  then show ?thesis
    by (simp add: parse_read_write_multiple_registers_eq parse_sound_Ok Let_def)
qed

lemma parse_by_function_sound: "parse_sound fc (parse_by_function fc (fc # payload))"
proof (cases "FunctionCode_try_from fc")
  case (Ok f)
  then have fc: "fc = FunctionCode_as_u8 f" by (simp add: FunctionCode_try_from_exact)
  show ?thesis
    using parse_fixed_sound parse_write_multiple_sound parse_mask_write_sound parse_read_write_sound
    by (cases f) (simp_all add: fc parse_by_function_simps)
next
  case (Err e)
  then have "e = ME_InvalidFunction fc" by (simp add: FunctionCode_try_from_def split: if_splits)
  then show ?thesis using Err by (simp add: parse_by_function_custom parse_sound_Ok)
qed simp

text \<open>The wire format is accepted, whatever follows it.\<close>

lemma parse_coils_wire:
  "span_ok a (length vs) 1968 \<Longrightarrow>
   parse_write_multiple_coils (request_wire (SR_WriteMultipleCoils a vs) @ rest) = Ok (SR_WriteMultipleCoils a vs)"
proof -
  assume span: "span_ok a (length vs) 1968"
  then have q: "unat (as_u16 (length vs)) = length vs" "as_u16 (length vs) \<noteq> 0" and n: "length vs \<le> 1968"
    using unat_as_u16 [of "length vs"] by (auto simp: span_ok_def)
  have "(length vs + 7) div 8 \<le> 246" using n by (simp add: div_le_mono [of _ 1975 8, simplified])
  then have bc: "unat (as_u8 ((length vs + 7) div 8)) = (length vs + 7) div 8" by (intro unat_as_u8) simp
  show ?thesis using span n
    by (simp add: u16_to_be_def parse_write_multiple_coils_eq q bc div_ceil_8 unpack_pack_bits)
qed

lemma as_u16_length:
  "span_ok a n mx \<Longrightarrow> mx \<le> 2000 \<Longrightarrow> unat (as_u16 n) = n \<and> as_u16 n \<noteq> 0"
  using unat_as_u16 [of n] by (auto simp: span_ok_def)

lemma parse_registers_wire:
  "span_ok a (length vs) 123 \<Longrightarrow>
   parse_write_multiple_registers (request_wire (SR_WriteMultipleRegisters a vs) @ rest) =
     Ok (SR_WriteMultipleRegisters a vs)"
proof -
  assume span: "span_ok a (length vs) 123"
  then have bc: "unat (as_u8 (2 * length vs)) = 2 * length vs" by (intro unat_as_u8) (simp add: span_ok_def)
  show ?thesis using span as_u16_length [OF span] bc
    by (simp add: u16_to_be_def parse_write_multiple_registers_eq) (simp add: span_ok_def)
qed

lemma parse_read_write_wire:
  "span_ok a (unat q) 125 \<Longrightarrow> span_ok b (length vs) 121 \<Longrightarrow>
   parse_read_write_multiple_registers (request_wire (SR_ReadWriteMultipleRegisters a q b vs) @ rest) =
     Ok (SR_ReadWriteMultipleRegisters a q b vs)"
proof -
  assume spans: "span_ok a (unat q) 125" "span_ok b (length vs) 121"
  then have bc: "unat (as_u8 (2 * length vs)) = 2 * length vs" by (intro unat_as_u8) (simp add: span_ok_def)
  have "q \<noteq> 0" "\<not> 125 < unat q" "\<not> 121 < length vs" using spans by (auto simp: span_ok_def)
  then show ?thesis using spans as_u16_length [OF spans(2)] bc
    by (simp add: u16_to_be_def parse_read_write_multiple_registers_eq)
qed

lemma parse_request_wire:
  assumes "request_valid r" "\<And>fc p. r \<noteq> SR_Custom fc p"
  shows "parse_by_function (SemanticRequest_function_code r) (request_wire r @ rest) = Ok r"
proof -
  have pos: "q \<noteq> 0 \<and> \<not> mx < unat q" if "span_ok a (unat q) mx" for a q mx
    using that by (auto simp: span_ok_def)
  show ?thesis
  proof (cases r)
    case (SR_WriteMultipleCoils a vs)
    then show ?thesis using assms parse_coils_wire [of a vs rest] by (simp add: parse_by_function_simps)
  next
    case (SR_WriteMultipleRegisters a vs)
    then show ?thesis using assms parse_registers_wire [of a vs rest] by (simp add: parse_by_function_simps)
  next
    case (SR_ReadWriteMultipleRegisters a q b vs)
    then show ?thesis using assms parse_read_write_wire [of a q b vs rest] by (simp add: parse_by_function_simps)
  next
    case (SR_WriteSingleCoil a v)
    then show ?thesis by (cases v) (simp_all add: parse_by_function_simps u16_to_be_def parse_defs)
  qed (use assms pos in \<open>simp_all add: parse_by_function_simps u16_to_be_def parse_defs
        ensure_quantity_span [where m = 2000] ensure_quantity_span [where m = 125]\<close>)
qed

lemma request_wire_hd: "request_wire r = SemanticRequest_function_code r # tl (request_wire r)"
  by (cases r) simp_all


section \<open>Properties\<close>

text \<open>C8. The request parser never panics, and what it accepts is within the protocol's limits: the
  quantities and the address span fit, the function code is the first byte, and a broadcast is one of
  the write functions.\<close>
theorem parse_semantic_request_sound:
  "parse_semantic_request pdu is_broadcast \<noteq> Panic \<and>
   (parse_semantic_request pdu is_broadcast = Ok r \<longrightarrow>
      request_valid r \<and> pdu \<noteq> [] \<and> SemanticRequest_function_code r = hd pdu \<and>
      (is_broadcast \<longrightarrow> SemanticRequest_allows_broadcast r))"
proof (cases pdu)
  case (Cons fc payload)
  then show ?thesis using parse_by_function_sound [of fc payload]
    by (auto simp: parse_semantic_request_def parse_sound_def obind_eq_Panic_iff obind_eq_Ok_iff split: if_splits)
qed (simp add: parse_semantic_request_def)

theorem parse_semantic_request_sound_witness:
  "parse_semantic_request [0x06, 0x00, 0x02, 0x12, 0x34] True = Ok (SR_WriteSingleRegister 2 0x1234) \<and>
   SemanticRequest_allows_broadcast (SR_WriteSingleRegister 2 0x1234)"
proof -
  have "parse_semantic_request [0x06, 0x00, 0x02, 0x12, 0x34] True = Ok (SR_WriteSingleRegister 2 0x1234)"
    by (simp add: parse_semantic_request_def parse_by_function_simps parse_defs u16_of_be_def)
  then show ?thesis
    using parse_semantic_request_sound [of "[0x06, 0x00, 0x02, 0x12, 0x34]" True "SR_WriteSingleRegister 2 0x1234"]
    by simp
qed

text \<open>C9. Every valid request is parsed back from its wire format, whatever bytes follow it (a request
  with a function code the core does not know keeps the bytes as its payload).\<close>
theorem parse_semantic_request_roundtrip:
  assumes "request_valid r" "is_broadcast \<longrightarrow> SemanticRequest_allows_broadcast r"
  shows "parse_semantic_request (request_wire r @ rest) is_broadcast =
    Ok (case r of SR_Custom fc payload \<Rightarrow> SR_Custom fc (payload @ rest) | _ \<Rightarrow> r)"
proof (cases "\<exists>fc p. r = SR_Custom fc p")
  case True
  then obtain fc p where r: "r = SR_Custom fc p" by blast
  then show ?thesis using assms by (simp add: parse_semantic_request_def parse_by_function_custom)
next
  case False
  then have "parse_by_function (SemanticRequest_function_code r) (request_wire r @ rest) = Ok r"
    using assms(1) by (intro parse_request_wire) auto
  then have "parse_semantic_request (request_wire r @ rest) is_broadcast = Ok r"
    using assms(2) request_wire_hd [of r]
    by (cases "request_wire r") (simp_all add: parse_semantic_request_def)
  then show ?thesis using False by (simp split: SemanticRequest.split)
qed

theorem parse_semantic_request_roundtrip_witness:
  "parse_semantic_request (request_wire (SR_WriteMultipleCoils 7 [True, False, True]) @ [9]) True =
    Ok (SR_WriteMultipleCoils 7 [True, False, True])"
  using parse_semantic_request_roundtrip [of "SR_WriteMultipleCoils 7 [True, False, True]" True "[9]"]
  by (simp add: span_ok_def)

end
