(* ===== verification/Modbus_Registers.thy ===== *)
theory Modbus_Registers
  imports Modbus_Pdu
begin

text \<open>
  The dense register store, \<^verbatim>\<open>mabi-modbus/src/register.rs\<close>: four vectors with their sizes, address
  validation, reads, single and multiple writes, the mask write and the byte-level access. Each
  vector is behind its own lock in the source and every operation takes one lock once, so an
  operation is one step on the record.
\<close>

datatype (plugins only: code size) RegisterType = RT_Coil | RT_DiscreteInput | RT_HoldingRegister | RT_InputRegister

fun RegisterType_read_function :: "RegisterType \<Rightarrow> u8" where
  "RegisterType_read_function RT_Coil = 0x01"
| "RegisterType_read_function RT_DiscreteInput = 0x02"
| "RegisterType_read_function RT_HoldingRegister = 0x03"
| "RegisterType_read_function RT_InputRegister = 0x04"

definition RegisterType_is_writable :: "RegisterType \<Rightarrow> bool" where
  "RegisterType_is_writable t \<longleftrightarrow> t = RT_Coil \<or> t = RT_HoldingRegister"

definition RegisterType_is_bit_type :: "RegisterType \<Rightarrow> bool" where
  "RegisterType_is_bit_type t \<longleftrightarrow> t = RT_Coil \<or> t = RT_DiscreteInput"

definition RegisterType_max_read_quantity :: "RegisterType \<Rightarrow> u16" where
  "RegisterType_max_read_quantity t = (if RegisterType_is_bit_type t then 2000 else 125)"

definition RegisterType_max_write_quantity :: "RegisterType \<Rightarrow> u16" where
  "RegisterType_max_write_quantity t = (if RegisterType_is_bit_type t then 1968 else 123)"

record RegisterStore =
  rs_coils :: "bool list"
  rs_discrete_inputs :: "bool list"
  rs_holding_registers :: "u16 list"
  rs_input_registers :: "u16 list"
  rs_coil_count :: u16
  rs_discrete_input_count :: u16
  rs_holding_register_count :: u16
  rs_input_register_count :: u16

definition RegisterStore_new :: "u16 \<Rightarrow> u16 \<Rightarrow> u16 \<Rightarrow> u16 \<Rightarrow> RegisterStore" where
  "RegisterStore_new coils discrete_inputs holding_registers input_registers =
     \<lparr>rs_coils = replicate (unat coils) False,
      rs_discrete_inputs = replicate (unat discrete_inputs) False,
      rs_holding_registers = replicate (unat holding_registers) 0,
      rs_input_registers = replicate (unat input_registers) 0,
      rs_coil_count = coils,
      rs_discrete_input_count = discrete_inputs,
      rs_holding_register_count = holding_registers,
      rs_input_register_count = input_registers\<rparr>"

fun RegisterStore_count :: "RegisterStore \<Rightarrow> RegisterType \<Rightarrow> u16" where
  "RegisterStore_count s RT_Coil = rs_coil_count s"
| "RegisterStore_count s RT_DiscreteInput = rs_discrete_input_count s"
| "RegisterStore_count s RT_HoldingRegister = rs_holding_register_count s"
| "RegisterStore_count s RT_InputRegister = rs_input_register_count s"

definition RegisterStore_validate ::
  "RegisterStore \<Rightarrow> RegisterType \<Rightarrow> u16 \<Rightarrow> u16 \<Rightarrow> (ModbusError, unit) outcome" where
  "RegisterStore_validate s reg_type address quantity =
    (let max = RegisterStore_count s reg_type in
     if max \<le> address then obind (u16_sub max 1) (\<lambda>top. Err (ME_InvalidAddress address top))
     else obind (if quantity = 0 then Ok True else obind (u16_add address quantity) (\<lambda>end. Ok (max < end)))
       (\<lambda>bad. if bad then obind (u16_sub max address) (\<lambda>left. Err (ME_InvalidQuantity quantity left))
              else Ok ()))"

text \<open>\<^verbatim>\<open>xs[start..start + quantity].to_vec()\<close>, \<^verbatim>\<open>xs[i] = v\<close> and the loop that writes several cells.\<close>

definition read_span :: "'a list \<Rightarrow> u16 \<Rightarrow> u16 \<Rightarrow> ('e, 'a list) outcome" where
  "read_span xs address quantity = slice_range xs (unat address) (unat address + unat quantity)"

definition set_at :: "'a list \<Rightarrow> usize \<Rightarrow> 'a \<Rightarrow> ('e, 'a list) outcome" where
  "set_at xs i v = (if i < length xs then Ok (xs[i := v]) else Panic)"

definition write_span :: "'a list \<Rightarrow> u16 \<Rightarrow> 'a list \<Rightarrow> ('e, 'a list) outcome" where
  "write_span xs address values =
     ofold (\<lambda>(i, v) ys. set_at ys (unat address + i) v) (enumerate 0 values) xs"

definition RegisterStore_read_coils ::
  "RegisterStore \<Rightarrow> u16 \<Rightarrow> u16 \<Rightarrow> (ModbusError, bool list) outcome" where
  "RegisterStore_read_coils s address quantity =
     obind (RegisterStore_validate s RT_Coil address quantity) (\<lambda>_. read_span (rs_coils s) address quantity)"

definition RegisterStore_write_coil ::
  "RegisterStore \<Rightarrow> u16 \<Rightarrow> bool \<Rightarrow> (ModbusError, RegisterStore) outcome" where
  "RegisterStore_write_coil s address value =
     obind (RegisterStore_validate s RT_Coil address 1) (\<lambda>_.
     obind (set_at (rs_coils s) (unat address) value) (\<lambda>xs. Ok (s\<lparr>rs_coils := xs\<rparr>)))"

definition RegisterStore_write_coils ::
  "RegisterStore \<Rightarrow> u16 \<Rightarrow> bool list \<Rightarrow> (ModbusError, RegisterStore) outcome" where
  "RegisterStore_write_coils s address values =
     obind (RegisterStore_validate s RT_Coil address (as_u16 (length values))) (\<lambda>_.
     obind (write_span (rs_coils s) address values) (\<lambda>xs. Ok (s\<lparr>rs_coils := xs\<rparr>)))"

definition RegisterStore_read_discrete_inputs ::
  "RegisterStore \<Rightarrow> u16 \<Rightarrow> u16 \<Rightarrow> (ModbusError, bool list) outcome" where
  "RegisterStore_read_discrete_inputs s address quantity =
     obind (RegisterStore_validate s RT_DiscreteInput address quantity)
       (\<lambda>_. read_span (rs_discrete_inputs s) address quantity)"

definition RegisterStore_set_discrete_input ::
  "RegisterStore \<Rightarrow> u16 \<Rightarrow> bool \<Rightarrow> (ModbusError, RegisterStore) outcome" where
  "RegisterStore_set_discrete_input s address value =
     obind (RegisterStore_validate s RT_DiscreteInput address 1) (\<lambda>_.
     obind (set_at (rs_discrete_inputs s) (unat address) value) (\<lambda>xs. Ok (s\<lparr>rs_discrete_inputs := xs\<rparr>)))"

definition RegisterStore_read_holding_registers ::
  "RegisterStore \<Rightarrow> u16 \<Rightarrow> u16 \<Rightarrow> (ModbusError, u16 list) outcome" where
  "RegisterStore_read_holding_registers s address quantity =
     obind (RegisterStore_validate s RT_HoldingRegister address quantity)
       (\<lambda>_. read_span (rs_holding_registers s) address quantity)"

definition RegisterStore_write_holding_register ::
  "RegisterStore \<Rightarrow> u16 \<Rightarrow> u16 \<Rightarrow> (ModbusError, RegisterStore) outcome" where
  "RegisterStore_write_holding_register s address value =
     obind (RegisterStore_validate s RT_HoldingRegister address 1) (\<lambda>_.
     obind (set_at (rs_holding_registers s) (unat address) value)
       (\<lambda>xs. Ok (s\<lparr>rs_holding_registers := xs\<rparr>)))"

definition RegisterStore_write_holding_registers ::
  "RegisterStore \<Rightarrow> u16 \<Rightarrow> u16 list \<Rightarrow> (ModbusError, RegisterStore) outcome" where
  "RegisterStore_write_holding_registers s address values =
     obind (RegisterStore_validate s RT_HoldingRegister address (as_u16 (length values))) (\<lambda>_.
     obind (write_span (rs_holding_registers s) address values)
       (\<lambda>xs. Ok (s\<lparr>rs_holding_registers := xs\<rparr>)))"

definition RegisterStore_read_input_registers ::
  "RegisterStore \<Rightarrow> u16 \<Rightarrow> u16 \<Rightarrow> (ModbusError, u16 list) outcome" where
  "RegisterStore_read_input_registers s address quantity =
     obind (RegisterStore_validate s RT_InputRegister address quantity)
       (\<lambda>_. read_span (rs_input_registers s) address quantity)"

definition RegisterStore_set_input_register ::
  "RegisterStore \<Rightarrow> u16 \<Rightarrow> u16 \<Rightarrow> (ModbusError, RegisterStore) outcome" where
  "RegisterStore_set_input_register s address value =
     obind (RegisterStore_validate s RT_InputRegister address 1) (\<lambda>_.
     obind (set_at (rs_input_registers s) (unat address) value) (\<lambda>xs. Ok (s\<lparr>rs_input_registers := xs\<rparr>)))"

definition RegisterStore_set_input_registers ::
  "RegisterStore \<Rightarrow> u16 \<Rightarrow> u16 list \<Rightarrow> (ModbusError, RegisterStore) outcome" where
  "RegisterStore_set_input_registers s address values =
     obind (RegisterStore_validate s RT_InputRegister address (as_u16 (length values))) (\<lambda>_.
     obind (write_span (rs_input_registers s) address values)
       (\<lambda>xs. Ok (s\<lparr>rs_input_registers := xs\<rparr>)))"

definition RegisterStore_mask_write_holding_register ::
  "RegisterStore \<Rightarrow> u16 \<Rightarrow> u16 \<Rightarrow> u16 \<Rightarrow> (ModbusError, u16 \<times> RegisterStore) outcome" where
  "RegisterStore_mask_write_holding_register s address and_mask or_mask =
     obind (RegisterStore_validate s RT_HoldingRegister address 1) (\<lambda>_.
     obind (idx (rs_holding_registers s) (unat address)) (\<lambda>current.
       let result = (current AND and_mask) OR (or_mask AND NOT and_mask) in
       obind (set_at (rs_holding_registers s) (unat address) result)
         (\<lambda>xs. Ok (result, s\<lparr>rs_holding_registers := xs\<rparr>))))"

definition RegisterStore_read_bytes ::
  "RegisterStore \<Rightarrow> RegisterType \<Rightarrow> u16 \<Rightarrow> usize \<Rightarrow> (ModbusError, bytes) outcome" where
  "RegisterStore_read_bytes s reg_type address byte_count =
    (let register_count = div_ceil byte_count 2 in
     obind (case reg_type of
         RT_HoldingRegister \<Rightarrow> RegisterStore_read_holding_registers s address (as_u16 register_count)
       | RT_InputRegister \<Rightarrow> RegisterStore_read_input_registers s address (as_u16 register_count)
       | _ \<Rightarrow> Err (ME_InvalidFunction (RegisterType_read_function reg_type)))
     (\<lambda>registers. Ok (take byte_count (be16_bytes registers))))"

fun padded_chunks :: "bytes \<Rightarrow> u16 list" where
  "padded_chunks (a # b # bs) = u16_of_be a b # padded_chunks bs"
| "padded_chunks [a] = [u16_of_be a 0]"
| "padded_chunks [] = []"

definition RegisterStore_write_bytes ::
  "RegisterStore \<Rightarrow> RegisterType \<Rightarrow> u16 \<Rightarrow> bytes \<Rightarrow> (ModbusError, RegisterStore) outcome" where
  "RegisterStore_write_bytes s reg_type address bytes =
    (if \<not> RegisterType_is_writable reg_type \<or> RegisterType_is_bit_type reg_type
     then Err (ME_InvalidFunction 0)
     else RegisterStore_write_holding_registers s address (padded_chunks bytes))"

definition RegisterStore_reset :: "RegisterStore \<Rightarrow> RegisterStore" where
  "RegisterStore_reset s = s\<lparr>
     rs_coils := replicate (length (rs_coils s)) False,
     rs_discrete_inputs := replicate (length (rs_discrete_inputs s)) False,
     rs_holding_registers := replicate (length (rs_holding_registers s)) 0,
     rs_input_registers := replicate (length (rs_input_registers s)) 0\<rparr>"


section \<open>Spans\<close>

text \<open>The cells from an address on, replaced.\<close>

definition overwrite :: "'a list \<Rightarrow> nat \<Rightarrow> 'a list \<Rightarrow> 'a list" where
  "overwrite xs a vs = take a xs @ vs @ drop (a + length vs) xs"

lemma length_overwrite [simp]: "a + length vs \<le> length xs \<Longrightarrow> length (overwrite xs a vs) = length xs"
  by (simp add: overwrite_def)

lemma nth_overwrite:
  "a + length vs \<le> length xs \<Longrightarrow> i < length xs \<Longrightarrow>
   overwrite xs a vs ! i = (if a \<le> i \<and> i < a + length vs then vs ! (i - a) else xs ! i)"
  by (auto simp: overwrite_def nth_append min_def)

lemma overwrite_Nil [simp]: "overwrite xs a [] = xs"
  by (simp add: overwrite_def)

lemma overwrite_Cons:
  "a < length xs \<Longrightarrow> overwrite xs a (v # vs) = overwrite (xs[a := v]) (Suc a) vs"
  by (simp add: overwrite_def take_Suc_conv_app_nth)

lemma write_loop:
  "a + k + length vs \<le> length xs \<Longrightarrow>
   ofold (\<lambda>(i, v) ys. set_at ys (a + i) v) (enumerate k vs) xs = Ok (overwrite xs (a + k) vs)"
  by (induction vs arbitrary: xs k) (simp_all add: set_at_def overwrite_Cons)

lemma write_span_Ok:
  "unat a + length vs \<le> length xs \<Longrightarrow> write_span xs a vs = Ok (overwrite xs (unat a) vs)"
  using write_loop [of "unat a" 0 vs xs] by (simp add: write_span_def)

lemma read_span_Ok:
  "unat a + unat q \<le> length xs \<Longrightarrow> read_span xs a q = Ok (take (unat q) (drop (unat a) xs))"
  by (simp add: read_span_def slice_range_def)

lemma read_span_overwrite:
  "unat a + length vs \<le> length xs \<Longrightarrow> unat q = length vs \<Longrightarrow> read_span (overwrite xs (unat a) vs) a q = Ok vs"
  by (simp add: read_span_Ok) (simp add: overwrite_def)


section \<open>Validation\<close>

definition store_wf :: "RegisterStore \<Rightarrow> bool" where
  "store_wf s \<longleftrightarrow> length (rs_coils s) = unat (rs_coil_count s) \<and>
     length (rs_discrete_inputs s) = unat (rs_discrete_input_count s) \<and>
     length (rs_holding_registers s) = unat (rs_holding_register_count s) \<and>
     length (rs_input_registers s) = unat (rs_input_register_count s)"

lemma store_wf_new: "store_wf (RegisterStore_new a b c d)"
  by (simp add: store_wf_def RegisterStore_new_def)

lemma RegisterStore_validate_eq:
  "RegisterStore_validate s t a q =
    (let max = RegisterStore_count s t in
     if unat max \<le> unat a then (if max = 0 then Panic else Err (ME_InvalidAddress a (max - 1)))
     else if q = 0 then Err (ME_InvalidQuantity q (max - a))
     else if 65536 \<le> unat a + unat q then Panic
     else if unat max < unat a + unat q then Err (ME_InvalidQuantity q (max - a)) else Ok ())"
proof -
  let ?m = "RegisterStore_count s t"
  have sub1: "u16_sub ?m 1 = (if ?m = 0 then Panic else Ok (?m - 1))"
    using unat_gt_0 [of ?m] by (auto simp: u16_sub_def word_le_nat_alt)
  have sub: "u16_sub ?m a = Ok (?m - a)" if "\<not> unat ?m \<le> unat a"
    using that by (simp add: u16_sub_def word_le_nat_alt)
  show ?thesis
    by (auto simp: RegisterStore_validate_def Let_def sub1 sub word_le_nat_alt u16_add_def
        word_less_nat_alt unat_add_u16 obind_eq_Ok_iff)
qed

lemma RegisterStore_validate_Ok_iff:
  "RegisterStore_validate s t a q = Ok () \<longleftrightarrow>
     1 \<le> unat q \<and> unat a + unat q \<le> unat (RegisterStore_count s t)"
proof -
  have "unat (RegisterStore_count s t) \<le> 65535" by (rule unat_u16_le)
  moreover have "q = 0 \<longleftrightarrow> unat q = 0" by (simp add: unat_eq_0)
  ultimately show ?thesis by (auto simp: RegisterStore_validate_eq Let_def)
qed

text \<open>The same function in a build without overflow checks, where \<^verbatim>\<open>+\<close> and \<^verbatim>\<open>-\<close> wrap.\<close>

definition RegisterStore_validate_wrapping ::
  "RegisterStore \<Rightarrow> RegisterType \<Rightarrow> u16 \<Rightarrow> u16 \<Rightarrow> (ModbusError, unit) outcome" where
  "RegisterStore_validate_wrapping s reg_type address quantity =
    (let max = RegisterStore_count s reg_type in
     if max \<le> address then Err (ME_InvalidAddress address (max - 1))
     else if quantity = 0 \<or> max < address + quantity then Err (ME_InvalidQuantity quantity (max - address))
     else Ok ())"

lemma wrapping_accepts_overflow:
  assumes "unat a < unat (RegisterStore_count s t)" "q \<noteq> 0" "65536 \<le> unat a + unat q"
  shows "RegisterStore_validate_wrapping s t a q = Ok ()"
proof -
  have "unat (a + q) = unat a + unat q - 65536"
    using assms(3) unat_u16_less [of a] unat_u16_less [of q]
    by (simp add: unat_word_ariths mod_if del: unat_u16_less)
  also have "\<dots> \<le> unat a" using unat_u16_le [of q] by simp
  finally have "\<not> RegisterStore_count s t < a + q" using assms(1) by (simp add: word_less_nat_alt)
  then show ?thesis using assms(1,2)
    by (simp add: RegisterStore_validate_wrapping_def word_le_nat_alt)
qed


section \<open>Properties\<close>

text \<open>The bounds check of the dense store panics exactly when the store has no register of the type,
  or when the address is valid and the end of the span passes 65535; in all other cases it answers, and it
  accepts exactly the non-empty spans inside the store. A build without overflow checks does not escape the
  second case: there the sum wraps, the check accepts the span, and the slice that follows is out of range.\<close>
theorem register_validate_panics_iff:
  "(RegisterStore_validate s t a q = Panic \<longleftrightarrow>
      RegisterStore_count s t = 0 \<or>
      (unat a < unat (RegisterStore_count s t) \<and> q \<noteq> 0 \<and> 65536 \<le> unat a + unat q)) \<and>
   (RegisterStore_validate s t a q = Ok () \<longleftrightarrow>
      1 \<le> unat q \<and> unat a + unat q \<le> unat (RegisterStore_count s t)) \<and>
   (store_wf s \<and> unat a < unat (rs_coil_count s) \<and> q \<noteq> 0 \<and> 65536 \<le> unat a + unat q \<longrightarrow>
      RegisterStore_validate_wrapping s RT_Coil a q = Ok () \<and> is_panic (read_span (rs_coils s) a q :: (ModbusError, bool list) outcome))"
proof -
  have "length (rs_coils s) < unat a + unat q" if "store_wf s" "65536 \<le> unat a + unat q"
    using that unat_u16_le [of "rs_coil_count s"] by (simp add: store_wf_def)
  then have "store_wf s \<and> unat a < unat (rs_coil_count s) \<and> q \<noteq> 0 \<and> 65536 \<le> unat a + unat q \<longrightarrow>
      RegisterStore_validate_wrapping s RT_Coil a q = Ok () \<and> is_panic (read_span (rs_coils s) a q :: (ModbusError, bool list) outcome)"
    using wrapping_accepts_overflow [of a s RT_Coil q] by (auto simp: read_span_def slice_range_def)
  moreover have "RegisterStore_validate s t a q = Panic \<longleftrightarrow> RegisterStore_count s t = 0 \<or>
      (unat a < unat (RegisterStore_count s t) \<and> q \<noteq> 0 \<and> 65536 \<le> unat a + unat q)"
    by (auto simp: RegisterStore_validate_eq Let_def)
  ultimately show ?thesis using RegisterStore_validate_Ok_iff by blast
qed

theorem register_validate_panics_iff_witness:
  "RegisterStore_validate (RegisterStore_new 65535 1 1 1) RT_Coil 65534 2 = Panic \<and>
   RegisterStore_validate_wrapping (RegisterStore_new 65535 1 1 1) RT_Coil 65534 2 = Ok () \<and>
   is_panic (read_span (rs_coils (RegisterStore_new 65535 1 1 1)) 65534 2 :: (ModbusError, bool list) outcome)"
  using register_validate_panics_iff [of "RegisterStore_new 65535 1 1 1" RT_Coil 65534 2] store_wf_new [of 65535 1 1 1]
  by (simp add: RegisterStore_new_def)


end
