(* ===== verification/Modbus_Sparse.thy ===== *)
theory Modbus_Sparse
  imports Modbus_Sharded Modbus_Registers
begin

text \<open>
  The sparse register store of \<^verbatim>\<open>mabi-modbus/src/registers\<close>: register types (\<^verbatim>\<open>types.rs\<close>),
  address ranges, default values and configuration (\<^verbatim>\<open>config.rs\<close>), the callback manager
  (\<^verbatim>\<open>callback.rs\<close>) and the store itself (\<^verbatim>\<open>sparse_store.rs\<close>). The code of a registered
  callback is not part of the store; what the manager calls, in which order and with which
  arguments, is recorded in a log. The helper functions for random defaults read the system
  clock, so the nanoseconds they see are an argument.
\<close>

section \<open>Configuration\<close>

datatype (plugins only: code size) SparseRegisterType = SRT_Coil | SRT_DiscreteInput | SRT_HoldingRegister | SRT_InputRegister

fun SparseRegisterType_read_function_code :: "SparseRegisterType \<Rightarrow> u8" where
  "SparseRegisterType_read_function_code SRT_Coil = 0x01"
| "SparseRegisterType_read_function_code SRT_DiscreteInput = 0x02"
| "SparseRegisterType_read_function_code SRT_HoldingRegister = 0x03"
| "SparseRegisterType_read_function_code SRT_InputRegister = 0x04"

record AddressRange =
  ar_start :: u16
  ar_end :: u16

datatype (plugins only: code size) AddressRangeError =
    ARE_ZeroQuantity
  | ARE_Overflow
  | ARE_BelowMinimum u16 u16
  | ARE_AboveMaximum u16 u16

definition AddressRange_from_count :: "u16 \<Rightarrow> AddressRange" where
  "AddressRange_from_count count = \<lparr>ar_start = 0, ar_end = u16_saturating_sub count 1\<rparr>"

definition AddressRange_contains_range :: "AddressRange \<Rightarrow> u16 \<Rightarrow> u16 \<Rightarrow> bool" where
  "AddressRange_contains_range r start count =
    (if count = 0 then False
     else case u16_checked_add start (u16_saturating_sub count 1) of
       None \<Rightarrow> False
     | Some end \<Rightarrow> ar_start r \<le> start \<and> end \<le> ar_end r)"

definition AddressRange_validate :: "AddressRange \<Rightarrow> u16 \<Rightarrow> u16 \<Rightarrow> (AddressRangeError, unit) outcome" where
  "AddressRange_validate r start count =
    (if count = 0 then Err ARE_ZeroQuantity
     else obind (ok_or (u16_checked_add start (u16_saturating_sub count 1)) ARE_Overflow) (\<lambda>end.
       if start < ar_start r then Err (ARE_BelowMinimum start (ar_start r))
       else if ar_end r < end then Err (ARE_AboveMaximum end (ar_end r))
       else Ok ()))"

datatype (plugins only: code size) DefaultValue =
    DV_Zero
  | DV_Value u16
  | DV_Random
  | DV_RandomRange u16 u16

definition rand_bool :: "nat \<Rightarrow> bool" where
  "rand_bool nanos \<longleftrightarrow> nanos mod 2 = 0"

definition rand_u16 :: "nat \<Rightarrow> u16" where
  "rand_u16 nanos = of_nat (nanos AND 0xFFFF)"

definition rand_range :: "nat \<Rightarrow> u16 \<Rightarrow> u16 \<Rightarrow> u16" where
  "rand_range nanos mn mx =
    (if mx \<le> mn then mn
     else let count = unat (mx - mn) + 1 in mn + as_u16 (unat (rand_u16 nanos) mod count))"

fun DefaultValue_get_bool :: "nat \<Rightarrow> DefaultValue \<Rightarrow> bool" where
  "DefaultValue_get_bool now DV_Zero = False"
| "DefaultValue_get_bool now (DV_Value v) = (v \<noteq> 0)"
| "DefaultValue_get_bool now DV_Random = rand_bool now"
| "DefaultValue_get_bool now (DV_RandomRange _ _) = rand_bool now"

fun DefaultValue_get_word :: "nat \<Rightarrow> DefaultValue \<Rightarrow> u16" where
  "DefaultValue_get_word now DV_Zero = 0"
| "DefaultValue_get_word now (DV_Value v) = v"
| "DefaultValue_get_word now DV_Random = rand_u16 now"
| "DefaultValue_get_word now (DV_RandomRange mn mx) = rand_range now mn mx"

record RegisterRangeConfig =
  rc_range :: AddressRange
  rc_default_value :: DefaultValue
  rc_enabled :: bool

definition RegisterRangeConfig_new :: "AddressRange \<Rightarrow> DefaultValue \<Rightarrow> RegisterRangeConfig" where
  "RegisterRangeConfig_new rng default_value =
     \<lparr>rc_range = rng, rc_default_value = default_value, rc_enabled = True\<rparr>"

definition RegisterRangeConfig_disabled :: RegisterRangeConfig where
  "RegisterRangeConfig_disabled =
     \<lparr>rc_range = \<lparr>ar_start = 0, ar_end = 0\<rparr>, rc_default_value = DV_Zero, rc_enabled = False\<rparr>"

record RegisterSnapshot =
  sn_coils :: "(u16 \<times> bool) list"
  sn_discrete_inputs :: "(u16 \<times> bool) list"
  sn_holding_registers :: "(u16 \<times> u16) list"
  sn_input_registers :: "(u16 \<times> u16) list"

datatype InitializationMode =
    IM_Eager
  | IM_Lazy
  | IM_Pattern bytes
  | IM_Snapshot RegisterSnapshot

record RegisterStoreConfig =
  cfg_coils :: RegisterRangeConfig
  cfg_discrete_inputs :: RegisterRangeConfig
  cfg_holding_registers :: RegisterRangeConfig
  cfg_input_registers :: RegisterRangeConfig
  cfg_initialization :: InitializationMode
  cfg_callbacks_enabled :: bool

definition RegisterStoreConfig_new ::
  "AddressRange \<Rightarrow> AddressRange \<Rightarrow> AddressRange \<Rightarrow> AddressRange \<Rightarrow> RegisterStoreConfig" where
  "RegisterStoreConfig_new coils discrete_inputs holding_registers input_registers =
     \<lparr>cfg_coils = RegisterRangeConfig_new coils DV_Zero,
      cfg_discrete_inputs = RegisterRangeConfig_new discrete_inputs DV_Zero,
      cfg_holding_registers = RegisterRangeConfig_new holding_registers DV_Zero,
      cfg_input_registers = RegisterRangeConfig_new input_registers DV_Zero,
      cfg_initialization = IM_Lazy,
      cfg_callbacks_enabled = True\<rparr>"

fun RegisterStoreConfig_get_range_config :: "RegisterStoreConfig \<Rightarrow> SparseRegisterType \<Rightarrow> RegisterRangeConfig" where
  "RegisterStoreConfig_get_range_config c SRT_Coil = cfg_coils c"
| "RegisterStoreConfig_get_range_config c SRT_DiscreteInput = cfg_discrete_inputs c"
| "RegisterStoreConfig_get_range_config c SRT_HoldingRegister = cfg_holding_registers c"
| "RegisterStoreConfig_get_range_config c SRT_InputRegister = cfg_input_registers c"

definition RegisterStoreConfig_get_range :: "RegisterStoreConfig \<Rightarrow> SparseRegisterType \<Rightarrow> AddressRange" where
  "RegisterStoreConfig_get_range c reg_type = rc_range (RegisterStoreConfig_get_range_config c reg_type)"

definition RegisterStoreConfig_validate_range ::
  "RegisterStoreConfig \<Rightarrow> SparseRegisterType \<Rightarrow> u16 \<Rightarrow> u16 \<Rightarrow> (AddressRangeError, unit) outcome" where
  "RegisterStoreConfig_validate_range c reg_type start count =
     AddressRange_validate (RegisterStoreConfig_get_range c reg_type) start count"


section \<open>Callbacks\<close>

datatype RegisterValue = RV_Bool bool | RV_Word u16

datatype CallbackPriority = CP_Low | CP_Normal | CP_High

fun CallbackPriority_rank :: "CallbackPriority \<Rightarrow> nat" where
  "CallbackPriority_rank CP_Low = 0"
| "CallbackPriority_rank CP_Normal = 50"
| "CallbackPriority_rank CP_High = 100"

record ReadContext =
  rd_register_type :: SparseRegisterType
  rd_address :: u16
  rd_count :: u16

record WriteContext =
  wr_register_type :: SparseRegisterType
  wr_address :: u16
  wr_old_value :: RegisterValue
  wr_new_value :: RegisterValue

record CallbackEntry =
  ce_id :: string
  ce_priority :: CallbackPriority

datatype callback_call =
    OnRead string ReadContext "RegisterValue list"
  | OnWrite string WriteContext

record CallbackManager =
  cm_read_callbacks :: "CallbackEntry list"
  cm_write_callbacks :: "CallbackEntry list"
  cm_read_callback_count :: usize
  cm_write_callback_count :: usize
  cm_enabled :: bool
  cm_log :: "callback_call list"

definition CallbackManager_new :: CallbackManager where
  "CallbackManager_new =
     \<lparr>cm_read_callbacks = [], cm_write_callbacks = [], cm_read_callback_count = 0,
      cm_write_callback_count = 0, cm_enabled = True, cm_log = []\<rparr>"

definition CallbackManager_set_enabled :: "CallbackManager \<Rightarrow> bool \<Rightarrow> CallbackManager" where
  "CallbackManager_set_enabled cm enabled = cm\<lparr>cm_enabled := enabled\<rparr>"

text \<open>\<^verbatim>\<open>sort_by(|a, b| b.priority.cmp(&a.priority))\<close> is stable, highest priority first.\<close>

definition sort_callbacks :: "CallbackEntry list \<Rightarrow> CallbackEntry list" where
  "sort_callbacks = sort_key (\<lambda>e. 100 - CallbackPriority_rank (ce_priority e))"

definition CallbackManager_add_read_callback :: "CallbackManager \<Rightarrow> CallbackEntry \<Rightarrow> CallbackManager" where
  "CallbackManager_add_read_callback cm entry =
    (let callbacks = sort_callbacks (cm_read_callbacks cm @ [entry])
     in cm\<lparr>cm_read_callbacks := callbacks, cm_read_callback_count := length callbacks\<rparr>)"

definition CallbackManager_add_write_callback :: "CallbackManager \<Rightarrow> CallbackEntry \<Rightarrow> CallbackManager" where
  "CallbackManager_add_write_callback cm entry =
    (let callbacks = sort_callbacks (cm_write_callbacks cm @ [entry])
     in cm\<lparr>cm_write_callbacks := callbacks, cm_write_callback_count := length callbacks\<rparr>)"

definition CallbackManager_remove_read_callback :: "CallbackManager \<Rightarrow> string \<Rightarrow> bool \<times> CallbackManager" where
  "CallbackManager_remove_read_callback cm cid =
    (let callbacks = filter (\<lambda>e. ce_id e \<noteq> cid) (cm_read_callbacks cm)
     in (length callbacks < length (cm_read_callbacks cm),
         cm\<lparr>cm_read_callbacks := callbacks, cm_read_callback_count := length callbacks\<rparr>))"

definition CallbackManager_remove_write_callback :: "CallbackManager \<Rightarrow> string \<Rightarrow> bool \<times> CallbackManager" where
  "CallbackManager_remove_write_callback cm cid =
    (let callbacks = filter (\<lambda>e. ce_id e \<noteq> cid) (cm_write_callbacks cm)
     in (length callbacks < length (cm_write_callbacks cm),
         cm\<lparr>cm_write_callbacks := callbacks, cm_write_callback_count := length callbacks\<rparr>))"

definition CallbackManager_clear :: "CallbackManager \<Rightarrow> CallbackManager" where
  "CallbackManager_clear cm = cm\<lparr>cm_read_callbacks := [], cm_write_callbacks := [],
     cm_read_callback_count := 0, cm_write_callback_count := 0\<rparr>"

definition CallbackManager_has_read_callbacks :: "CallbackManager \<Rightarrow> bool" where
  "CallbackManager_has_read_callbacks cm \<longleftrightarrow> cm_enabled cm \<and> cm_read_callback_count cm > 0"

definition CallbackManager_has_write_callbacks :: "CallbackManager \<Rightarrow> bool" where
  "CallbackManager_has_write_callbacks cm \<longleftrightarrow> cm_enabled cm \<and> cm_write_callback_count cm > 0"

definition CallbackManager_notify_read ::
  "CallbackManager \<Rightarrow> ReadContext \<Rightarrow> RegisterValue list \<Rightarrow> CallbackManager" where
  "CallbackManager_notify_read cm ctx vals =
    (if \<not> CallbackManager_has_read_callbacks cm then cm
     else cm\<lparr>cm_log := cm_log cm @ map (\<lambda>e. OnRead (ce_id e) ctx vals) (cm_read_callbacks cm)\<rparr>)"

definition CallbackManager_notify_write :: "CallbackManager \<Rightarrow> WriteContext \<Rightarrow> CallbackManager" where
  "CallbackManager_notify_write cm ctx =
    (if \<not> CallbackManager_has_write_callbacks cm then cm
     else cm\<lparr>cm_log := cm_log cm @ map (\<lambda>e. OnWrite (ce_id e) ctx) (cm_write_callbacks cm)\<rparr>)"


section \<open>The store\<close>

record SparseRegisterStore =
  ss_config :: RegisterStoreConfig
  ss_coils :: "bool ShardedRegisterMap"
  ss_discrete_inputs :: "bool ShardedRegisterMap"
  ss_holding_registers :: "u16 ShardedRegisterMap"
  ss_input_registers :: "u16 ShardedRegisterMap"
  ss_callbacks :: CallbackManager
  ss_now :: nat

text \<open>The clock reading at the initialisation of an address is an argument of the initialisers.\<close>

definition SparseRegisterStore_initialize_eager ::
  "(u16 \<Rightarrow> nat) \<Rightarrow> SparseRegisterStore \<Rightarrow> SparseRegisterStore" where
  "SparseRegisterStore_initialize_eager clk s =
    (let c = ss_config s;
         s = (let rc = cfg_coils c in if rc_enabled rc then
                s\<lparr>ss_coils := ShardedRegisterMap_populate_range False (ss_coils s)
                   (ar_start (rc_range rc)) (ar_end (rc_range rc))
                   (\<lambda>a. DefaultValue_get_bool (clk a) (rc_default_value rc))\<rparr> else s);
         s = (let rc = cfg_discrete_inputs c in if rc_enabled rc then
                s\<lparr>ss_discrete_inputs := ShardedRegisterMap_populate_range False (ss_discrete_inputs s)
                   (ar_start (rc_range rc)) (ar_end (rc_range rc))
                   (\<lambda>a. DefaultValue_get_bool (clk a) (rc_default_value rc))\<rparr> else s);
         s = (let rc = cfg_holding_registers c in if rc_enabled rc then
                s\<lparr>ss_holding_registers := ShardedRegisterMap_populate_range 0 (ss_holding_registers s)
                   (ar_start (rc_range rc)) (ar_end (rc_range rc))
                   (\<lambda>a. DefaultValue_get_word (clk a) (rc_default_value rc))\<rparr> else s)
     in (let rc = cfg_input_registers c in if rc_enabled rc then
                s\<lparr>ss_input_registers := ShardedRegisterMap_populate_range 0 (ss_input_registers s)
                   (ar_start (rc_range rc)) (ar_end (rc_range rc))
                   (\<lambda>a. DefaultValue_get_word (clk a) (rc_default_value rc))\<rparr> else s))"

text \<open>The closure advances its index by two per call and is called in ascending address order.\<close>

definition pattern_word :: "bytes \<Rightarrow> u16 \<Rightarrow> u16 \<Rightarrow> u16" where
  "pattern_word pattern start address =
    (let i = 2 * (unat address - unat start)
     in u16_of_be (pattern ! (i mod length pattern)) (pattern ! ((i + 1) mod length pattern)))"

definition SparseRegisterStore_initialize_pattern :: "bytes \<Rightarrow> SparseRegisterStore \<Rightarrow> SparseRegisterStore" where
  "SparseRegisterStore_initialize_pattern pattern s =
    (if pattern = [] then s
     else let c = ss_config s;
       s = (let rc = cfg_holding_registers c in if rc_enabled rc then
              s\<lparr>ss_holding_registers := ShardedRegisterMap_populate_range 0 (ss_holding_registers s)
                 (ar_start (rc_range rc)) (ar_end (rc_range rc)) (pattern_word pattern (ar_start (rc_range rc)))\<rparr>
            else s)
     in (let rc = cfg_input_registers c in if rc_enabled rc then
              s\<lparr>ss_input_registers := ShardedRegisterMap_populate_range 0 (ss_input_registers s)
                 (ar_start (rc_range rc)) (ar_end (rc_range rc)) (pattern_word pattern (ar_start (rc_range rc)))\<rparr>
            else s))"

definition insert_entries :: "'a \<Rightarrow> (u16 \<times> 'a) list \<Rightarrow> 'a ShardedRegisterMap \<Rightarrow> 'a ShardedRegisterMap" where
  "insert_entries d xs m = fold (\<lambda>(a, v) m. snd (ShardedRegisterMap_insert d m a v)) xs m"

definition SparseRegisterStore_load_snapshot ::
  "RegisterSnapshot \<Rightarrow> SparseRegisterStore \<Rightarrow> SparseRegisterStore" where
  "SparseRegisterStore_load_snapshot sn s = s\<lparr>
     ss_coils := insert_entries False (sn_coils sn) (ss_coils s),
     ss_discrete_inputs := insert_entries False (sn_discrete_inputs sn) (ss_discrete_inputs s),
     ss_holding_registers := insert_entries 0 (sn_holding_registers sn) (ss_holding_registers s),
     ss_input_registers := insert_entries 0 (sn_input_registers sn) (ss_input_registers s)\<rparr>"

definition SparseRegisterStore_apply_initialization ::
  "(u16 \<Rightarrow> nat) \<Rightarrow> SparseRegisterStore \<Rightarrow> SparseRegisterStore" where
  "SparseRegisterStore_apply_initialization clk s =
    (let s = (case cfg_initialization (ss_config s) of
         IM_Lazy \<Rightarrow> s
       | IM_Eager \<Rightarrow> SparseRegisterStore_initialize_eager clk s
       | IM_Pattern pattern \<Rightarrow> SparseRegisterStore_initialize_pattern pattern s
       | IM_Snapshot sn \<Rightarrow> SparseRegisterStore_load_snapshot sn s)
     in s\<lparr>ss_callbacks := CallbackManager_set_enabled (ss_callbacks s) (cfg_callbacks_enabled (ss_config s))\<rparr>)"

definition SparseRegisterStore_new :: "(u16 \<Rightarrow> nat) \<Rightarrow> nat \<Rightarrow> RegisterStoreConfig \<Rightarrow> SparseRegisterStore" where
  "SparseRegisterStore_new clk now config =
     SparseRegisterStore_apply_initialization clk
       \<lparr>ss_config = config, ss_coils = ShardedRegisterMap_new, ss_discrete_inputs = ShardedRegisterMap_new,
        ss_holding_registers = ShardedRegisterMap_new, ss_input_registers = ShardedRegisterMap_new,
        ss_callbacks = CallbackManager_new, ss_now = now\<rparr>"

definition SparseRegisterStore_validate ::
  "SparseRegisterStore \<Rightarrow> SparseRegisterType \<Rightarrow> u16 \<Rightarrow> u16 \<Rightarrow> (ModbusError, unit) outcome" where
  "SparseRegisterStore_validate s reg_type address quantity =
     map_err (\<lambda>e. case e of
         ARE_ZeroQuantity \<Rightarrow> ME_InvalidQuantity 0 1
       | ARE_Overflow \<Rightarrow> ME_InvalidAddress address 0xFFFF
       | ARE_BelowMinimum a _ \<Rightarrow> ME_InvalidAddress a (ar_end (RegisterStoreConfig_get_range (ss_config s) reg_type))
       | ARE_AboveMaximum a _ \<Rightarrow> ME_InvalidAddress a (ar_end (RegisterStoreConfig_get_range (ss_config s) reg_type)))
     (RegisterStoreConfig_validate_range (ss_config s) reg_type address quantity)"

text \<open>The tail of every read: notify the read callbacks of the values.\<close>

definition notify_read_values ::
  "SparseRegisterStore \<Rightarrow> SparseRegisterType \<Rightarrow> u16 \<Rightarrow> u16 \<Rightarrow> RegisterValue list \<Rightarrow> SparseRegisterStore" where
  "notify_read_values s reg_type address quantity vals =
    (if CallbackManager_has_read_callbacks (ss_callbacks s) then
       s\<lparr>ss_callbacks := CallbackManager_notify_read (ss_callbacks s)
          \<lparr>rd_register_type = reg_type, rd_address = address, rd_count = quantity\<rparr> vals\<rparr>
     else s)"

definition notify_write_value ::
  "SparseRegisterStore \<Rightarrow> SparseRegisterType \<Rightarrow> u16 \<Rightarrow> RegisterValue \<Rightarrow> RegisterValue \<Rightarrow> SparseRegisterStore" where
  "notify_write_value s reg_type address old new =
     s\<lparr>ss_callbacks := CallbackManager_notify_write (ss_callbacks s)
       \<lparr>wr_register_type = reg_type, wr_address = address, wr_old_value = old, wr_new_value = new\<rparr>\<rparr>"

text \<open>\<^verbatim>\<open>if quantity == 1 { vec![read_one] } else { read_range }\<close>\<close>

definition read_cells :: "'a ShardedRegisterMap \<Rightarrow> u16 \<Rightarrow> u16 \<Rightarrow> 'a \<Rightarrow> 'a list" where
  "read_cells m address quantity dflt =
    (if quantity = 1 then [ShardedRegisterMap_read_one m address dflt]
     else ShardedRegisterMap_read_range m address quantity dflt)"

definition SparseRegisterStore_read_coils ::
  "SparseRegisterStore \<Rightarrow> u16 \<Rightarrow> u16 \<Rightarrow> (ModbusError, bool list \<times> SparseRegisterStore) outcome" where
  "SparseRegisterStore_read_coils s address quantity =
     obind (SparseRegisterStore_validate s SRT_Coil address quantity) (\<lambda>_.
       let dflt = DefaultValue_get_bool (ss_now s) (rc_default_value (cfg_coils (ss_config s)));
           result = read_cells (ss_coils s) address quantity dflt
       in Ok (result, notify_read_values s SRT_Coil address quantity (map RV_Bool result)))"

definition SparseRegisterStore_write_coil ::
  "SparseRegisterStore \<Rightarrow> u16 \<Rightarrow> bool \<Rightarrow> (ModbusError, SparseRegisterStore) outcome" where
  "SparseRegisterStore_write_coil s address value =
     obind (SparseRegisterStore_validate s SRT_Coil address 1) (\<lambda>_.
       let (previous, m) = ShardedRegisterMap_insert False (ss_coils s) address value;
           notify = CallbackManager_has_write_callbacks (ss_callbacks s);
           s = s\<lparr>ss_coils := m\<rparr>
       in Ok (if notify then
                notify_write_value s SRT_Coil address
                  (RV_Bool (case previous of Some v \<Rightarrow> v | None \<Rightarrow> False)) (RV_Bool value)
              else s))"

definition write_coil_notified :: "u16 \<Rightarrow> nat \<times> bool \<Rightarrow> SparseRegisterStore \<Rightarrow> (ModbusError, SparseRegisterStore) outcome" where
  "write_coil_notified address iv s =
     obind (u16_add address (as_u16 (fst iv))) (\<lambda>addr.
       let (previous, m) = ShardedRegisterMap_insert False (ss_coils s) addr (snd iv)
       in Ok (notify_write_value (s\<lparr>ss_coils := m\<rparr>) SRT_Coil addr
                (RV_Bool (case previous of Some v \<Rightarrow> v | None \<Rightarrow> False)) (RV_Bool (snd iv))))"

definition SparseRegisterStore_write_coils ::
  "SparseRegisterStore \<Rightarrow> u16 \<Rightarrow> bool list \<Rightarrow> (ModbusError, SparseRegisterStore) outcome" where
  "SparseRegisterStore_write_coils s address vals =
     obind (SparseRegisterStore_validate s SRT_Coil address (as_u16 (length vals))) (\<lambda>_.
       if CallbackManager_has_write_callbacks (ss_callbacks s)
       then ofold (write_coil_notified address) (enumerate 0 vals) s
       else Ok (s\<lparr>ss_coils := ShardedRegisterMap_write_range False (ss_coils s) address vals\<rparr>))"

definition SparseRegisterStore_read_discrete_inputs ::
  "SparseRegisterStore \<Rightarrow> u16 \<Rightarrow> u16 \<Rightarrow> (ModbusError, bool list \<times> SparseRegisterStore) outcome" where
  "SparseRegisterStore_read_discrete_inputs s address quantity =
     obind (SparseRegisterStore_validate s SRT_DiscreteInput address quantity) (\<lambda>_.
       let dflt = DefaultValue_get_bool (ss_now s) (rc_default_value (cfg_discrete_inputs (ss_config s)));
           result = read_cells (ss_discrete_inputs s) address quantity dflt
       in Ok (result, notify_read_values s SRT_DiscreteInput address quantity (map RV_Bool result)))"

definition SparseRegisterStore_set_discrete_input ::
  "SparseRegisterStore \<Rightarrow> u16 \<Rightarrow> bool \<Rightarrow> (ModbusError, SparseRegisterStore) outcome" where
  "SparseRegisterStore_set_discrete_input s address value =
     obind (SparseRegisterStore_validate s SRT_DiscreteInput address 1)
       (\<lambda>_. Ok (s\<lparr>ss_discrete_inputs := snd (ShardedRegisterMap_insert False (ss_discrete_inputs s) address value)\<rparr>))"

definition SparseRegisterStore_set_discrete_inputs ::
  "SparseRegisterStore \<Rightarrow> u16 \<Rightarrow> bool list \<Rightarrow> (ModbusError, SparseRegisterStore) outcome" where
  "SparseRegisterStore_set_discrete_inputs s address vals =
     obind (SparseRegisterStore_validate s SRT_DiscreteInput address (as_u16 (length vals)))
       (\<lambda>_. Ok (s\<lparr>ss_discrete_inputs := ShardedRegisterMap_write_range False (ss_discrete_inputs s) address vals\<rparr>))"

definition SparseRegisterStore_read_holding_registers ::
  "SparseRegisterStore \<Rightarrow> u16 \<Rightarrow> u16 \<Rightarrow> (ModbusError, u16 list \<times> SparseRegisterStore) outcome" where
  "SparseRegisterStore_read_holding_registers s address quantity =
     obind (SparseRegisterStore_validate s SRT_HoldingRegister address quantity) (\<lambda>_.
       let dflt = DefaultValue_get_word (ss_now s) (rc_default_value (cfg_holding_registers (ss_config s)));
           result = read_cells (ss_holding_registers s) address quantity dflt
       in Ok (result, notify_read_values s SRT_HoldingRegister address quantity (map RV_Word result)))"

definition SparseRegisterStore_write_holding_register ::
  "SparseRegisterStore \<Rightarrow> u16 \<Rightarrow> u16 \<Rightarrow> (ModbusError, SparseRegisterStore) outcome" where
  "SparseRegisterStore_write_holding_register s address value =
     obind (SparseRegisterStore_validate s SRT_HoldingRegister address 1) (\<lambda>_.
       let (previous, m) = ShardedRegisterMap_insert 0 (ss_holding_registers s) address value;
           notify = CallbackManager_has_write_callbacks (ss_callbacks s);
           s = s\<lparr>ss_holding_registers := m\<rparr>
       in Ok (if notify then
                notify_write_value s SRT_HoldingRegister address
                  (RV_Word (case previous of Some v \<Rightarrow> v | None \<Rightarrow> 0)) (RV_Word value)
              else s))"

definition write_register_notified :: "u16 \<Rightarrow> nat \<times> u16 \<Rightarrow> SparseRegisterStore \<Rightarrow> (ModbusError, SparseRegisterStore) outcome" where
  "write_register_notified address iv s =
     obind (u16_add address (as_u16 (fst iv))) (\<lambda>addr.
       let (previous, m) = ShardedRegisterMap_insert 0 (ss_holding_registers s) addr (snd iv)
       in Ok (notify_write_value (s\<lparr>ss_holding_registers := m\<rparr>) SRT_HoldingRegister addr
                (RV_Word (case previous of Some v \<Rightarrow> v | None \<Rightarrow> 0)) (RV_Word (snd iv))))"

definition SparseRegisterStore_write_holding_registers ::
  "SparseRegisterStore \<Rightarrow> u16 \<Rightarrow> u16 list \<Rightarrow> (ModbusError, SparseRegisterStore) outcome" where
  "SparseRegisterStore_write_holding_registers s address vals =
     obind (SparseRegisterStore_validate s SRT_HoldingRegister address (as_u16 (length vals))) (\<lambda>_.
       if CallbackManager_has_write_callbacks (ss_callbacks s)
       then ofold (write_register_notified address) (enumerate 0 vals) s
       else Ok (s\<lparr>ss_holding_registers := ShardedRegisterMap_write_range 0 (ss_holding_registers s) address vals\<rparr>))"

definition SparseRegisterStore_read_input_registers ::
  "SparseRegisterStore \<Rightarrow> u16 \<Rightarrow> u16 \<Rightarrow> (ModbusError, u16 list \<times> SparseRegisterStore) outcome" where
  "SparseRegisterStore_read_input_registers s address quantity =
     obind (SparseRegisterStore_validate s SRT_InputRegister address quantity) (\<lambda>_.
       let dflt = DefaultValue_get_word (ss_now s) (rc_default_value (cfg_input_registers (ss_config s)));
           result = read_cells (ss_input_registers s) address quantity dflt
       in Ok (result, notify_read_values s SRT_InputRegister address quantity (map RV_Word result)))"

definition SparseRegisterStore_set_input_register ::
  "SparseRegisterStore \<Rightarrow> u16 \<Rightarrow> u16 \<Rightarrow> (ModbusError, SparseRegisterStore) outcome" where
  "SparseRegisterStore_set_input_register s address value =
     obind (SparseRegisterStore_validate s SRT_InputRegister address 1)
       (\<lambda>_. Ok (s\<lparr>ss_input_registers := snd (ShardedRegisterMap_insert 0 (ss_input_registers s) address value)\<rparr>))"

definition SparseRegisterStore_set_input_registers ::
  "SparseRegisterStore \<Rightarrow> u16 \<Rightarrow> u16 list \<Rightarrow> (ModbusError, SparseRegisterStore) outcome" where
  "SparseRegisterStore_set_input_registers s address vals =
     obind (SparseRegisterStore_validate s SRT_InputRegister address (as_u16 (length vals)))
       (\<lambda>_. Ok (s\<lparr>ss_input_registers := ShardedRegisterMap_write_range 0 (ss_input_registers s) address vals\<rparr>))"

definition SparseRegisterStore_read_bytes ::
  "SparseRegisterStore \<Rightarrow> SparseRegisterType \<Rightarrow> u16 \<Rightarrow> usize \<Rightarrow> (ModbusError, bytes \<times> SparseRegisterStore) outcome" where
  "SparseRegisterStore_read_bytes s reg_type address byte_count =
    (let register_count = div_ceil byte_count 2 in
     obind (case reg_type of
         SRT_HoldingRegister \<Rightarrow> SparseRegisterStore_read_holding_registers s address (as_u16 register_count)
       | SRT_InputRegister \<Rightarrow> SparseRegisterStore_read_input_registers s address (as_u16 register_count)
       | _ \<Rightarrow> Err (ME_InvalidFunction (SparseRegisterType_read_function_code reg_type)))
     (\<lambda>(registers, s). Ok (take byte_count (be16_bytes registers), s)))"

definition SparseRegisterStore_write_bytes ::
  "SparseRegisterStore \<Rightarrow> u16 \<Rightarrow> bytes \<Rightarrow> (ModbusError, SparseRegisterStore) outcome" where
  "SparseRegisterStore_write_bytes s address bytes =
     SparseRegisterStore_write_holding_registers s address (padded_chunks bytes)"

definition SparseRegisterStore_memory_usage :: "SparseRegisterStore \<Rightarrow> usize" where
  "SparseRegisterStore_memory_usage s =
     256 +
     (ShardedRegisterMap_active_shard_count (ss_coils s) * 24 + sh_len (ss_coils s) * 16) +
     (ShardedRegisterMap_active_shard_count (ss_discrete_inputs s) * 24 + sh_len (ss_discrete_inputs s) * 16) +
     (ShardedRegisterMap_active_shard_count (ss_holding_registers s) * 24 + sh_len (ss_holding_registers s) * 24) +
     (ShardedRegisterMap_active_shard_count (ss_input_registers s) * 24 + sh_len (ss_input_registers s) * 24)"

definition SparseRegisterStore_reset :: "(u16 \<Rightarrow> nat) \<Rightarrow> SparseRegisterStore \<Rightarrow> SparseRegisterStore" where
  "SparseRegisterStore_reset clk s =
     SparseRegisterStore_apply_initialization clk (s\<lparr>
       ss_coils := ShardedRegisterMap_clear (ss_coils s),
       ss_discrete_inputs := ShardedRegisterMap_clear (ss_discrete_inputs s),
       ss_holding_registers := ShardedRegisterMap_clear (ss_holding_registers s),
       ss_input_registers := ShardedRegisterMap_clear (ss_input_registers s)\<rparr>)"

definition SparseRegisterStore_snapshot :: "SparseRegisterStore \<Rightarrow> RegisterSnapshot" where
  "SparseRegisterStore_snapshot s =
     \<lparr>sn_coils = ShardedRegisterMap_snapshot (ss_coils s),
      sn_discrete_inputs = ShardedRegisterMap_snapshot (ss_discrete_inputs s),
      sn_holding_registers = ShardedRegisterMap_snapshot (ss_holding_registers s),
      sn_input_registers = ShardedRegisterMap_snapshot (ss_input_registers s)\<rparr>"

fun SparseRegisterStore_remove ::
  "SparseRegisterStore \<Rightarrow> SparseRegisterType \<Rightarrow> u16 \<Rightarrow> bool \<times> SparseRegisterStore" where
  "SparseRegisterStore_remove s SRT_Coil address =
    (let (p, m) = ShardedRegisterMap_remove (ss_coils s) address in (p \<noteq> None, s\<lparr>ss_coils := m\<rparr>))"
| "SparseRegisterStore_remove s SRT_DiscreteInput address =
    (let (p, m) = ShardedRegisterMap_remove (ss_discrete_inputs s) address in (p \<noteq> None, s\<lparr>ss_discrete_inputs := m\<rparr>))"
| "SparseRegisterStore_remove s SRT_HoldingRegister address =
    (let (p, m) = ShardedRegisterMap_remove (ss_holding_registers s) address in (p \<noteq> None, s\<lparr>ss_holding_registers := m\<rparr>))"
| "SparseRegisterStore_remove s SRT_InputRegister address =
    (let (p, m) = ShardedRegisterMap_remove (ss_input_registers s) address in (p \<noteq> None, s\<lparr>ss_input_registers := m\<rparr>))"


section \<open>Validation\<close>

text \<open>The errors that both stores answer a span outside their range with.\<close>

definition address_error :: "ModbusError \<Rightarrow> bool" where
  "address_error e \<longleftrightarrow> (\<exists>a m. e = ME_InvalidAddress a m \<or> e = ME_InvalidQuantity a m)"

lemma address_error_simps [simp]:
  "address_error (ME_InvalidAddress a m)" "address_error (ME_InvalidQuantity a m)"
  by (auto simp: address_error_def)

definition range_admits :: "AddressRange \<Rightarrow> u16 \<Rightarrow> nat \<Rightarrow> bool" where
  "range_admits r a n \<longleftrightarrow> 1 \<le> n \<and> unat (ar_start r) \<le> unat a \<and> unat a + n \<le> unat (ar_end r) + 1"

lemma span_end:
  assumes "q \<noteq> 0"
  shows "u16_checked_add a (u16_saturating_sub q 1) =
    (if unat a + unat q \<le> 65536 then Some (a + (q - 1)) else None)"
    and "unat a + unat q \<le> 65536 \<Longrightarrow> unat (a + (q - 1)) = unat a + unat q - 1"
proof -
  have q: "1 \<le> q" "0 < unat q" using assms by (simp_all add: word_le_nat_alt Suc_le_eq unat_gt_0)
  then have sub: "unat (q - 1) = unat q - 1" by (simp add: unat_sub)
  show "u16_checked_add a (u16_saturating_sub q 1) =
    (if unat a + unat q \<le> 65536 then Some (a + (q - 1)) else None)"
    using q by (auto simp: u16_checked_add_def u16_saturating_sub_def sub)
  show "unat (a + (q - 1)) = unat a + unat q - 1" if "unat a + unat q \<le> 65536"
    using that q unat_add_u16 [of a "q - 1"] by (simp add: sub)
qed

lemma AddressRange_validate_iff:
  "AddressRange_validate r a q = Ok () \<longleftrightarrow> range_admits r a (unat q)"
  "AddressRange_validate r a q \<noteq> Panic"
proof -
  show "AddressRange_validate r a q \<noteq> Panic"
    by (auto simp: AddressRange_validate_def obind_eq_Panic_iff split: if_splits)
  have top: "unat (ar_end r) \<le> 65535" by (rule unat_u16_le)
  show "AddressRange_validate r a q = Ok () \<longleftrightarrow> range_admits r a (unat q)"
  proof (cases "q = 0")
    case False
    then have "0 < unat q" by (simp add: unat_gt_0)
    then show ?thesis using False span_end [OF False, of a] top
      by (auto simp: AddressRange_validate_def range_admits_def word_less_nat_alt obind_eq_Ok_iff)
  qed (simp add: AddressRange_validate_def range_admits_def)
qed

definition sparse_span :: "SparseRegisterStore \<Rightarrow> SparseRegisterType \<Rightarrow> u16 \<Rightarrow> nat \<Rightarrow> bool" where
  "sparse_span s t a n = range_admits (RegisterStoreConfig_get_range (ss_config s) t) a n"

lemma sparse_validate_Ok: "sparse_span s t a (unat q) \<Longrightarrow> SparseRegisterStore_validate s t a q = Ok ()"
  by (simp add: SparseRegisterStore_validate_def RegisterStoreConfig_validate_range_def sparse_span_def
      AddressRange_validate_iff)

lemma sparse_validate_Err:
  assumes "\<not> sparse_span s t a (unat q)"
  obtains e where "SparseRegisterStore_validate s t a q = Err e" "address_error e"
proof -
  let ?v = "AddressRange_validate (RegisterStoreConfig_get_range (ss_config s) t) a q"
  obtain e where "?v = Err e"
    using assms AddressRange_validate_iff [of "RegisterStoreConfig_get_range (ss_config s) t" a q]
    by (cases ?v) (auto simp: sparse_span_def)
  then show thesis using that
    by (cases e) (simp_all add: SparseRegisterStore_validate_def RegisterStoreConfig_validate_range_def)
qed

lemma sparse_span_fits: "sparse_span s t a n \<Longrightarrow> 1 \<le> n \<and> unat a + n \<le> 65536"
  using unat_u16_less [of "ar_end (RegisterStoreConfig_get_range (ss_config s) t)"]
  by (auto simp: sparse_span_def range_admits_def simp del: unat_u16_less)


section \<open>The effect of the operations\<close>

lemma read_cells_eq:
  assumes "1 \<le> unat q" "unat a + unat q \<le> 65536"
  shows "read_cells m a q d = map (\<lambda>i. read_cell m i d) [unat a..<unat a + unat q]"
proof (cases "q = 1")
  case True
  then show ?thesis by (simp add: read_cells_def read_one_eq read_cell_def)
next
  case False
  then show ?thesis using assms by (simp add: read_cells_def read_range_eq)
qed

lemma notify_read_only_callbacks: "\<exists>cb. notify_read_values s t a q vals = s\<lparr>ss_callbacks := cb\<rparr>"
  by (cases "CallbackManager_has_read_callbacks (ss_callbacks s)")
    (auto simp: notify_read_values_def intro: exI [of _ "ss_callbacks s"])

lemma notify_write_only_callbacks: "\<exists>cb. notify_write_value s t a x y = s\<lparr>ss_callbacks := cb\<rparr>"
  by (auto simp: notify_write_value_def)

lemma sparse_read:
  assumes "sparse_span s t a (unat q)"
  shows "\<exists>cb. obind (SparseRegisterStore_validate s t a q) (\<lambda>_. let dflt = d; result = read_cells m a q dflt
      in Ok (result, notify_read_values s t a q (map f result))) =
    Ok (map (\<lambda>i. read_cell m i d) [unat a..<unat a + unat q], s\<lparr>ss_callbacks := cb\<rparr>)"
  using assms sparse_span_fits [OF assms] notify_read_only_callbacks [of s t a q "map f (read_cells m a q d)"]
  by (auto simp: sparse_validate_Ok read_cells_eq Let_def)

lemma sparse_read_coils:
  "sparse_span s SRT_Coil a (unat q) \<Longrightarrow> \<exists>cb. SparseRegisterStore_read_coils s a q =
    Ok (map (\<lambda>i. read_cell (ss_coils s) i (DefaultValue_get_bool (ss_now s) (rc_default_value (cfg_coils (ss_config s)))))
      [unat a..<unat a + unat q], s\<lparr>ss_callbacks := cb\<rparr>)"
  unfolding SparseRegisterStore_read_coils_def by (rule sparse_read)

lemma sparse_read_discrete_inputs:
  "sparse_span s SRT_DiscreteInput a (unat q) \<Longrightarrow> \<exists>cb. SparseRegisterStore_read_discrete_inputs s a q =
    Ok (map (\<lambda>i. read_cell (ss_discrete_inputs s) i (DefaultValue_get_bool (ss_now s) (rc_default_value (cfg_discrete_inputs (ss_config s)))))
      [unat a..<unat a + unat q], s\<lparr>ss_callbacks := cb\<rparr>)"
  unfolding SparseRegisterStore_read_discrete_inputs_def by (rule sparse_read)

lemma sparse_read_holding_registers:
  "sparse_span s SRT_HoldingRegister a (unat q) \<Longrightarrow> \<exists>cb. SparseRegisterStore_read_holding_registers s a q =
    Ok (map (\<lambda>i. read_cell (ss_holding_registers s) i (DefaultValue_get_word (ss_now s) (rc_default_value (cfg_holding_registers (ss_config s)))))
      [unat a..<unat a + unat q], s\<lparr>ss_callbacks := cb\<rparr>)"
  unfolding SparseRegisterStore_read_holding_registers_def by (rule sparse_read)

lemma sparse_read_input_registers:
  "sparse_span s SRT_InputRegister a (unat q) \<Longrightarrow> \<exists>cb. SparseRegisterStore_read_input_registers s a q =
    Ok (map (\<lambda>i. read_cell (ss_input_registers s) i (DefaultValue_get_word (ss_now s) (rc_default_value (cfg_input_registers (ss_config s)))))
      [unat a..<unat a + unat q], s\<lparr>ss_callbacks := cb\<rparr>)"
  unfolding SparseRegisterStore_read_input_registers_def by (rule sparse_read)

lemma insert_all_one: "insert_all d m (unat a) [v] = snd (ShardedRegisterMap_insert d m a v)"
  by simp

lemma write_coil_loop:
  assumes "unat a + k + length vs \<le> 65536"
  shows "\<exists>cb. ofold (write_coil_notified a) (enumerate k vs) s =
    Ok (s\<lparr>ss_coils := insert_all False (ss_coils s) (unat a + k) vs, ss_callbacks := cb\<rparr>)"
  using assms
proof (induction vs arbitrary: k s)
  case Nil
  then show ?case by (auto intro: exI [of _ "ss_callbacks s"])
next
  case (Cons v vs)
  have k: "unat (as_u16 k) = k" using Cons.prems by (intro unat_as_u16) simp
  then have add: "u16_add a (as_u16 k) = Ok (as_u16 (unat a + k))"
    using Cons.prems by (simp add: u16_add_def)
  obtain p m where pm: "ShardedRegisterMap_insert False (ss_coils s) (as_u16 (unat a + k)) v = (p, m)"
    by (rule prod.exhaust)
  obtain cb where "write_coil_notified a (k, v) s = Ok (s\<lparr>ss_coils := m, ss_callbacks := cb\<rparr>)"
    unfolding write_coil_notified_def fst_conv snd_conv add using pm by (simp add: notify_write_value_def)
  then show ?case
    using Cons.IH [of "Suc k" "s\<lparr>ss_coils := m, ss_callbacks := cb\<rparr>"] Cons.prems pm by simp
qed

lemma write_register_loop:
  assumes "unat a + k + length vs \<le> 65536"
  shows "\<exists>cb. ofold (write_register_notified a) (enumerate k vs) s =
    Ok (s\<lparr>ss_holding_registers := insert_all 0 (ss_holding_registers s) (unat a + k) vs, ss_callbacks := cb\<rparr>)"
  using assms
proof (induction vs arbitrary: k s)
  case Nil
  then show ?case by (auto intro: exI [of _ "ss_callbacks s"])
next
  case (Cons v vs)
  have k: "unat (as_u16 k) = k" using Cons.prems by (intro unat_as_u16) simp
  then have add: "u16_add a (as_u16 k) = Ok (as_u16 (unat a + k))"
    using Cons.prems by (simp add: u16_add_def)
  obtain p m where pm: "ShardedRegisterMap_insert 0 (ss_holding_registers s) (as_u16 (unat a + k)) v = (p, m)"
    by (rule prod.exhaust)
  obtain cb where "write_register_notified a (k, v) s = Ok (s\<lparr>ss_holding_registers := m, ss_callbacks := cb\<rparr>)"
    unfolding write_register_notified_def fst_conv snd_conv add using pm by (simp add: notify_write_value_def)
  then show ?case
    using Cons.IH [of "Suc k" "s\<lparr>ss_holding_registers := m, ss_callbacks := cb\<rparr>"] Cons.prems pm by simp
qed

definition sparse_wf :: "SparseRegisterStore \<Rightarrow> bool" where
  "sparse_wf s \<longleftrightarrow> sh_wf (ss_coils s) \<and> sh_wf (ss_discrete_inputs s) \<and>
     sh_wf (ss_holding_registers s) \<and> sh_wf (ss_input_registers s)"

lemma sparse_wf_shapes:
  "sparse_wf s \<Longrightarrow> sh_shape (ss_coils s) \<and> sh_shape (ss_discrete_inputs s) \<and>
     sh_shape (ss_holding_registers s) \<and> sh_shape (ss_input_registers s)"
  by (simp add: sparse_wf_def sh_wf_def)

lemma wf_populate: "sh_wf m \<Longrightarrow> sh_wf (ShardedRegisterMap_populate_range d m a b f)"
proof -
  assume wf: "sh_wf m"
  have "unat b + 1 \<le> 65536" using unat_u16_le [of b] by simp
  then show ?thesis using wf
    by (simp add: ShardedRegisterMap_populate_range_def populate_loop_insert_all sh_wf_def [of m])
      (simp add: insert_all_wf wf)
qed

lemma wf_insert_entries: "sh_wf m \<Longrightarrow> sh_wf (insert_entries d xs m)"
  unfolding insert_entries_def by (induction xs arbitrary: m) (auto simp: wf_insert)

lemma sparse_wf_initialized: "sparse_wf s \<Longrightarrow> sparse_wf (SparseRegisterStore_apply_initialization clk s)"
  by (auto simp: SparseRegisterStore_apply_initialization_def SparseRegisterStore_initialize_eager_def
      SparseRegisterStore_initialize_pattern_def SparseRegisterStore_load_snapshot_def sparse_wf_def Let_def
      wf_populate wf_insert_entries split: InitializationMode.split)

lemma sparse_wf_new: "sparse_wf (SparseRegisterStore_new clk now config)"
  unfolding SparseRegisterStore_new_def
  by (rule sparse_wf_initialized) (simp add: sparse_wf_def wf_new)

lemma sparse_write_coils:
  assumes "sparse_wf s" "sparse_span s SRT_Coil a (length vs)" "length vs \<le> 65535"
  shows "\<exists>cb. SparseRegisterStore_write_coils s a vs =
    Ok (s\<lparr>ss_coils := insert_all False (ss_coils s) (unat a) vs, ss_callbacks := cb\<rparr>)"
proof -
  have "SparseRegisterStore_validate s SRT_Coil a (as_u16 (length vs)) = Ok ()"
    using assms(2,3) by (simp add: sparse_validate_Ok unat_as_u16)
  then show ?thesis
    using write_coil_loop [of a 0 vs s] sparse_span_fits [OF assms(2)] sparse_wf_shapes [OF assms(1)]
    by (auto simp: SparseRegisterStore_write_coils_def write_range_eq intro: exI [of _ "ss_callbacks s"])
qed

lemma sparse_write_holding_registers:
  assumes "sparse_wf s" "sparse_span s SRT_HoldingRegister a (length vs)" "length vs \<le> 65535"
  shows "\<exists>cb. SparseRegisterStore_write_holding_registers s a vs =
    Ok (s\<lparr>ss_holding_registers := insert_all 0 (ss_holding_registers s) (unat a) vs, ss_callbacks := cb\<rparr>)"
proof -
  have "SparseRegisterStore_validate s SRT_HoldingRegister a (as_u16 (length vs)) = Ok ()"
    using assms(2,3) by (simp add: sparse_validate_Ok unat_as_u16)
  then show ?thesis
    using write_register_loop [of a 0 vs s] sparse_span_fits [OF assms(2)] sparse_wf_shapes [OF assms(1)]
    by (auto simp: SparseRegisterStore_write_holding_registers_def write_range_eq intro: exI [of _ "ss_callbacks s"])
qed

lemma sparse_write_coil:
  assumes "sparse_span s SRT_Coil a 1"
  shows "\<exists>cb. SparseRegisterStore_write_coil s a v =
    Ok (s\<lparr>ss_coils := insert_all False (ss_coils s) (unat a) [v], ss_callbacks := cb\<rparr>)"
proof -
  have "SparseRegisterStore_validate s SRT_Coil a 1 = Ok ()" using assms by (simp add: sparse_validate_Ok)
  then show ?thesis
    by (auto simp: SparseRegisterStore_write_coil_def notify_write_value_def case_prod_beta Let_def
        intro: exI [of _ "ss_callbacks s"])
qed

lemma sparse_write_holding_register:
  assumes "sparse_span s SRT_HoldingRegister a 1"
  shows "\<exists>cb. SparseRegisterStore_write_holding_register s a v =
    Ok (s\<lparr>ss_holding_registers := insert_all 0 (ss_holding_registers s) (unat a) [v], ss_callbacks := cb\<rparr>)"
proof -
  have "SparseRegisterStore_validate s SRT_HoldingRegister a 1 = Ok ()" using assms by (simp add: sparse_validate_Ok)
  then show ?thesis
    by (auto simp: SparseRegisterStore_write_holding_register_def notify_write_value_def case_prod_beta Let_def
        intro: exI [of _ "ss_callbacks s"])
qed

lemma sparse_set_one:
  "sparse_span s SRT_DiscreteInput a 1 \<Longrightarrow> SparseRegisterStore_set_discrete_input s a b =
    Ok (s\<lparr>ss_discrete_inputs := insert_all False (ss_discrete_inputs s) (unat a) [b]\<rparr>)"
  "sparse_span s SRT_InputRegister a 1 \<Longrightarrow> SparseRegisterStore_set_input_register s a w =
    Ok (s\<lparr>ss_input_registers := insert_all 0 (ss_input_registers s) (unat a) [w]\<rparr>)"
  by (simp_all add: SparseRegisterStore_set_discrete_input_def SparseRegisterStore_set_input_register_def
      sparse_validate_Ok)

lemma sparse_set_input_registers:
  "sparse_wf s \<Longrightarrow> sparse_span s SRT_InputRegister a (length vs) \<Longrightarrow> length vs \<le> 65535 \<Longrightarrow>
   SparseRegisterStore_set_input_registers s a vs =
    Ok (s\<lparr>ss_input_registers := insert_all 0 (ss_input_registers s) (unat a) vs\<rparr>)"
  using sparse_span_fits [of s SRT_InputRegister a "length vs"] sparse_wf_shapes [of s]
  by (simp add: SparseRegisterStore_set_input_registers_def sparse_validate_Ok unat_as_u16 write_range_eq)

text \<open>What a rejected span leaves: the error, before anything is read or written.\<close>

lemma sparse_rejects:
  assumes "\<not> sparse_span s t a (unat q)"
  shows "\<exists>e. obind (SparseRegisterStore_validate s t a q) f = Err e \<and> address_error e"
  using assms by (rule sparse_validate_Err) auto


section \<open>The order of callbacks\<close>

definition by_priority :: "CallbackEntry list \<Rightarrow> CallbackEntry list" where
  "by_priority es = filter (\<lambda>e. ce_priority e = CP_High) es @ filter (\<lambda>e. ce_priority e = CP_Normal) es @
     filter (\<lambda>e. ce_priority e = CP_Low) es"

lemma insort_key_append:
  "(\<And>y. y \<in> set ys \<Longrightarrow> f y < f x) \<Longrightarrow> insort_key f x (ys @ zs) = ys @ insort_key f x zs"
  by (induction ys) fastforce+

lemma insort_key_first: "(\<And>y. y \<in> set ys \<Longrightarrow> f x \<le> f y) \<Longrightarrow> insort_key f x ys = x # ys"
  by (cases ys) simp_all

lemma rank_le: "CallbackPriority_rank p \<le> 100"
  by (cases p) simp_all

lemma sort_callbacks_eq: "sort_callbacks es = by_priority es"
proof (induction es)
  case (Cons e es)
  let ?f = "\<lambda>e. 100 - CallbackPriority_rank (ce_priority e)"
  let ?H = "filter (\<lambda>e. ce_priority e = CP_High) es" and ?N = "filter (\<lambda>e. ce_priority e = CP_Normal) es"
    and ?L = "filter (\<lambda>e. ce_priority e = CP_Low) es"
  have sort: "sort_callbacks (e # es) = insort_key ?f e (?H @ ?N @ ?L)"
    using Cons.IH by (simp add: sort_callbacks_def by_priority_def)
  show ?case
  proof (cases "ce_priority e")
    case CP_High
    then have "insort_key ?f e (?H @ ?N @ ?L) = e # ?H @ ?N @ ?L" by (intro insort_key_first) simp
    then show ?thesis using sort CP_High by (simp add: by_priority_def)
  next
    case CP_Normal
    then have "insort_key ?f e (?H @ ?N @ ?L) = ?H @ insort_key ?f e (?N @ ?L)" by (intro insort_key_append) auto
    also have "insort_key ?f e (?N @ ?L) = e # ?N @ ?L" using CP_Normal by (intro insort_key_first) auto
    finally show ?thesis using sort CP_Normal by (simp add: by_priority_def)
  next
    case CP_Low
    then have "insort_key ?f e ((?H @ ?N) @ ?L) = (?H @ ?N) @ insort_key ?f e ?L"
      by (intro insort_key_append) auto
    also have "insort_key ?f e ?L = e # ?L" using CP_Low by (intro insort_key_first) auto
    finally have "insort_key ?f e ((?H @ ?N) @ ?L) = ?H @ ?N @ e # ?L" by simp
    then show ?thesis using sort CP_Low by (simp add: by_priority_def)
  qed
qed (simp add: sort_callbacks_def by_priority_def)

lemma by_priority_again: "by_priority (by_priority es @ [e]) = by_priority (es @ [e])"
  by (simp add: by_priority_def)

lemma add_write_callbacks:
  "fold (\<lambda>e cm. CallbackManager_add_write_callback cm e) es cm =
    (if es = [] then cm else cm\<lparr>cm_write_callbacks := by_priority (cm_write_callbacks cm @ es),
       cm_write_callback_count := length (cm_write_callbacks cm) + length es\<rparr>)"
proof (induction es rule: rev_induct)
  case (snoc e es)
  have len: "length (by_priority xs) = length xs" for xs :: "CallbackEntry list"
    by (metis length_sort sort_callbacks_def sort_callbacks_eq)
  show ?case using snoc len by_priority_again [of "cm_write_callbacks cm @ es" e]
    by (auto simp: CallbackManager_add_write_callback_def sort_callbacks_eq Let_def)
qed simp


section \<open>Properties of the sparse store\<close>

text \<open>After any sequence of registrations, a write is reported to every registered callback exactly
  once, all of high priority first, then normal, then low, and within one priority in the order of
  registration; with callbacks disabled nothing is reported.\<close>
theorem write_callbacks_in_priority_order:
  "cm_log (CallbackManager_notify_write
      (CallbackManager_set_enabled (fold (\<lambda>e cm. CallbackManager_add_write_callback cm e) es CallbackManager_new) on)
      ctx) =
    (if on then map (\<lambda>e. OnWrite (ce_id e) ctx)
       (filter (\<lambda>e. ce_priority e = CP_High) es @ filter (\<lambda>e. ce_priority e = CP_Normal) es @
        filter (\<lambda>e. ce_priority e = CP_Low) es)
     else [])"
  by (auto simp: add_write_callbacks CallbackManager_new_def CallbackManager_set_enabled_def
      CallbackManager_notify_write_def CallbackManager_has_write_callbacks_def by_priority_def)

text \<open>A register type that the configuration disables is still served: the range of a disabled type is
  address 0 alone, and neither reads nor writes look at the flag.\<close>
theorem disabled_registers_still_served:
  assumes "sparse_wf s" "cfg_holding_registers (ss_config s) = RegisterRangeConfig_disabled"
  shows "\<exists>s'. SparseRegisterStore_write_holding_register s 0 v = Ok s' \<and>
    (\<exists>s''. SparseRegisterStore_read_holding_registers s' 0 1 = Ok ([v], s''))"
proof -
  have sh: "sh_shape (ss_holding_registers s)" using sparse_wf_shapes [OF assms(1)] by simp
  have span: "sparse_span s SRT_HoldingRegister 0 1"
    by (simp add: sparse_span_def range_admits_def RegisterStoreConfig_get_range_def assms(2)
        RegisterRangeConfig_disabled_def)
  obtain cb where w: "SparseRegisterStore_write_holding_register s 0 v =
      Ok (s\<lparr>ss_holding_registers := insert_all 0 (ss_holding_registers s) 0 [v], ss_callbacks := cb\<rparr>)"
    using sparse_write_holding_register [OF span, of v] by auto
  let ?s = "s\<lparr>ss_holding_registers := insert_all 0 (ss_holding_registers s) 0 [v], ss_callbacks := cb\<rparr>"
  have "sparse_span ?s SRT_HoldingRegister 0 (unat (1 :: u16))" using span by (simp add: sparse_span_def)
  from sparse_read_holding_registers [OF this]
  have "\<exists>s''. SparseRegisterStore_read_holding_registers ?s 0 1 = Ok ([v], s'')"
    by (auto simp: read_cell_def lookup_insert [OF sh])
  with w show ?thesis by blast
qed

theorem disabled_registers_still_served_witness:
  "\<exists>s'. SparseRegisterStore_write_holding_register (SparseRegisterStore_new (\<lambda>_. 0) 0
      ((RegisterStoreConfig_new \<lparr>ar_start = 0, ar_end = 9\<rparr> \<lparr>ar_start = 0, ar_end = 9\<rparr>
        \<lparr>ar_start = 0, ar_end = 9\<rparr> \<lparr>ar_start = 0, ar_end = 9\<rparr>)
        \<lparr>cfg_holding_registers := RegisterRangeConfig_disabled\<rparr>)) 0 5 = Ok s'"
  using disabled_registers_still_served [of "SparseRegisterStore_new (\<lambda>_. 0) 0
      ((RegisterStoreConfig_new \<lparr>ar_start = 0, ar_end = 9\<rparr> \<lparr>ar_start = 0, ar_end = 9\<rparr>
        \<lparr>ar_start = 0, ar_end = 9\<rparr> \<lparr>ar_start = 0, ar_end = 9\<rparr>)
        \<lparr>cfg_holding_registers := RegisterRangeConfig_disabled\<rparr>)" 5, OF sparse_wf_new]
  by (auto simp: SparseRegisterStore_new_def SparseRegisterStore_apply_initialization_def
      RegisterStoreConfig_new_def)

end
