(* ===== verification/Modbus_Space.thy ===== *)
theory Modbus_Space
  imports Modbus_Sparse
begin

text \<open>
  The register space interface, \<^verbatim>\<open>mabi-modbus/src/context.rs\<close>: the trait \<^verbatim>\<open>AddressSpace\<close> as a
  record of operations, its default mask write, and its two implementations. The locale
  \<open>address_space\<close> is the contract that the semantic core relies on; it is interpreted on the
  dense and on the sparse store.
\<close>

section \<open>The trait\<close>

record 's AddressSpace =
  as_count :: "'s \<Rightarrow> RegisterType \<Rightarrow> u16"
  as_read_coils :: "'s \<Rightarrow> u16 \<Rightarrow> u16 \<Rightarrow> (ModbusError, bool list \<times> 's) outcome"
  as_write_coil :: "'s \<Rightarrow> u16 \<Rightarrow> bool \<Rightarrow> (ModbusError, 's) outcome"
  as_write_coils :: "'s \<Rightarrow> u16 \<Rightarrow> bool list \<Rightarrow> (ModbusError, 's) outcome"
  as_read_discrete_inputs :: "'s \<Rightarrow> u16 \<Rightarrow> u16 \<Rightarrow> (ModbusError, bool list \<times> 's) outcome"
  as_set_discrete_input :: "'s \<Rightarrow> u16 \<Rightarrow> bool \<Rightarrow> (ModbusError, 's) outcome"
  as_read_holding_registers :: "'s \<Rightarrow> u16 \<Rightarrow> u16 \<Rightarrow> (ModbusError, u16 list \<times> 's) outcome"
  as_write_holding_register :: "'s \<Rightarrow> u16 \<Rightarrow> u16 \<Rightarrow> (ModbusError, 's) outcome"
  as_write_holding_registers :: "'s \<Rightarrow> u16 \<Rightarrow> u16 list \<Rightarrow> (ModbusError, 's) outcome"
  as_read_input_registers :: "'s \<Rightarrow> u16 \<Rightarrow> u16 \<Rightarrow> (ModbusError, u16 list \<times> 's) outcome"
  as_set_input_register :: "'s \<Rightarrow> u16 \<Rightarrow> u16 \<Rightarrow> (ModbusError, 's) outcome"
  as_set_input_registers :: "'s \<Rightarrow> u16 \<Rightarrow> u16 list \<Rightarrow> (ModbusError, 's) outcome"
  as_mask_write_holding_register :: "'s \<Rightarrow> u16 \<Rightarrow> u16 \<Rightarrow> u16 \<Rightarrow> (ModbusError, 's) outcome"

definition mask_word :: "u16 \<Rightarrow> u16 \<Rightarrow> u16 \<Rightarrow> u16" where
  "mask_word current and_mask or_mask = (current AND and_mask) OR (or_mask AND NOT and_mask)"

definition default_mask_write_holding_register ::
  "('s \<Rightarrow> u16 \<Rightarrow> u16 \<Rightarrow> (ModbusError, u16 list \<times> 's) outcome) \<Rightarrow>
   ('s \<Rightarrow> u16 \<Rightarrow> u16 \<Rightarrow> (ModbusError, 's) outcome) \<Rightarrow>
   's \<Rightarrow> u16 \<Rightarrow> u16 \<Rightarrow> u16 \<Rightarrow> (ModbusError, 's) outcome" where
  "default_mask_write_holding_register read_registers write_register s address and_mask or_mask =
     obind (read_registers s address 1) (\<lambda>(vs, s).
     obind (idx vs 0) (\<lambda>current. write_register s address (mask_word current and_mask or_mask)))"

text \<open>A read of the dense store changes nothing.\<close>

definition pure_read :: "('s \<Rightarrow> u16 \<Rightarrow> u16 \<Rightarrow> (ModbusError, 'a) outcome) \<Rightarrow> 's \<Rightarrow> u16 \<Rightarrow> u16 \<Rightarrow> (ModbusError, 'a \<times> 's) outcome" where
  "pure_read f s a q = obind (f s a q) (\<lambda>x. Ok (x, s))"

definition RegisterStore_AddressSpace :: "RegisterStore AddressSpace" where
  "RegisterStore_AddressSpace = \<lparr>
     as_count = RegisterStore_count,
     as_read_coils = pure_read RegisterStore_read_coils,
     as_write_coil = RegisterStore_write_coil,
     as_write_coils = RegisterStore_write_coils,
     as_read_discrete_inputs = pure_read RegisterStore_read_discrete_inputs,
     as_set_discrete_input = RegisterStore_set_discrete_input,
     as_read_holding_registers = pure_read RegisterStore_read_holding_registers,
     as_write_holding_register = RegisterStore_write_holding_register,
     as_write_holding_registers = RegisterStore_write_holding_registers,
     as_read_input_registers = pure_read RegisterStore_read_input_registers,
     as_set_input_register = RegisterStore_set_input_register,
     as_set_input_registers = RegisterStore_set_input_registers,
     as_mask_write_holding_register = (\<lambda>s a m n.
       obind (RegisterStore_mask_write_holding_register s a m n) (\<lambda>(_, s). Ok s))\<rparr>"

fun sparse_register_type :: "RegisterType \<Rightarrow> SparseRegisterType" where
  "sparse_register_type RT_Coil = SRT_Coil"
| "sparse_register_type RT_DiscreteInput = SRT_DiscreteInput"
| "sparse_register_type RT_HoldingRegister = SRT_HoldingRegister"
| "sparse_register_type RT_InputRegister = SRT_InputRegister"

definition sparse_space_count :: "SparseRegisterStore \<Rightarrow> RegisterType \<Rightarrow> u16" where
  "sparse_space_count s reg_type =
    (let r = RegisterStoreConfig_get_range (ss_config s) (sparse_register_type reg_type)
     in u16_saturating_add (u16_saturating_sub (ar_end r) (ar_start r)) 1)"

definition SparseRegisterStore_AddressSpace :: "SparseRegisterStore AddressSpace" where
  "SparseRegisterStore_AddressSpace = \<lparr>
     as_count = sparse_space_count,
     as_read_coils = SparseRegisterStore_read_coils,
     as_write_coil = SparseRegisterStore_write_coil,
     as_write_coils = SparseRegisterStore_write_coils,
     as_read_discrete_inputs = SparseRegisterStore_read_discrete_inputs,
     as_set_discrete_input = SparseRegisterStore_set_discrete_input,
     as_read_holding_registers = SparseRegisterStore_read_holding_registers,
     as_write_holding_register = SparseRegisterStore_write_holding_register,
     as_write_holding_registers = SparseRegisterStore_write_holding_registers,
     as_read_input_registers = SparseRegisterStore_read_input_registers,
     as_set_input_register = SparseRegisterStore_set_input_register,
     as_set_input_registers = SparseRegisterStore_set_input_registers,
     as_mask_write_holding_register =
       default_mask_write_holding_register SparseRegisterStore_read_holding_registers
         SparseRegisterStore_write_holding_register\<rparr>"


section \<open>The contract\<close>

text \<open>
  What a store holds, as four total functions; \<open>admits\<close> says which spans a store serves. A span
  read returns the cells and changes nothing that can be observed through the interface; a span
  write replaces exactly its cells; a span that is not admitted is rejected with an address error.
  No request reads or writes more than 2000 cells.
\<close>

record space_view =
  v_coils :: "nat \<Rightarrow> bool"
  v_discrete_inputs :: "nat \<Rightarrow> bool"
  v_holding_registers :: "nat \<Rightarrow> u16"
  v_input_registers :: "nat \<Rightarrow> u16"

definition cells_replaced :: "(nat \<Rightarrow> 'a) \<Rightarrow> nat \<Rightarrow> 'a list \<Rightarrow> nat \<Rightarrow> 'a" where
  "cells_replaced f a vs = (\<lambda>i. if a \<le> i \<and> i < a + length vs then vs ! (i - a) else f i)"

definition rejects :: "(ModbusError, 'a) outcome \<Rightarrow> bool" where
  "rejects m \<longleftrightarrow> (\<exists>e. m = Err e \<and> address_error e)"

definition reads_cells ::
  "('s \<Rightarrow> bool) \<Rightarrow> ('s \<Rightarrow> space_view) \<Rightarrow> ('s \<Rightarrow> RegisterType \<Rightarrow> u16 \<Rightarrow> nat \<Rightarrow> bool) \<Rightarrow> RegisterType \<Rightarrow>
   (space_view \<Rightarrow> nat \<Rightarrow> 'a) \<Rightarrow> ('s \<Rightarrow> u16 \<Rightarrow> u16 \<Rightarrow> (ModbusError, 'a list \<times> 's) outcome) \<Rightarrow> bool" where
  "reads_cells good view admits t sel op \<longleftrightarrow> (\<forall>s a q. good s \<and> unat q \<le> 2000 \<longrightarrow>
    (if admits s t a (unat q)
     then \<exists>s'. op s a q = Ok (map (sel (view s)) [unat a..<unat a + unat q], s') \<and> good s' \<and>
        view s' = view s \<and> admits s' = admits s
     else rejects (op s a q)))"

definition writes_cells ::
  "('s \<Rightarrow> bool) \<Rightarrow> ('s \<Rightarrow> space_view) \<Rightarrow> ('s \<Rightarrow> RegisterType \<Rightarrow> u16 \<Rightarrow> nat \<Rightarrow> bool) \<Rightarrow> RegisterType \<Rightarrow>
   (((nat \<Rightarrow> 'a) \<Rightarrow> nat \<Rightarrow> 'a) \<Rightarrow> space_view \<Rightarrow> space_view) \<Rightarrow>
   ('s \<Rightarrow> u16 \<Rightarrow> 'a list \<Rightarrow> (ModbusError, 's) outcome) \<Rightarrow> bool" where
  "writes_cells good view admits t upd op \<longleftrightarrow> (\<forall>s a vs. good s \<and> length vs \<le> 2000 \<longrightarrow>
    (if admits s t a (length vs)
     then \<exists>s'. op s a vs = Ok s' \<and> good s' \<and> admits s' = admits s \<and>
        view s' = upd (\<lambda>f. cells_replaced f (unat a) vs) (view s)
     else rejects (op s a vs)))"

definition writes_cell ::
  "('s \<Rightarrow> bool) \<Rightarrow> ('s \<Rightarrow> space_view) \<Rightarrow> ('s \<Rightarrow> RegisterType \<Rightarrow> u16 \<Rightarrow> nat \<Rightarrow> bool) \<Rightarrow> RegisterType \<Rightarrow>
   (((nat \<Rightarrow> 'a) \<Rightarrow> nat \<Rightarrow> 'a) \<Rightarrow> space_view \<Rightarrow> space_view) \<Rightarrow>
   ('s \<Rightarrow> u16 \<Rightarrow> 'a \<Rightarrow> (ModbusError, 's) outcome) \<Rightarrow> bool" where
  "writes_cell good view admits t upd op \<longleftrightarrow> (\<forall>s a v. good s \<longrightarrow>
    (if admits s t a 1
     then \<exists>s'. op s a v = Ok s' \<and> good s' \<and> admits s' = admits s \<and>
        view s' = upd (\<lambda>f. f(unat a := v)) (view s)
     else rejects (op s a v)))"

definition masks_cell ::
  "('s \<Rightarrow> bool) \<Rightarrow> ('s \<Rightarrow> space_view) \<Rightarrow> ('s \<Rightarrow> RegisterType \<Rightarrow> u16 \<Rightarrow> nat \<Rightarrow> bool) \<Rightarrow>
   ('s \<Rightarrow> u16 \<Rightarrow> u16 \<Rightarrow> u16 \<Rightarrow> (ModbusError, 's) outcome) \<Rightarrow> bool" where
  "masks_cell good view admits op \<longleftrightarrow> (\<forall>s a m n. good s \<longrightarrow>
    (if admits s RT_HoldingRegister a 1
     then \<exists>s'. op s a m n = Ok s' \<and> good s' \<and> admits s' = admits s \<and>
        view s' = v_holding_registers_update (\<lambda>f. f(unat a := mask_word (f (unat a)) m n)) (view s)
     else rejects (op s a m n)))"

locale register_space =
  fixes ops :: "'s AddressSpace"
    and good :: "'s \<Rightarrow> bool"
    and view :: "'s \<Rightarrow> space_view"
    and admits :: "'s \<Rightarrow> RegisterType \<Rightarrow> u16 \<Rightarrow> nat \<Rightarrow> bool"
  assumes read_coils: "reads_cells good view admits RT_Coil v_coils (as_read_coils ops)"
    and write_coil: "writes_cell good view admits RT_Coil v_coils_update (as_write_coil ops)"
    and write_coils: "writes_cells good view admits RT_Coil v_coils_update (as_write_coils ops)"
    and read_discrete: "reads_cells good view admits RT_DiscreteInput v_discrete_inputs (as_read_discrete_inputs ops)"
    and set_discrete: "writes_cell good view admits RT_DiscreteInput v_discrete_inputs_update (as_set_discrete_input ops)"
    and read_holding:
      "reads_cells good view admits RT_HoldingRegister v_holding_registers (as_read_holding_registers ops)"
    and write_holding:
      "writes_cell good view admits RT_HoldingRegister v_holding_registers_update (as_write_holding_register ops)"
    and write_holdings:
      "writes_cells good view admits RT_HoldingRegister v_holding_registers_update (as_write_holding_registers ops)"
    and read_input: "reads_cells good view admits RT_InputRegister v_input_registers (as_read_input_registers ops)"
    and set_input: "writes_cell good view admits RT_InputRegister v_input_registers_update (as_set_input_register ops)"
    and set_inputs: "writes_cells good view admits RT_InputRegister v_input_registers_update (as_set_input_registers ops)"
begin

lemma default_mask_write:
  "masks_cell good view admits (default_mask_write_holding_register (as_read_holding_registers ops) (as_write_holding_register ops))"
  unfolding masks_cell_def
proof (intro allI impI)
  fix s a m n
  assume good: "good s"
  let ?op = "default_mask_write_holding_register (as_read_holding_registers ops) (as_write_holding_register ops)"
  note read = read_holding [unfolded reads_cells_def, rule_format, of s 1 a]
  show "if admits s RT_HoldingRegister a 1
     then \<exists>s'. ?op s a m n = Ok s' \<and> good s' \<and> admits s' = admits s \<and>
        view s' = v_holding_registers_update (\<lambda>f. f(unat a := mask_word (f (unat a)) m n)) (view s)
     else rejects (?op s a m n)"
  proof (cases "admits s RT_HoldingRegister a 1")
    case True
    then obtain s1 where s1: "as_read_holding_registers ops s a 1 = Ok ([v_holding_registers (view s) (unat a)], s1)"
      "good s1" "view s1 = view s" "admits s1 = admits s"
      using read good by auto
    then show ?thesis
      using write_holding [unfolded writes_cell_def, rule_format, of s1 a "mask_word (v_holding_registers (view s) (unat a)) m n"]
        True by (auto simp: default_mask_write_holding_register_def idx_def)
  next
    case False
    then show ?thesis using read good by (auto simp: rejects_def default_mask_write_holding_register_def)
  qed
qed

end

locale address_space = register_space +
  assumes mask_write: "masks_cell good view admits (as_mask_write_holding_register ops)"


section \<open>The dense store keeps the contract\<close>

text \<open>
  The bounds check of the dense store overflows near the end of the address space, so the
  contract holds for stores of at most 63536 registers of each type: a span of 2000 then ends
  below 65536. The default size is 10000.
\<close>

definition cell_of :: "'a \<Rightarrow> 'a list \<Rightarrow> nat \<Rightarrow> 'a" where
  "cell_of d xs i = (if i < length xs then xs ! i else d)"

definition dense_good :: "RegisterStore \<Rightarrow> bool" where
  "dense_good s \<longleftrightarrow> store_wf s \<and>
     (\<forall>t. 1 \<le> unat (RegisterStore_count s t) \<and> unat (RegisterStore_count s t) \<le> 63536)"

definition dense_view :: "RegisterStore \<Rightarrow> space_view" where
  "dense_view s = \<lparr>v_coils = cell_of False (rs_coils s), v_discrete_inputs = cell_of False (rs_discrete_inputs s),
     v_holding_registers = cell_of 0 (rs_holding_registers s), v_input_registers = cell_of 0 (rs_input_registers s)\<rparr>"

definition dense_admits :: "RegisterStore \<Rightarrow> RegisterType \<Rightarrow> u16 \<Rightarrow> nat \<Rightarrow> bool" where
  "dense_admits s t a n \<longleftrightarrow> 1 \<le> n \<and> unat a + n \<le> unat (RegisterStore_count s t)"

lemma dense_validate_Ok: "dense_admits s t a (unat q) \<Longrightarrow> RegisterStore_validate s t a q = Ok ()"
  by (simp add: dense_admits_def RegisterStore_validate_Ok_iff)

lemma dense_validate_rejects:
  assumes "dense_good s" "unat q \<le> 2000" "\<not> dense_admits s t a (unat q)"
  shows "rejects (obind (RegisterStore_validate s t a q) f)"
proof -
  let ?m = "RegisterStore_count s t"
  have m: "1 \<le> unat ?m" "unat ?m \<le> 63536" using assms(1) by (auto simp: dense_good_def)
  then have "?m \<noteq> 0" by auto
  have q: "q = 0 \<longleftrightarrow> unat q = 0" by (simp add: unat_eq_0)
  show ?thesis using assms(2,3) m \<open>?m \<noteq> 0\<close> q
    by (auto simp: rejects_def RegisterStore_validate_eq Let_def dense_admits_def)
qed

lemma map_cell_of: "a + n \<le> length xs \<Longrightarrow> map (cell_of d xs) [a..<a + n] = take n (drop a xs)"
  by (intro nth_equalityI) (simp_all add: cell_of_def)

lemma cell_of_overwrite:
  "a + length vs \<le> length xs \<Longrightarrow> cell_of d (overwrite xs a vs) = cells_replaced (cell_of d xs) a vs"
  by (rule ext) (auto simp: cell_of_def cells_replaced_def nth_overwrite)

lemma cell_of_update: "a < length xs \<Longrightarrow> cell_of d (xs[a := v]) = (cell_of d xs)(a := v)"
  by (rule ext) (auto simp: cell_of_def nth_list_update)

lemma dense_reads:
  assumes "\<And>s a q. op s a q = obind (RegisterStore_validate s t a q) (\<lambda>_. read_span (fld s) a q)"
    and "\<And>s. dense_good s \<Longrightarrow> length (fld s) = unat (RegisterStore_count s t)"
    and "\<And>s. sel (dense_view s) = cell_of d (fld s)"
  shows "reads_cells dense_good dense_view dense_admits t sel (pure_read op)"
  unfolding reads_cells_def
proof (intro allI impI)
  fix s and a q :: u16
  assume good: "dense_good s \<and> unat q \<le> 2000"
  show "if dense_admits s t a (unat q)
     then \<exists>s'. pure_read op s a q = Ok (map (sel (dense_view s)) [unat a..<unat a + unat q], s') \<and>
        dense_good s' \<and> dense_view s' = dense_view s \<and> dense_admits s' = dense_admits s
     else rejects (pure_read op s a q)"
  proof (cases "dense_admits s t a (unat q)")
    case True
    then have "unat a + unat q \<le> length (fld s)" using assms(2) good by (simp add: dense_admits_def)
    then show ?thesis using True good
      by (simp add: pure_read_def assms(1,3) dense_validate_Ok read_span_Ok map_cell_of)
  next
    case False
    then show ?thesis using good by (simp add: pure_read_def assms(1) obind_assoc dense_validate_rejects)
  qed
qed

lemma dense_writes:
  assumes "\<And>s a vs. op s a vs = obind (RegisterStore_validate s t a (as_u16 (length vs))) (\<lambda>_.
      obind (write_span (fld s) a vs) (\<lambda>xs. Ok (put xs s)))"
    and "\<And>s. dense_good s \<Longrightarrow> length (fld s) = unat (RegisterStore_count s t)"
    and "\<And>s xs. dense_good s \<Longrightarrow> length xs = length (fld s) \<Longrightarrow> dense_good (put xs s) \<and>
      dense_admits (put xs s) = dense_admits s \<and> dense_view (put xs s) = upd (\<lambda>_. cell_of d xs) (dense_view s)"
    and "\<And>s h. upd (\<lambda>f. h (cell_of d (fld s))) (dense_view s) = upd (\<lambda>f. h f) (dense_view s)"
  shows "writes_cells dense_good dense_view dense_admits t upd op"
  unfolding writes_cells_def
proof (intro allI impI)
  fix s and a :: u16 and vs :: "'a list"
  assume good: "dense_good s \<and> length vs \<le> 2000"
  then have n: "unat (as_u16 (length vs)) = length vs" by (intro unat_as_u16) simp
  show "if dense_admits s t a (length vs)
     then \<exists>s'. op s a vs = Ok s' \<and> dense_good s' \<and> dense_admits s' = dense_admits s \<and>
        dense_view s' = upd (\<lambda>f. cells_replaced f (unat a) vs) (dense_view s)
     else rejects (op s a vs)"
  proof (cases "dense_admits s t a (length vs)")
    case True
    then have fits: "unat a + length vs \<le> length (fld s)" using assms(2) good by (simp add: dense_admits_def)
    let ?xs = "overwrite (fld s) (unat a) vs"
    have "op s a vs = Ok (put ?xs s)"
      using True n fits by (simp add: assms(1) dense_validate_Ok write_span_Ok)
    then show ?thesis using True good fits assms(3) [of s ?xs] assms(4) [of "\<lambda>f. cells_replaced f (unat a) vs" s]
      by (simp add: cell_of_overwrite)
  next
    case False
    then show ?thesis using dense_validate_rejects [of s "as_u16 (length vs)" t a] good n by (simp add: assms(1))
  qed
qed

lemma dense_writes_one:
  assumes "\<And>s a v. op s a v = obind (RegisterStore_validate s t a 1) (\<lambda>_.
      obind (set_at (fld s) (unat a) v) (\<lambda>xs. Ok (put xs s)))"
    and "\<And>s. dense_good s \<Longrightarrow> length (fld s) = unat (RegisterStore_count s t)"
    and "\<And>s xs. dense_good s \<Longrightarrow> length xs = length (fld s) \<Longrightarrow> dense_good (put xs s) \<and>
      dense_admits (put xs s) = dense_admits s \<and> dense_view (put xs s) = upd (\<lambda>_. cell_of d xs) (dense_view s)"
    and "\<And>s h. upd (\<lambda>f. h (cell_of d (fld s))) (dense_view s) = upd (\<lambda>f. h f) (dense_view s)"
  shows "writes_cell dense_good dense_view dense_admits t upd op"
  unfolding writes_cell_def
proof (intro allI impI)
  fix s a v
  assume good: "dense_good s"
  show "if dense_admits s t a 1
     then \<exists>s'. op s a v = Ok s' \<and> dense_good s' \<and> dense_admits s' = dense_admits s \<and>
        dense_view s' = upd (\<lambda>f. f(unat a := v)) (dense_view s)
     else rejects (op s a v)"
  proof (cases "dense_admits s t a 1")
    case True
    then have fits: "unat a < length (fld s)" using assms(2) good by (simp add: dense_admits_def)
    let ?xs = "(fld s)[unat a := v]"
    have "op s a v = Ok (put ?xs s)"
      using True fits by (simp add: assms(1) dense_validate_Ok set_at_def)
    then show ?thesis using True good fits assms(3) [of s ?xs] assms(4) [of "\<lambda>f. f(unat a := v)" s]
      by (simp add: cell_of_update)
  next
    case False
    then show ?thesis using dense_validate_rejects [of s 1 t a] good by (simp add: assms(1))
  qed
qed

lemmas dense_defs = dense_good_def store_wf_def dense_view_def dense_admits_def

lemma RegisterStore_count_update [simp]:
  "RegisterStore_count (s\<lparr>rs_coils := b\<rparr>) t = RegisterStore_count s t"
  "RegisterStore_count (s\<lparr>rs_discrete_inputs := b\<rparr>) t = RegisterStore_count s t"
  "RegisterStore_count (s\<lparr>rs_holding_registers := w\<rparr>) t = RegisterStore_count s t"
  "RegisterStore_count (s\<lparr>rs_input_registers := w\<rparr>) t = RegisterStore_count s t"
  by (cases t; simp)+

interpretation dense_registers: register_space RegisterStore_AddressSpace dense_good dense_view dense_admits
proof
  show "reads_cells dense_good dense_view dense_admits RT_Coil v_coils (as_read_coils RegisterStore_AddressSpace)"
    unfolding RegisterStore_AddressSpace_def AddressSpace.simps
    by (rule dense_reads [where fld = rs_coils and d = False])
      (auto simp: RegisterStore_read_coils_def dense_defs)
  show "writes_cell dense_good dense_view dense_admits RT_Coil v_coils_update (as_write_coil RegisterStore_AddressSpace)"
    unfolding RegisterStore_AddressSpace_def AddressSpace.simps
    by (rule dense_writes_one [where fld = rs_coils and d = False and put = "\<lambda>xs. rs_coils_update (\<lambda>_. xs)"])
      (auto simp: RegisterStore_write_coil_def dense_defs fun_eq_iff)
  show "writes_cells dense_good dense_view dense_admits RT_Coil v_coils_update (as_write_coils RegisterStore_AddressSpace)"
    unfolding RegisterStore_AddressSpace_def AddressSpace.simps
    by (rule dense_writes [where fld = rs_coils and d = False and put = "\<lambda>xs. rs_coils_update (\<lambda>_. xs)"])
      (auto simp: RegisterStore_write_coils_def dense_defs fun_eq_iff)
  show "reads_cells dense_good dense_view dense_admits RT_DiscreteInput v_discrete_inputs
      (as_read_discrete_inputs RegisterStore_AddressSpace)"
    unfolding RegisterStore_AddressSpace_def AddressSpace.simps
    by (rule dense_reads [where fld = rs_discrete_inputs and d = False])
      (auto simp: RegisterStore_read_discrete_inputs_def dense_defs)
  show "writes_cell dense_good dense_view dense_admits RT_DiscreteInput v_discrete_inputs_update
      (as_set_discrete_input RegisterStore_AddressSpace)"
    unfolding RegisterStore_AddressSpace_def AddressSpace.simps
    by (rule dense_writes_one [where fld = rs_discrete_inputs and d = False
          and put = "\<lambda>xs. rs_discrete_inputs_update (\<lambda>_. xs)"])
      (auto simp: RegisterStore_set_discrete_input_def dense_defs fun_eq_iff)
  show "reads_cells dense_good dense_view dense_admits RT_HoldingRegister v_holding_registers
      (as_read_holding_registers RegisterStore_AddressSpace)"
    unfolding RegisterStore_AddressSpace_def AddressSpace.simps
    by (rule dense_reads [where fld = rs_holding_registers and d = 0])
      (auto simp: RegisterStore_read_holding_registers_def dense_defs)
  show "writes_cell dense_good dense_view dense_admits RT_HoldingRegister v_holding_registers_update
      (as_write_holding_register RegisterStore_AddressSpace)"
    unfolding RegisterStore_AddressSpace_def AddressSpace.simps
    by (rule dense_writes_one [where fld = rs_holding_registers and d = 0
          and put = "\<lambda>xs. rs_holding_registers_update (\<lambda>_. xs)"])
      (auto simp: RegisterStore_write_holding_register_def dense_defs fun_eq_iff)
  show "writes_cells dense_good dense_view dense_admits RT_HoldingRegister v_holding_registers_update
      (as_write_holding_registers RegisterStore_AddressSpace)"
    unfolding RegisterStore_AddressSpace_def AddressSpace.simps
    by (rule dense_writes [where fld = rs_holding_registers and d = 0
          and put = "\<lambda>xs. rs_holding_registers_update (\<lambda>_. xs)"])
      (auto simp: RegisterStore_write_holding_registers_def dense_defs fun_eq_iff)
  show "reads_cells dense_good dense_view dense_admits RT_InputRegister v_input_registers
      (as_read_input_registers RegisterStore_AddressSpace)"
    unfolding RegisterStore_AddressSpace_def AddressSpace.simps
    by (rule dense_reads [where fld = rs_input_registers and d = 0])
      (auto simp: RegisterStore_read_input_registers_def dense_defs)
  show "writes_cell dense_good dense_view dense_admits RT_InputRegister v_input_registers_update
      (as_set_input_register RegisterStore_AddressSpace)"
    unfolding RegisterStore_AddressSpace_def AddressSpace.simps
    by (rule dense_writes_one [where fld = rs_input_registers and d = 0
          and put = "\<lambda>xs. rs_input_registers_update (\<lambda>_. xs)"])
      (auto simp: RegisterStore_set_input_register_def dense_defs fun_eq_iff)
  show "writes_cells dense_good dense_view dense_admits RT_InputRegister v_input_registers_update
      (as_set_input_registers RegisterStore_AddressSpace)"
    unfolding RegisterStore_AddressSpace_def AddressSpace.simps
    by (rule dense_writes [where fld = rs_input_registers and d = 0
          and put = "\<lambda>xs. rs_input_registers_update (\<lambda>_. xs)"])
      (auto simp: RegisterStore_set_input_registers_def dense_defs fun_eq_iff)
qed

interpretation dense: address_space RegisterStore_AddressSpace dense_good dense_view dense_admits
proof
  show "masks_cell dense_good dense_view dense_admits (as_mask_write_holding_register RegisterStore_AddressSpace)"
    unfolding masks_cell_def
  proof (intro allI impI)
    fix s a m n
    assume good: "dense_good s"
    let ?op = "as_mask_write_holding_register RegisterStore_AddressSpace"
    show "if dense_admits s RT_HoldingRegister a 1
       then \<exists>s'. ?op s a m n = Ok s' \<and> dense_good s' \<and> dense_admits s' = dense_admits s \<and>
          dense_view s' = v_holding_registers_update (\<lambda>f. f(unat a := mask_word (f (unat a)) m n)) (dense_view s)
       else rejects (?op s a m n)"
    proof (cases "dense_admits s RT_HoldingRegister a 1")
      case True
      then have "unat a < length (rs_holding_registers s)"
        using good by (simp add: dense_defs)
      then show ?thesis using True good dense_validate_Ok [of s RT_HoldingRegister a 1]
        by (simp add: RegisterStore_AddressSpace_def RegisterStore_mask_write_holding_register_def idx_def set_at_def
            Let_def mask_word_def dense_defs cell_of_update fun_eq_iff) (simp add: cell_of_def)
    next
      case False
      then show ?thesis using good
        by (simp add: RegisterStore_AddressSpace_def RegisterStore_mask_write_holding_register_def obind_assoc
            dense_validate_rejects)
    qed
  qed
qed


section \<open>The sparse store keeps the contract\<close>

text \<open>
  A random default is drawn again at every read of a cell that was never written, so the
  contract is for stores with fixed defaults.
\<close>

fun fixed_default :: "DefaultValue \<Rightarrow> bool" where
  "fixed_default DV_Zero \<longleftrightarrow> True"
| "fixed_default (DV_Value v) \<longleftrightarrow> True"
| "fixed_default DV_Random \<longleftrightarrow> False"
| "fixed_default (DV_RandomRange a b) \<longleftrightarrow> False"

definition sparse_good :: "SparseRegisterStore \<Rightarrow> bool" where
  "sparse_good s \<longleftrightarrow> sparse_wf s \<and>
     fixed_default (rc_default_value (cfg_coils (ss_config s))) \<and>
     fixed_default (rc_default_value (cfg_discrete_inputs (ss_config s))) \<and>
     fixed_default (rc_default_value (cfg_holding_registers (ss_config s))) \<and>
     fixed_default (rc_default_value (cfg_input_registers (ss_config s)))"

definition cell_in :: "'a \<Rightarrow> 'a ShardedRegisterMap \<Rightarrow> nat \<Rightarrow> 'a" where
  "cell_in d m i = (if i < 65536 then read_cell m i d else d)"

definition sparse_view :: "SparseRegisterStore \<Rightarrow> space_view" where
  "sparse_view s = \<lparr>
     v_coils = cell_in (DefaultValue_get_bool (ss_now s) (rc_default_value (cfg_coils (ss_config s)))) (ss_coils s),
     v_discrete_inputs = cell_in (DefaultValue_get_bool (ss_now s) (rc_default_value (cfg_discrete_inputs (ss_config s))))
       (ss_discrete_inputs s),
     v_holding_registers = cell_in (DefaultValue_get_word (ss_now s) (rc_default_value (cfg_holding_registers (ss_config s))))
       (ss_holding_registers s),
     v_input_registers = cell_in (DefaultValue_get_word (ss_now s) (rc_default_value (cfg_input_registers (ss_config s))))
       (ss_input_registers s)\<rparr>"

definition sparse_admits :: "SparseRegisterStore \<Rightarrow> RegisterType \<Rightarrow> u16 \<Rightarrow> nat \<Rightarrow> bool" where
  "sparse_admits s t a n = sparse_span s (sparse_register_type t) a n"

lemma fixed_default_clock:
  "fixed_default dv \<Longrightarrow> DefaultValue_get_bool n dv = DefaultValue_get_bool n' dv"
  "fixed_default dv \<Longrightarrow> DefaultValue_get_word n dv = DefaultValue_get_word n' dv"
  by (cases dv; simp)+

lemma cell_in_insert_all:
  assumes "sh_shape m" "a + length vs \<le> 65536"
  shows "cell_in d (insert_all e m a vs) = cells_replaced (cell_in d m) a vs"
proof (rule ext)
  fix i
  show "cell_in d (insert_all e m a vs) i = cells_replaced (cell_in d m) a vs i"
  proof (cases "i < 65536")
    case True
    then have "unat (as_u16 i) = i" by (intro unat_as_u16) simp
    then show ?thesis using True assms
      by (simp add: cell_in_def cells_replaced_def read_cell_def insert_all_lookup cells_updated_def)
  next
    case False
    then show ?thesis using assms(2) by (simp add: cell_in_def cells_replaced_def)
  qed
qed

lemma map_cell_in: "a + n \<le> 65536 \<Longrightarrow> map (cell_in d m) [a..<a + n] = map (\<lambda>i. read_cell m i d) [a..<a + n]"
  by (simp add: cell_in_def)

lemma cells_replaced_one [simp]: "cells_replaced f a [v] = f(a := v)"
  by (rule ext) (auto simp: cells_replaced_def)

lemma sparse_rejects_iff:
  "\<not> sparse_span s t a (unat q) \<Longrightarrow> rejects (obind (SparseRegisterStore_validate s t a q) f)"
  unfolding rejects_def by (rule sparse_rejects)

lemma sparse_after_callbacks:
  "sparse_good (s\<lparr>ss_callbacks := cb\<rparr>) = sparse_good s"
  "sparse_view (s\<lparr>ss_callbacks := cb\<rparr>) = sparse_view s"
  "sparse_admits (s\<lparr>ss_callbacks := cb\<rparr>) = sparse_admits s"
  by (simp_all add: sparse_good_def sparse_wf_def sparse_view_def sparse_admits_def sparse_span_def fun_eq_iff)

lemma sparse_reads:
  assumes "\<And>s a q. sparse_span s (sparse_register_type t) a (unat q) \<Longrightarrow>
      \<exists>cb. op s a q = Ok (map (\<lambda>i. read_cell (fld s) i (dv s)) [unat a..<unat a + unat q], s\<lparr>ss_callbacks := cb\<rparr>)"
    and "\<And>s a q. \<not> sparse_span s (sparse_register_type t) a (unat q) \<Longrightarrow> rejects (op s a q)"
    and "\<And>s. sel (sparse_view s) = cell_in (dv s) (fld s)"
  shows "reads_cells sparse_good sparse_view sparse_admits t sel op"
  unfolding reads_cells_def
proof (intro allI impI)
  fix s and a q :: u16
  assume good: "sparse_good s \<and> unat q \<le> 2000"
  show "if sparse_admits s t a (unat q)
     then \<exists>s'. op s a q = Ok (map (sel (sparse_view s)) [unat a..<unat a + unat q], s') \<and>
        sparse_good s' \<and> sparse_view s' = sparse_view s \<and> sparse_admits s' = sparse_admits s
     else rejects (op s a q)"
  proof (cases "sparse_admits s t a (unat q)")
    case True
    then have span: "sparse_span s (sparse_register_type t) a (unat q)" by (simp add: sparse_admits_def)
    obtain cb where "op s a q = Ok (map (\<lambda>i. read_cell (fld s) i (dv s)) [unat a..<unat a + unat q], s\<lparr>ss_callbacks := cb\<rparr>)"
      using assms(1) [OF span] by blast
    then show ?thesis using True good sparse_span_fits [OF span]
      by (simp add: assms(3) map_cell_in sparse_after_callbacks)
  qed (simp add: assms(2) sparse_admits_def)
qed

lemma sparse_writes_step:
  assumes put: "\<And>s m. sparse_good s \<Longrightarrow> sh_wf m \<Longrightarrow> sparse_good (put m s) \<and>
      sparse_admits (put m s) = sparse_admits s \<and>
      sparse_view (put m s) = upd (\<lambda>_. cell_in (dv s) m) (sparse_view s)"
    and upd: "\<And>s h. upd (\<lambda>f. h (cell_in (dv s) (fld s))) (sparse_view s) = upd (\<lambda>f. h f) (sparse_view s)"
    and wf: "\<And>s. sparse_good s \<Longrightarrow> sh_wf (fld s)"
    and good: "sparse_good s" and fits: "unat a + length vs \<le> 65536"
    and op: "\<exists>cb. r = Ok ((put (insert_all d (fld s) (unat a) vs) s)\<lparr>ss_callbacks := cb\<rparr>)"
  shows "\<exists>s'. r = Ok s' \<and> sparse_good s' \<and> sparse_admits s' = sparse_admits s \<and>
    sparse_view s' = upd (\<lambda>f. cells_replaced f (unat a) vs) (sparse_view s)"
proof -
  have shape: "sh_shape (fld s)" using wf [OF good] by (simp add: sh_wf_def)
  from op obtain cb where "r = Ok ((put (insert_all d (fld s) (unat a) vs) s)\<lparr>ss_callbacks := cb\<rparr>)" by blast
  then show ?thesis
    using put [OF good insert_all_wf [OF wf [OF good]], of d "unat a" vs]
      upd [of "\<lambda>f. cells_replaced f (unat a) vs" s] cell_in_insert_all [OF shape fits]
    by (simp add: sparse_after_callbacks)
qed

lemma sparse_put:
  "sparse_good s \<Longrightarrow> sh_wf b \<Longrightarrow> sparse_good (s\<lparr>ss_coils := b\<rparr>)"
  "sparse_good s \<Longrightarrow> sh_wf b \<Longrightarrow> sparse_good (s\<lparr>ss_discrete_inputs := b\<rparr>)"
  "sparse_good s \<Longrightarrow> sh_wf w \<Longrightarrow> sparse_good (s\<lparr>ss_holding_registers := w\<rparr>)"
  "sparse_good s \<Longrightarrow> sh_wf w \<Longrightarrow> sparse_good (s\<lparr>ss_input_registers := w\<rparr>)"
  by (simp_all add: sparse_good_def sparse_wf_def)

lemma sparse_good_fields:
  "sparse_good s \<Longrightarrow> sh_wf (ss_coils s)"
  "sparse_good s \<Longrightarrow> sh_wf (ss_discrete_inputs s)"
  "sparse_good s \<Longrightarrow> sh_wf (ss_holding_registers s)"
  "sparse_good s \<Longrightarrow> sh_wf (ss_input_registers s)"
  by (simp_all add: sparse_good_def sparse_wf_def)

lemmas sparse_space_defs = sparse_view_def sparse_admits_def sparse_span_def fun_eq_iff

lemma sparse_write_coil_cells:
  assumes "sparse_good s" "unat a + length vs \<le> 65536"
    "\<exists>cb. r = Ok (s\<lparr>ss_coils := insert_all False (ss_coils s) (unat a) vs, ss_callbacks := cb\<rparr>)"
  shows "\<exists>s'. r = Ok s' \<and> sparse_good s' \<and> sparse_admits s' = sparse_admits s \<and>
    sparse_view s' = v_coils_update (\<lambda>f. cells_replaced f (unat a) vs) (sparse_view s)"
  by (rule sparse_writes_step [where put = "\<lambda>m. ss_coils_update (\<lambda>_. m)" and fld = ss_coils and d = False
        and dv = "\<lambda>s. DefaultValue_get_bool (ss_now s) (rc_default_value (cfg_coils (ss_config s)))"])
    (use assms in \<open>auto simp: sparse_space_defs sparse_put sparse_good_fields\<close>)

lemma sparse_set_discrete_cells:
  assumes "sparse_good s" "unat a + length vs \<le> 65536"
    "\<exists>cb. r = Ok (s\<lparr>ss_discrete_inputs := insert_all False (ss_discrete_inputs s) (unat a) vs, ss_callbacks := cb\<rparr>)"
  shows "\<exists>s'. r = Ok s' \<and> sparse_good s' \<and> sparse_admits s' = sparse_admits s \<and>
    sparse_view s' = v_discrete_inputs_update (\<lambda>f. cells_replaced f (unat a) vs) (sparse_view s)"
  by (rule sparse_writes_step [where put = "\<lambda>m. ss_discrete_inputs_update (\<lambda>_. m)" and fld = ss_discrete_inputs
        and d = False
        and dv = "\<lambda>s. DefaultValue_get_bool (ss_now s) (rc_default_value (cfg_discrete_inputs (ss_config s)))"])
    (use assms in \<open>auto simp: sparse_space_defs sparse_put sparse_good_fields\<close>)

lemma sparse_write_holding_cells:
  assumes "sparse_good s" "unat a + length vs \<le> 65536"
    "\<exists>cb. r = Ok (s\<lparr>ss_holding_registers := insert_all 0 (ss_holding_registers s) (unat a) vs, ss_callbacks := cb\<rparr>)"
  shows "\<exists>s'. r = Ok s' \<and> sparse_good s' \<and> sparse_admits s' = sparse_admits s \<and>
    sparse_view s' = v_holding_registers_update (\<lambda>f. cells_replaced f (unat a) vs) (sparse_view s)"
  by (rule sparse_writes_step [where put = "\<lambda>m. ss_holding_registers_update (\<lambda>_. m)" and fld = ss_holding_registers
        and d = 0
        and dv = "\<lambda>s. DefaultValue_get_word (ss_now s) (rc_default_value (cfg_holding_registers (ss_config s)))"])
    (use assms in \<open>auto simp: sparse_space_defs sparse_put sparse_good_fields\<close>)

lemma sparse_set_input_cells:
  assumes "sparse_good s" "unat a + length vs \<le> 65536"
    "\<exists>cb. r = Ok (s\<lparr>ss_input_registers := insert_all 0 (ss_input_registers s) (unat a) vs, ss_callbacks := cb\<rparr>)"
  shows "\<exists>s'. r = Ok s' \<and> sparse_good s' \<and> sparse_admits s' = sparse_admits s \<and>
    sparse_view s' = v_input_registers_update (\<lambda>f. cells_replaced f (unat a) vs) (sparse_view s)"
  by (rule sparse_writes_step [where put = "\<lambda>m. ss_input_registers_update (\<lambda>_. m)" and fld = ss_input_registers
        and d = 0
        and dv = "\<lambda>s. DefaultValue_get_word (ss_now s) (rc_default_value (cfg_input_registers (ss_config s)))"])
    (use assms in \<open>auto simp: sparse_space_defs sparse_put sparse_good_fields\<close>)

lemma sparse_good_wf: "sparse_good s \<Longrightarrow> sparse_wf s"
  by (simp add: sparse_good_def)

lemma sparse_writes_cells:
  assumes accept: "\<And>s a vs. sparse_good s \<Longrightarrow> sparse_span s (sparse_register_type t) a (length vs) \<Longrightarrow>
      length vs \<le> 65535 \<Longrightarrow> \<exists>s'. op s a vs = Ok s' \<and> sparse_good s' \<and> sparse_admits s' = sparse_admits s \<and>
        sparse_view s' = upd (\<lambda>f. cells_replaced f (unat a) vs) (sparse_view s)"
    and reject: "\<And>s a vs. \<exists>f. op s a vs = obind (SparseRegisterStore_validate s (sparse_register_type t) a (as_u16 (length vs))) f"
  shows "writes_cells sparse_good sparse_view sparse_admits t upd op"
  unfolding writes_cells_def
proof (intro allI impI)
  fix s and a :: u16 and vs :: "'a list"
  assume good: "sparse_good s \<and> length vs \<le> 2000"
  then have n: "unat (as_u16 (length vs)) = length vs" by (intro unat_as_u16) simp
  obtain f where f: "op s a vs = obind (SparseRegisterStore_validate s (sparse_register_type t) a (as_u16 (length vs))) f"
    using reject by blast
  show "if sparse_admits s t a (length vs)
     then \<exists>s'. op s a vs = Ok s' \<and> sparse_good s' \<and> sparse_admits s' = sparse_admits s \<and>
        sparse_view s' = upd (\<lambda>f. cells_replaced f (unat a) vs) (sparse_view s)
     else rejects (op s a vs)"
    using good accept [of s a vs] sparse_rejects_iff [of s "sparse_register_type t" a "as_u16 (length vs)" f] f n
    by (auto simp: sparse_admits_def)
qed

lemma sparse_writes_cell:
  assumes accept: "\<And>s a v. sparse_good s \<Longrightarrow> sparse_span s (sparse_register_type t) a 1 \<Longrightarrow>
      \<exists>s'. op s a v = Ok s' \<and> sparse_good s' \<and> sparse_admits s' = sparse_admits s \<and>
        sparse_view s' = upd (\<lambda>f. cells_replaced f (unat a) [v]) (sparse_view s)"
    and reject: "\<And>s a v. \<exists>f. op s a v = obind (SparseRegisterStore_validate s (sparse_register_type t) a 1) f"
  shows "writes_cell sparse_good sparse_view sparse_admits t upd op"
  unfolding writes_cell_def
proof (intro allI impI)
  fix s and a :: u16 and v
  assume good: "sparse_good s"
  obtain f where f: "op s a v = obind (SparseRegisterStore_validate s (sparse_register_type t) a 1) f"
    using reject by blast
  show "if sparse_admits s t a 1
     then \<exists>s'. op s a v = Ok s' \<and> sparse_good s' \<and> sparse_admits s' = sparse_admits s \<and>
        sparse_view s' = upd (\<lambda>f. f(unat a := v)) (sparse_view s)
     else rejects (op s a v)"
    using good accept [of s a v] sparse_rejects_iff [of s "sparse_register_type t" a 1 f] f
    by (auto simp: sparse_admits_def)
qed

lemma sparse_one_fits: "sparse_span s t a 1 \<Longrightarrow> unat a + length [v] \<le> 65536"
  by (drule sparse_span_fits) simp

lemma sparse_many_fits: "sparse_span s t a (length vs) \<Longrightarrow> unat a + length vs \<le> 65536"
  by (drule sparse_span_fits) simp

lemma sparse_set_calls:
  "sparse_span s SRT_DiscreteInput a 1 \<Longrightarrow> \<exists>cb. SparseRegisterStore_set_discrete_input s a b =
    Ok (s\<lparr>ss_discrete_inputs := insert_all False (ss_discrete_inputs s) (unat a) [b], ss_callbacks := cb\<rparr>)"
  "sparse_span s SRT_InputRegister a 1 \<Longrightarrow> \<exists>cb. SparseRegisterStore_set_input_register s a w =
    Ok (s\<lparr>ss_input_registers := insert_all 0 (ss_input_registers s) (unat a) [w], ss_callbacks := cb\<rparr>)"
  "sparse_wf s \<Longrightarrow> sparse_span s SRT_InputRegister a (length vs) \<Longrightarrow> length vs \<le> 65535 \<Longrightarrow>
   \<exists>cb. SparseRegisterStore_set_input_registers s a vs =
    Ok (s\<lparr>ss_input_registers := insert_all 0 (ss_input_registers s) (unat a) vs, ss_callbacks := cb\<rparr>)"
  by (rule exI [of _ "ss_callbacks s"], simp add: sparse_set_one sparse_set_input_registers)+

lemmas sparse_op_defs =
  SparseRegisterStore_read_coils_def SparseRegisterStore_write_coil_def SparseRegisterStore_write_coils_def
  SparseRegisterStore_read_discrete_inputs_def SparseRegisterStore_set_discrete_input_def
  SparseRegisterStore_read_holding_registers_def SparseRegisterStore_write_holding_register_def
  SparseRegisterStore_write_holding_registers_def SparseRegisterStore_read_input_registers_def
  SparseRegisterStore_set_input_register_def SparseRegisterStore_set_input_registers_def

interpretation sparse_registers: register_space SparseRegisterStore_AddressSpace sparse_good sparse_view sparse_admits
proof
  let ?ops = SparseRegisterStore_AddressSpace
  let ?reads = "reads_cells sparse_good sparse_view sparse_admits"
  let ?writes = "writes_cells sparse_good sparse_view sparse_admits"
  let ?cell = "writes_cell sparse_good sparse_view sparse_admits"
  note ops = SparseRegisterStore_AddressSpace_def AddressSpace.simps
  show "?reads RT_Coil v_coils (as_read_coils ?ops)"
    unfolding ops by (rule sparse_reads [OF sparse_read_coils]) (auto simp: sparse_op_defs sparse_rejects_iff sparse_view_def)
  show "?reads RT_DiscreteInput v_discrete_inputs (as_read_discrete_inputs ?ops)"
    unfolding ops
    by (rule sparse_reads [OF sparse_read_discrete_inputs]) (auto simp: sparse_op_defs sparse_rejects_iff sparse_view_def)
  show "?reads RT_HoldingRegister v_holding_registers (as_read_holding_registers ?ops)"
    unfolding ops
    by (rule sparse_reads [OF sparse_read_holding_registers]) (auto simp: sparse_op_defs sparse_rejects_iff sparse_view_def)
  show "?reads RT_InputRegister v_input_registers (as_read_input_registers ?ops)"
    unfolding ops
    by (rule sparse_reads [OF sparse_read_input_registers]) (auto simp: sparse_op_defs sparse_rejects_iff sparse_view_def)
  show "?cell RT_Coil v_coils_update (as_write_coil ?ops)"
    unfolding ops
    by (rule sparse_writes_cell, rule sparse_write_coil_cells [OF _ sparse_one_fits sparse_write_coil])
      (auto simp: sparse_op_defs)
  show "?cell RT_DiscreteInput v_discrete_inputs_update (as_set_discrete_input ?ops)"
    unfolding ops
    by (rule sparse_writes_cell, rule sparse_set_discrete_cells [OF _ sparse_one_fits sparse_set_calls(1)])
      (auto simp: sparse_op_defs)
  show "?cell RT_HoldingRegister v_holding_registers_update (as_write_holding_register ?ops)"
    unfolding ops
    by (rule sparse_writes_cell, rule sparse_write_holding_cells [OF _ sparse_one_fits sparse_write_holding_register])
      (auto simp: sparse_op_defs)
  show "?cell RT_InputRegister v_input_registers_update (as_set_input_register ?ops)"
    unfolding ops
    by (rule sparse_writes_cell, rule sparse_set_input_cells [OF _ sparse_one_fits sparse_set_calls(2)])
      (auto simp: sparse_op_defs)
  show "?writes RT_Coil v_coils_update (as_write_coils ?ops)"
    unfolding ops
    by (rule sparse_writes_cells, rule sparse_write_coil_cells [OF _ sparse_many_fits sparse_write_coils [OF sparse_good_wf]])
      (auto simp: sparse_op_defs)
  show "?writes RT_HoldingRegister v_holding_registers_update (as_write_holding_registers ?ops)"
    unfolding ops
    by (rule sparse_writes_cells, rule sparse_write_holding_cells [OF _ sparse_many_fits sparse_write_holding_registers [OF sparse_good_wf]])
      (auto simp: sparse_op_defs)
  show "?writes RT_InputRegister v_input_registers_update (as_set_input_registers ?ops)"
    unfolding ops
    by (rule sparse_writes_cells, rule sparse_set_input_cells [OF _ sparse_many_fits sparse_set_calls(3) [OF sparse_good_wf]])
      (auto simp: sparse_op_defs)
qed

interpretation sparse: address_space SparseRegisterStore_AddressSpace sparse_good sparse_view sparse_admits
  using sparse_registers.default_mask_write
  by unfold_locales (simp add: SparseRegisterStore_AddressSpace_def)


section \<open>Shared spaces\<close>

text \<open>
  A device holds its space as a trait object, so a call goes to the operations of the store
  behind it. The two stores are the implementations the crate has.
\<close>

datatype SharedAddressSpace = DenseSpace RegisterStore | SparseSpace SparseRegisterStore

fun dyn_read :: "(RegisterStore \<Rightarrow> (ModbusError, 'a \<times> RegisterStore) outcome) \<Rightarrow>
    (SparseRegisterStore \<Rightarrow> (ModbusError, 'a \<times> SparseRegisterStore) outcome) \<Rightarrow>
    SharedAddressSpace \<Rightarrow> (ModbusError, 'a \<times> SharedAddressSpace) outcome" where
  "dyn_read f g (DenseSpace d) = obind (f d) (\<lambda>(x, d). Ok (x, DenseSpace d))"
| "dyn_read f g (SparseSpace p) = obind (g p) (\<lambda>(x, p). Ok (x, SparseSpace p))"

fun dyn_write :: "(RegisterStore \<Rightarrow> (ModbusError, RegisterStore) outcome) \<Rightarrow>
    (SparseRegisterStore \<Rightarrow> (ModbusError, SparseRegisterStore) outcome) \<Rightarrow>
    SharedAddressSpace \<Rightarrow> (ModbusError, SharedAddressSpace) outcome" where
  "dyn_write f g (DenseSpace d) = obind (f d) (\<lambda>d. Ok (DenseSpace d))"
| "dyn_write f g (SparseSpace p) = obind (g p) (\<lambda>p. Ok (SparseSpace p))"

definition dyn_AddressSpace :: "SharedAddressSpace AddressSpace" where
  "dyn_AddressSpace = (let D = RegisterStore_AddressSpace; P = SparseRegisterStore_AddressSpace in \<lparr>
     as_count = (\<lambda>s t. case s of DenseSpace d \<Rightarrow> as_count D d t | SparseSpace p \<Rightarrow> as_count P p t),
     as_read_coils = (\<lambda>s a q. dyn_read (\<lambda>d. as_read_coils D d a q) (\<lambda>p. as_read_coils P p a q) s),
     as_write_coil = (\<lambda>s a v. dyn_write (\<lambda>d. as_write_coil D d a v) (\<lambda>p. as_write_coil P p a v) s),
     as_write_coils = (\<lambda>s a vs. dyn_write (\<lambda>d. as_write_coils D d a vs) (\<lambda>p. as_write_coils P p a vs) s),
     as_read_discrete_inputs =
       (\<lambda>s a q. dyn_read (\<lambda>d. as_read_discrete_inputs D d a q) (\<lambda>p. as_read_discrete_inputs P p a q) s),
     as_set_discrete_input =
       (\<lambda>s a v. dyn_write (\<lambda>d. as_set_discrete_input D d a v) (\<lambda>p. as_set_discrete_input P p a v) s),
     as_read_holding_registers =
       (\<lambda>s a q. dyn_read (\<lambda>d. as_read_holding_registers D d a q) (\<lambda>p. as_read_holding_registers P p a q) s),
     as_write_holding_register =
       (\<lambda>s a v. dyn_write (\<lambda>d. as_write_holding_register D d a v) (\<lambda>p. as_write_holding_register P p a v) s),
     as_write_holding_registers =
       (\<lambda>s a vs. dyn_write (\<lambda>d. as_write_holding_registers D d a vs) (\<lambda>p. as_write_holding_registers P p a vs) s),
     as_read_input_registers =
       (\<lambda>s a q. dyn_read (\<lambda>d. as_read_input_registers D d a q) (\<lambda>p. as_read_input_registers P p a q) s),
     as_set_input_register =
       (\<lambda>s a v. dyn_write (\<lambda>d. as_set_input_register D d a v) (\<lambda>p. as_set_input_register P p a v) s),
     as_set_input_registers =
       (\<lambda>s a vs. dyn_write (\<lambda>d. as_set_input_registers D d a vs) (\<lambda>p. as_set_input_registers P p a vs) s),
     as_mask_write_holding_register =
       (\<lambda>s a m n. dyn_write (\<lambda>d. as_mask_write_holding_register D d a m n)
          (\<lambda>p. as_mask_write_holding_register P p a m n) s)\<rparr>)"

fun dyn_good :: "SharedAddressSpace \<Rightarrow> bool" where
  "dyn_good (DenseSpace d) = dense_good d"
| "dyn_good (SparseSpace p) = sparse_good p"

fun dyn_view :: "SharedAddressSpace \<Rightarrow> space_view" where
  "dyn_view (DenseSpace d) = dense_view d"
| "dyn_view (SparseSpace p) = sparse_view p"

fun dyn_admits :: "SharedAddressSpace \<Rightarrow> RegisterType \<Rightarrow> u16 \<Rightarrow> nat \<Rightarrow> bool" where
  "dyn_admits (DenseSpace d) = dense_admits d"
| "dyn_admits (SparseSpace p) = sparse_admits p"

lemma rejects_obind: "rejects m \<Longrightarrow> rejects (obind m f)"
  by (auto simp: rejects_def)

lemma dyn_reads:
  assumes "reads_cells dense_good dense_view dense_admits t sel f"
    and "reads_cells sparse_good sparse_view sparse_admits t sel g"
  shows "reads_cells dyn_good dyn_view dyn_admits t sel (\<lambda>s a q. dyn_read (\<lambda>d. f d a q) (\<lambda>p. g p a q) s)"
  unfolding reads_cells_def
proof (intro allI impI)
  fix s and a q :: u16
  assume "dyn_good s \<and> unat q \<le> 2000"
  then show "if dyn_admits s t a (unat q)
     then \<exists>s'. dyn_read (\<lambda>d. f d a q) (\<lambda>p. g p a q) s = Ok (map (sel (dyn_view s)) [unat a..<unat a + unat q], s') \<and>
        dyn_good s' \<and> dyn_view s' = dyn_view s \<and> dyn_admits s' = dyn_admits s
     else rejects (dyn_read (\<lambda>d. f d a q) (\<lambda>p. g p a q) s)"
    using assms(1) [unfolded reads_cells_def, rule_format, of _ q a]
      assms(2) [unfolded reads_cells_def, rule_format, of _ q a]
    by (cases s) (fastforce simp: rejects_obind split: if_splits)+
qed

lemma dyn_writes_step:
  assumes "\<And>d. dense_good d \<Longrightarrow> if dense_admits d t a n
      then \<exists>d'. f d = Ok d' \<and> dense_good d' \<and> dense_admits d' = dense_admits d \<and> dense_view d' = h (dense_view d)
      else rejects (f d)"
    and "\<And>p. sparse_good p \<Longrightarrow> if sparse_admits p t a n
      then \<exists>p'. g p = Ok p' \<and> sparse_good p' \<and> sparse_admits p' = sparse_admits p \<and> sparse_view p' = h (sparse_view p)
      else rejects (g p)"
    and "dyn_good s"
  shows "if dyn_admits s t a n
    then \<exists>s'. dyn_write f g s = Ok s' \<and> dyn_good s' \<and> dyn_admits s' = dyn_admits s \<and> dyn_view s' = h (dyn_view s)
    else rejects (dyn_write f g s)"
  using assms by (cases s) (fastforce simp: rejects_obind split: if_splits)+

lemma dyn_writes:
  assumes "writes_cells dense_good dense_view dense_admits t upd f"
    and "writes_cells sparse_good sparse_view sparse_admits t upd g"
  shows "writes_cells dyn_good dyn_view dyn_admits t upd (\<lambda>s a vs. dyn_write (\<lambda>d. f d a vs) (\<lambda>p. g p a vs) s)"
  using assms unfolding writes_cells_def
  by (intro allI impI dyn_writes_step [where h = "upd (\<lambda>x. cells_replaced x (unat a) vs)" for a vs]) auto

lemma dyn_writes_one:
  assumes "writes_cell dense_good dense_view dense_admits t upd f"
    and "writes_cell sparse_good sparse_view sparse_admits t upd g"
  shows "writes_cell dyn_good dyn_view dyn_admits t upd (\<lambda>s a v. dyn_write (\<lambda>d. f d a v) (\<lambda>p. g p a v) s)"
  using assms unfolding writes_cell_def
  by (intro allI impI dyn_writes_step [where h = "upd (\<lambda>x. x(unat a := v))" for a v]) auto

lemma dyn_masks:
  assumes "masks_cell dense_good dense_view dense_admits f"
    and "masks_cell sparse_good sparse_view sparse_admits g"
  shows "masks_cell dyn_good dyn_view dyn_admits (\<lambda>s a m n. dyn_write (\<lambda>d. f d a m n) (\<lambda>p. g p a m n) s)"
  using assms unfolding masks_cell_def
  by (intro allI impI dyn_writes_step [where
        h = "v_holding_registers_update (\<lambda>x. x(unat a := mask_word (x (unat a)) m n))" for a m n]) auto

interpretation shared: address_space dyn_AddressSpace dyn_good dyn_view dyn_admits
  by unfold_locales
    (simp_all only: dyn_AddressSpace_def Let_def AddressSpace.simps dyn_reads dyn_writes dyn_writes_one dyn_masks
      dense_registers.read_coils sparse_registers.read_coils dense_registers.write_coil sparse_registers.write_coil dense_registers.write_coils sparse_registers.write_coils
      dense_registers.read_discrete sparse_registers.read_discrete dense_registers.set_discrete sparse_registers.set_discrete
      dense_registers.read_holding sparse_registers.read_holding dense_registers.write_holding sparse_registers.write_holding
      dense_registers.write_holdings sparse_registers.write_holdings dense_registers.read_input sparse_registers.read_input
      dense_registers.set_input sparse_registers.set_input dense_registers.set_inputs sparse_registers.set_inputs dense.mask_write sparse.mask_write)


section \<open>New stores\<close>

text \<open>A new store of either kind holds zeros and serves the addresses below its sizes.\<close>

definition blank_view :: space_view where
  "blank_view = \<lparr>v_coils = \<lambda>_. False, v_discrete_inputs = \<lambda>_. False,
     v_holding_registers = \<lambda>_. 0, v_input_registers = \<lambda>_. 0\<rparr>"

definition fresh_admits :: "u16 \<Rightarrow> u16 \<Rightarrow> u16 \<Rightarrow> u16 \<Rightarrow> RegisterType \<Rightarrow> u16 \<Rightarrow> nat \<Rightarrow> bool" where
  "fresh_admits c d h i t a n \<longleftrightarrow> 1 \<le> n \<and> unat a + n \<le>
     unat (case t of RT_Coil \<Rightarrow> c | RT_DiscreteInput \<Rightarrow> d | RT_HoldingRegister \<Rightarrow> h | RT_InputRegister \<Rightarrow> i)"

definition size_ok :: "u16 \<Rightarrow> bool" where
  "size_ok c \<longleftrightarrow> 1 \<le> unat c \<and> unat c \<le> 63536"

definition fresh_sparse :: "u16 \<Rightarrow> u16 \<Rightarrow> u16 \<Rightarrow> u16 \<Rightarrow> SparseRegisterStore" where
  "fresh_sparse c d h i = SparseRegisterStore_new (\<lambda>_. 0) 0
     (RegisterStoreConfig_new (AddressRange_from_count c) (AddressRange_from_count d)
        (AddressRange_from_count h) (AddressRange_from_count i))"

lemma fresh_dense_good:
  "size_ok c \<Longrightarrow> size_ok d \<Longrightarrow> size_ok h \<Longrightarrow> size_ok i \<Longrightarrow> dense_good (RegisterStore_new c d h i)"
  unfolding dense_good_def
proof (intro conjI allI store_wf_new)
  fix t
  assume "size_ok c" "size_ok d" "size_ok h" "size_ok i"
  then show "1 \<le> unat (RegisterStore_count (RegisterStore_new c d h i) t)"
    "unat (RegisterStore_count (RegisterStore_new c d h i) t) \<le> 63536"
    by (cases t; simp add: size_ok_def RegisterStore_new_def)+
qed

lemma cell_of_replicate: "cell_of d (replicate n d) = (\<lambda>_. d)"
  by (rule ext) (simp add: cell_of_def)

lemma fresh_dense_view: "dense_view (RegisterStore_new c d h i) = blank_view"
  by (simp add: dense_view_def RegisterStore_new_def blank_view_def cell_of_replicate)

lemma fresh_dense_admits: "dense_admits (RegisterStore_new c d h i) = fresh_admits c d h i"
  by (rule ext)+ (simp add: dense_admits_def fresh_admits_def RegisterStore_new_def split: RegisterType.split)

lemmas fresh_sparse_defs = fresh_sparse_def SparseRegisterStore_new_def SparseRegisterStore_apply_initialization_def
  RegisterStoreConfig_get_range_def RegisterStoreConfig_new_def RegisterRangeConfig_new_def

lemma fresh_sparse_good: "sparse_good (fresh_sparse c d h i)"
proof -
  have "sparse_wf (fresh_sparse c d h i)" by (simp add: fresh_sparse_def sparse_wf_new)
  then show ?thesis by (simp add: sparse_good_def) (simp add: fresh_sparse_defs)
qed

lemma fresh_sparse_view: "sparse_view (fresh_sparse c d h i) = blank_view"
  by (simp add: sparse_view_def blank_view_def fresh_sparse_defs cell_in_def read_cell_def fun_eq_iff)

lemma from_count_admits:
  assumes "1 \<le> unat c"
  shows "range_admits (AddressRange_from_count c) a n \<longleftrightarrow> 1 \<le> n \<and> unat a + n \<le> unat c"
proof -
  have "1 \<le> c" using assms by (simp add: word_le_nat_alt)
  then have "unat (c - 1) + 1 = unat c" using assms by (simp add: unat_sub word_le_nat_alt)
  then show ?thesis using \<open>1 \<le> c\<close>
    by (simp add: range_admits_def AddressRange_from_count_def u16_saturating_sub_def)
qed

lemma fresh_sparse_admits:
  assumes "1 \<le> unat c" "1 \<le> unat d" "1 \<le> unat h" "1 \<le> unat i"
  shows "sparse_admits (fresh_sparse c d h i) = fresh_admits c d h i"
proof (intro ext)
  fix t a n
  show "sparse_admits (fresh_sparse c d h i) t a n = fresh_admits c d h i t a n"
    by (cases t) (simp_all add: sparse_admits_def sparse_span_def fresh_admits_def fresh_sparse_defs
        from_count_admits [OF assms(1)] from_count_admits [OF assms(2)] from_count_admits [OF assms(3)]
        from_count_admits [OF assms(4)])
qed


section \<open>Two mask writes at once\<close>

text \<open>
  The sparse store takes the default mask write of the trait, a read of the register followed by a
  write, with no lock held in between. Requests of different connections run concurrently, so the
  two halves of one mask write interleave with those of another; \<open>masks i\<close> are the masks of
  request \<open>i\<close> on the register \<open>a\<close>.
\<close>

datatype mask_pc = MW_Start | MW_Loaded u16 | MW_Done

inductive mask_race :: "u16 \<Rightarrow> (nat \<Rightarrow> u16 \<times> u16) \<Rightarrow> (nat \<Rightarrow> mask_pc) \<times> SparseRegisterStore \<Rightarrow>
    (nat \<Rightarrow> mask_pc) \<times> SparseRegisterStore \<Rightarrow> bool" for a masks where
  mask_load: "mask_race a masks (pc, s) (pc(i := MW_Loaded v), s')"
    if "pc i = MW_Start" "SparseRegisterStore_read_holding_registers s a 1 = Ok ([v], s')"
| mask_store: "mask_race a masks (pc, s) (pc(i := MW_Done), s')"
    if "pc i = MW_Loaded v"
      "SparseRegisterStore_write_holding_register s a (mask_word v (fst (masks i)) (snd (masks i))) = Ok s'"

lemma sparse_load:
  assumes "sparse_good s" "sparse_admits s RT_HoldingRegister a 1"
  obtains s' where "SparseRegisterStore_read_holding_registers s a 1 = Ok ([v_holding_registers (sparse_view s) (unat a)], s')"
    "sparse_good s'" "sparse_view s' = sparse_view s" "sparse_admits s' = sparse_admits s"
  using sparse_registers.read_holding [unfolded reads_cells_def, rule_format, of s 1 a] assms
  by (auto simp: SparseRegisterStore_AddressSpace_def)

lemma sparse_store:
  assumes "sparse_good s" "sparse_admits s RT_HoldingRegister a 1"
  obtains s' where "SparseRegisterStore_write_holding_register s a v = Ok s'"
    "sparse_good s'" "v_holding_registers (sparse_view s') (unat a) = v" "sparse_admits s' = sparse_admits s"
  using sparse_registers.write_holding [unfolded writes_cell_def, rule_format, of s a v] assms
  by (auto simp: SparseRegisterStore_AddressSpace_def)

text \<open>
  C13. The mask write of the sparse store is not atomic: of two mask writes on one register, one
  can be lost. A run exists in which both requests complete without an error and the register
  ends as if only the second had been made, whatever the first one asked for.
\<close>
theorem sparse_mask_write_lost_update:
  assumes "sparse_good s" "sparse_admits s RT_HoldingRegister a 1" "i \<noteq> j" "pc i = MW_Start" "pc j = MW_Start"
  shows "\<exists>pc' s'. (mask_race a masks)\<^sup>*\<^sup>* (pc, s) (pc', s') \<and> pc' i = MW_Done \<and> pc' j = MW_Done \<and>
    v_holding_registers (sparse_view s') (unat a) =
      mask_word (v_holding_registers (sparse_view s) (unat a)) (fst (masks j)) (snd (masks j))"
proof -
  let ?v = "v_holding_registers (sparse_view s) (unat a)"
  obtain s1 where s1: "SparseRegisterStore_read_holding_registers s a 1 = Ok ([?v], s1)" "sparse_good s1"
    "sparse_view s1 = sparse_view s" "sparse_admits s1 = sparse_admits s" using sparse_load assms(1,2) by blast
  then obtain s2 where s2: "SparseRegisterStore_read_holding_registers s1 a 1 = Ok ([?v], s2)" "sparse_good s2"
    "sparse_admits s2 = sparse_admits s" using sparse_load [of s1 a] assms(2) by auto
  then obtain s3 where s3: "SparseRegisterStore_write_holding_register s2 a (mask_word ?v (fst (masks i)) (snd (masks i))) = Ok s3"
    "sparse_good s3" "sparse_admits s3 = sparse_admits s" using sparse_store [of s2 a] assms(2) by metis
  then obtain s4 where s4: "SparseRegisterStore_write_holding_register s3 a (mask_word ?v (fst (masks j)) (snd (masks j))) = Ok s4"
    "v_holding_registers (sparse_view s4) (unat a) = mask_word ?v (fst (masks j)) (snd (masks j))"
    using sparse_store [of s3 a] assms(2) by metis
  let ?pc1 = "pc(i := MW_Loaded ?v)"
  let ?pc2 = "?pc1(j := MW_Loaded ?v)"
  let ?pc3 = "?pc2(i := MW_Done)"
  have "mask_race a masks (pc, s) (?pc1, s1)" using assms s1 by (intro mask_load)
  moreover have "mask_race a masks (?pc1, s1) (?pc2, s2)" using assms s2 by (intro mask_load) simp_all
  moreover have "mask_race a masks (?pc2, s2) (?pc3, s3)" using assms s3 by (intro mask_store) simp_all
  moreover have "mask_race a masks (?pc3, s3) (?pc3(j := MW_Done), s4)" using assms s4 by (intro mask_store) simp_all
  ultimately have "(mask_race a masks)\<^sup>*\<^sup>* (pc, s) (?pc3(j := MW_Done), s4)"
    by (meson converse_rtranclp_into_rtranclp rtranclp.rtrancl_refl)
  then show ?thesis using s4 by (intro exI [of _ "?pc3(j := MW_Done)"] exI [of _ s4]) simp
qed

theorem sparse_mask_write_lost_update_witness:
  "\<exists>pc' s'. (mask_race 3 (\<lambda>i. if i = 0 then (0xFFFE, 1) else (0xFFFD, 2)))\<^sup>*\<^sup>* (\<lambda>_. MW_Start, fresh_sparse 16 16 16 16) (pc', s') \<and>
     pc' 0 = MW_Done \<and> pc' 1 = MW_Done \<and> v_holding_registers (sparse_view s') 3 = 2"
  using sparse_mask_write_lost_update [OF fresh_sparse_good [of 16 16 16 16], of 3 0 1 "\<lambda>_. MW_Start"
      "\<lambda>i. if i = 0 then (0xFFFE, 1) else (0xFFFD, 2)"]
  by (simp add: mask_word_def fresh_sparse_admits fresh_sparse_view fresh_admits_def blank_view_def)

end
