(* ===== verification/Modbus_Semantic.thy ===== *)
theory Modbus_Semantic
  imports Modbus_Space
begin

text \<open>
  The semantic core, \<^verbatim>\<open>mabi-modbus/src/semantic.rs\<close>: the execution of a typed request on a
  register space. An execution returns its result with the space it leaves, because a request
  that fails half way keeps what it wrote. The specification \<open>device_step\<close> is a Modbus device
  over four functions from addresses to values; the core implements it on every register space
  that keeps the contract of \<open>address_space\<close>.
\<close>

section \<open>Failures\<close>

datatype (plugins only: code size) SemanticFailure =
    SF_IllegalFunction
  | SF_IllegalDataAddress
  | SF_IllegalDataValue
  | SF_SlaveDeviceFailure

fun SemanticFailure_exception_code :: "SemanticFailure \<Rightarrow> ExceptionCode" where
  "SemanticFailure_exception_code SF_IllegalFunction = EC_IllegalFunction"
| "SemanticFailure_exception_code SF_IllegalDataAddress = EC_IllegalDataAddress"
| "SemanticFailure_exception_code SF_IllegalDataValue = EC_IllegalDataValue"
| "SemanticFailure_exception_code SF_SlaveDeviceFailure = EC_SlaveDeviceFailure"

fun SemanticFailure_from_modbus_error :: "ModbusError \<Rightarrow> SemanticFailure" where
  "SemanticFailure_from_modbus_error (ME_InvalidAddress _ _) = SF_IllegalDataAddress"
| "SemanticFailure_from_modbus_error (ME_DeviceNotFound _) = SF_IllegalDataAddress"
| "SemanticFailure_from_modbus_error (ME_InvalidQuantity _ _) = SF_IllegalDataAddress"
| "SemanticFailure_from_modbus_error (ME_InvalidData _) = SF_IllegalDataValue"
| "SemanticFailure_from_modbus_error _ = SF_SlaveDeviceFailure"

fun SemanticFailure_from_exception :: "ExceptionCode \<Rightarrow> SemanticFailure" where
  "SemanticFailure_from_exception EC_IllegalFunction = SF_IllegalFunction"
| "SemanticFailure_from_exception EC_IllegalDataAddress = SF_IllegalDataAddress"
| "SemanticFailure_from_exception EC_IllegalDataValue = SF_IllegalDataValue"
| "SemanticFailure_from_exception _ = SF_SlaveDeviceFailure"


section \<open>Execution of a request\<close>

text \<open>
  The three ways an operation of the space ends: its value and the space after it, an error
  that is mapped into a failure, or a panic; the last two leave the space as it was.
\<close>

fun run_read :: "(ModbusError, 'a \<times> 's) outcome \<Rightarrow> ('a \<Rightarrow> SemanticResponse) \<Rightarrow> 's \<Rightarrow>
    (SemanticFailure, SemanticResponse) outcome \<times> 's" where
  "run_read (Ok (x, s')) f s = (Ok (f x), s')"
| "run_read (Err e) f s = (Err (SemanticFailure_from_modbus_error e), s)"
| "run_read Panic f s = (Panic, s)"

fun run_write :: "(ModbusError, 's) outcome \<Rightarrow> 'r \<Rightarrow> 's \<Rightarrow> (SemanticFailure, 'r) outcome \<times> 's" where
  "run_write (Ok s') r s = (Ok r, s')"
| "run_write (Err e) r s = (Err (SemanticFailure_from_modbus_error e), s)"
| "run_write Panic r s = (Panic, s)"

fun execute_builtin :: "'s AddressSpace \<Rightarrow> SemanticRequest \<Rightarrow> 's \<Rightarrow>
    (SemanticFailure, SemanticResponse) outcome \<times> 's" where
  "execute_builtin ops (SR_ReadCoils address quantity) s =
     run_read (as_read_coils ops s address quantity) (SP_Bits FC_ReadCoils) s"
| "execute_builtin ops (SR_ReadDiscreteInputs address quantity) s =
     run_read (as_read_discrete_inputs ops s address quantity) (SP_Bits FC_ReadDiscreteInputs) s"
| "execute_builtin ops (SR_ReadHoldingRegisters address quantity) s =
     run_read (as_read_holding_registers ops s address quantity) (SP_Registers FC_ReadHoldingRegisters) s"
| "execute_builtin ops (SR_ReadInputRegisters address quantity) s =
     run_read (as_read_input_registers ops s address quantity) (SP_Registers FC_ReadInputRegisters) s"
| "execute_builtin ops (SR_WriteSingleCoil address value) s =
     run_write (as_write_coil ops s address value) (SP_WriteSingleCoilAck address value) s"
| "execute_builtin ops (SR_WriteSingleRegister address value) s =
     run_write (as_write_holding_register ops s address value) (SP_WriteSingleRegisterAck address value) s"
| "execute_builtin ops (SR_WriteMultipleCoils address values) s =
     run_write (as_write_coils ops s address values)
       (SP_WriteMultipleAck FC_WriteMultipleCoils address (as_u16 (length values))) s"
| "execute_builtin ops (SR_WriteMultipleRegisters address values) s =
     run_write (as_write_holding_registers ops s address values)
       (SP_WriteMultipleAck FC_WriteMultipleRegisters address (as_u16 (length values))) s"
| "execute_builtin ops (SR_MaskWriteRegister address and_mask or_mask) s =
     run_write (as_mask_write_holding_register ops s address and_mask or_mask)
       (SP_MaskWriteAck address and_mask or_mask) s"
| "execute_builtin ops (SR_ReadWriteMultipleRegisters read_address read_quantity write_address values) s =
    (case run_write (as_write_holding_registers ops s write_address values) () s of
       (Ok _, s) \<Rightarrow> run_read (as_read_holding_registers ops s read_address read_quantity)
         (SP_Registers FC_ReadWriteMultipleRegisters) s
     | (Err e, s) \<Rightarrow> (Err e, s)
     | (Panic, s) \<Rightarrow> (Panic, s))"
| "execute_builtin ops (SR_Custom _ _) s = (Err SF_IllegalFunction, s)"

fun execute_builtin_write_only :: "'s AddressSpace \<Rightarrow> SemanticRequest \<Rightarrow> 's \<Rightarrow>
    (SemanticFailure, unit) outcome \<times> 's" where
  "execute_builtin_write_only ops (SR_WriteSingleCoil address value) s =
     run_write (as_write_coil ops s address value) () s"
| "execute_builtin_write_only ops (SR_WriteSingleRegister address value) s =
     run_write (as_write_holding_register ops s address value) () s"
| "execute_builtin_write_only ops (SR_WriteMultipleCoils address values) s =
     run_write (as_write_coils ops s address values) () s"
| "execute_builtin_write_only ops (SR_WriteMultipleRegisters address values) s =
     run_write (as_write_holding_registers ops s address values) () s"
| "execute_builtin_write_only ops (SR_MaskWriteRegister address and_mask or_mask) s =
     run_write (as_mask_write_holding_register ops s address and_mask or_mask) () s"
| "execute_builtin_write_only ops _ s = (Err SF_IllegalFunction, s)"

fun broadcast_response :: "SemanticRequest \<Rightarrow> (SemanticFailure, SemanticResponse) outcome" where
  "broadcast_response (SR_WriteSingleCoil address value) = Ok (SP_WriteSingleCoilAck address value)"
| "broadcast_response (SR_WriteSingleRegister address value) = Ok (SP_WriteSingleRegisterAck address value)"
| "broadcast_response (SR_WriteMultipleCoils address values) =
     Ok (SP_WriteMultipleAck FC_WriteMultipleCoils address (as_u16 (length values)))"
| "broadcast_response (SR_WriteMultipleRegisters address values) =
     Ok (SP_WriteMultipleAck FC_WriteMultipleRegisters address (as_u16 (length values)))"
| "broadcast_response (SR_MaskWriteRegister address and_mask or_mask) = Ok (SP_MaskWriteAck address and_mask or_mask)"
| "broadcast_response _ = Err SF_IllegalFunction"

lemma broadcast_response_exact:
  "SemanticRequest_allows_broadcast req \<longleftrightarrow> (\<exists>r. broadcast_response req = Ok r)"
  by (cases req) simp_all

text \<open>A write has the same effect and the same result in both executors.\<close>

lemma run_write_unit:
  "run_write m r s = (case run_write m () s of (Ok _, s) \<Rightarrow> (Ok r, s) | (Err e, s) \<Rightarrow> (Err e, s) | (Panic, s) \<Rightarrow> (Panic, s))"
  by (cases m) simp_all

lemma execute_builtin_of_write:
  assumes "broadcast_response req = Ok r"
  shows "execute_builtin ops req s =
    (case execute_builtin_write_only ops req s of
       (Ok _, s) \<Rightarrow> (Ok r, s) | (Err e, s) \<Rightarrow> (Err e, s) | (Panic, s) \<Rightarrow> (Panic, s))"
proof -
  have "r' = r" if "broadcast_response req = Ok r'" for r' using assms that by simp
  then show ?thesis using assms by (cases req) (simp_all, (subst run_write_unit, rule refl)+)
qed


section \<open>The specification of a device\<close>

definition spec_read :: "bool \<Rightarrow> SemanticResponse \<Rightarrow> space_view \<Rightarrow>
    (SemanticFailure, SemanticResponse) outcome \<times> space_view" where
  "spec_read admitted r v = (if admitted then Ok r else Err SF_IllegalDataAddress, v)"

definition spec_write :: "bool \<Rightarrow> 'r \<Rightarrow> space_view \<Rightarrow> space_view \<Rightarrow> (SemanticFailure, 'r) outcome \<times> space_view" where
  "spec_write admitted r v' v = (if admitted then (Ok r, v') else (Err SF_IllegalDataAddress, v))"

abbreviation cells_at :: "(nat \<Rightarrow> 'a) \<Rightarrow> u16 \<Rightarrow> u16 \<Rightarrow> 'a list" where
  "cells_at f a q \<equiv> map f [unat a..<unat a + unat q]"

fun device_step :: "(RegisterType \<Rightarrow> u16 \<Rightarrow> nat \<Rightarrow> bool) \<Rightarrow> SemanticRequest \<Rightarrow> space_view \<Rightarrow>
    (SemanticFailure, SemanticResponse) outcome \<times> space_view" where
  "device_step adm (SR_ReadCoils a q) v =
     spec_read (adm RT_Coil a (unat q)) (SP_Bits FC_ReadCoils (cells_at (v_coils v) a q)) v"
| "device_step adm (SR_ReadDiscreteInputs a q) v =
     spec_read (adm RT_DiscreteInput a (unat q)) (SP_Bits FC_ReadDiscreteInputs (cells_at (v_discrete_inputs v) a q)) v"
| "device_step adm (SR_ReadHoldingRegisters a q) v =
     spec_read (adm RT_HoldingRegister a (unat q))
       (SP_Registers FC_ReadHoldingRegisters (cells_at (v_holding_registers v) a q)) v"
| "device_step adm (SR_ReadInputRegisters a q) v =
     spec_read (adm RT_InputRegister a (unat q))
       (SP_Registers FC_ReadInputRegisters (cells_at (v_input_registers v) a q)) v"
| "device_step adm (SR_WriteSingleCoil a x) v =
     spec_write (adm RT_Coil a 1) (SP_WriteSingleCoilAck a x) (v_coils_update (\<lambda>f. f(unat a := x)) v) v"
| "device_step adm (SR_WriteSingleRegister a x) v =
     spec_write (adm RT_HoldingRegister a 1) (SP_WriteSingleRegisterAck a x)
       (v_holding_registers_update (\<lambda>f. f(unat a := x)) v) v"
| "device_step adm (SR_WriteMultipleCoils a xs) v =
     spec_write (adm RT_Coil a (length xs)) (SP_WriteMultipleAck FC_WriteMultipleCoils a (as_u16 (length xs)))
       (v_coils_update (\<lambda>f. cells_replaced f (unat a) xs) v) v"
| "device_step adm (SR_WriteMultipleRegisters a xs) v =
     spec_write (adm RT_HoldingRegister a (length xs)) (SP_WriteMultipleAck FC_WriteMultipleRegisters a (as_u16 (length xs)))
       (v_holding_registers_update (\<lambda>f. cells_replaced f (unat a) xs) v) v"
| "device_step adm (SR_MaskWriteRegister a m n) v =
     spec_write (adm RT_HoldingRegister a 1) (SP_MaskWriteAck a m n)
       (v_holding_registers_update (\<lambda>f. f(unat a := mask_word (f (unat a)) m n)) v) v"
| "device_step adm (SR_ReadWriteMultipleRegisters ra q wa xs) v =
    (if adm RT_HoldingRegister wa (length xs) then
       let v' = v_holding_registers_update (\<lambda>f. cells_replaced f (unat wa) xs) v
       in spec_read (adm RT_HoldingRegister ra (unat q))
            (SP_Registers FC_ReadWriteMultipleRegisters (cells_at (v_holding_registers v') ra q)) v'
     else (Err SF_IllegalDataAddress, v))"
| "device_step adm (SR_Custom fc payload) v = (Err SF_IllegalFunction, v)"

text \<open>The sizes the request parser guarantees.\<close>

fun request_small :: "SemanticRequest \<Rightarrow> bool" where
  "request_small (SR_ReadCoils a q) \<longleftrightarrow> unat q \<le> 2000"
| "request_small (SR_ReadDiscreteInputs a q) \<longleftrightarrow> unat q \<le> 2000"
| "request_small (SR_ReadHoldingRegisters a q) \<longleftrightarrow> unat q \<le> 2000"
| "request_small (SR_ReadInputRegisters a q) \<longleftrightarrow> unat q \<le> 2000"
| "request_small (SR_WriteMultipleCoils a xs) \<longleftrightarrow> length xs \<le> 2000"
| "request_small (SR_WriteMultipleRegisters a xs) \<longleftrightarrow> length xs \<le> 2000"
| "request_small (SR_ReadWriteMultipleRegisters ra q wa xs) \<longleftrightarrow> unat q \<le> 2000 \<and> length xs \<le> 2000"
| "request_small _ \<longleftrightarrow> True"

lemma request_valid_small: "request_valid req \<Longrightarrow> request_small req"
  by (cases req) (simp_all add: span_ok_def)

lemma address_error_failure [simp]: "address_error e \<Longrightarrow> SemanticFailure_from_modbus_error e = SF_IllegalDataAddress"
  by (auto simp: address_error_def)


section \<open>The core implements the specification\<close>

definition refines_step :: "('s \<Rightarrow> bool) \<Rightarrow> ('s \<Rightarrow> space_view) \<Rightarrow> ('s \<Rightarrow> RegisterType \<Rightarrow> u16 \<Rightarrow> nat \<Rightarrow> bool) \<Rightarrow> 's \<Rightarrow>
    (SemanticFailure, 'r) outcome \<times> 's \<Rightarrow> (SemanticFailure, 'r) outcome \<times> space_view \<Rightarrow> bool" where
  "refines_step good view admits s step spec \<longleftrightarrow>
     (case step of (r, s') \<Rightarrow> good s' \<and> admits s' = admits s \<and> (r, view s') = spec)"

lemma run_read_refines:
  assumes "reads_cells good view admits t sel op" "good s" "unat q \<le> 2000"
  shows "refines_step good view admits s (run_read (op s a q) f s)
    (spec_read (admits s t a (unat q)) (f (cells_at (sel (view s)) a q)) (view s))"
  using assms(1) [unfolded reads_cells_def, rule_format, of s q a] assms(2,3)
  by (auto simp: refines_step_def spec_read_def rejects_def split: if_splits)

lemma run_write_refines:
  assumes "writes_cell good view admits t upd op" "good s"
  shows "refines_step good view admits s (run_write (op s a x) r s)
    (spec_write (admits s t a 1) r (upd (\<lambda>f. f(unat a := x)) (view s)) (view s))"
  using assms(1) [unfolded writes_cell_def, rule_format, of s a x] assms(2)
  by (auto simp: refines_step_def spec_write_def rejects_def split: if_splits)

lemma run_writes_refines:
  assumes "writes_cells good view admits t upd op" "good s" "length xs \<le> 2000"
  shows "refines_step good view admits s (run_write (op s a xs) r s)
    (spec_write (admits s t a (length xs)) r (upd (\<lambda>f. cells_replaced f (unat a) xs) (view s)) (view s))"
  using assms(1) [unfolded writes_cells_def, rule_format, of s xs a] assms(2,3)
  by (auto simp: refines_step_def spec_write_def rejects_def split: if_splits)

lemma run_mask_refines:
  assumes "masks_cell good view admits op" "good s"
  shows "refines_step good view admits s (run_write (op s a m n) r s)
    (spec_write (admits s RT_HoldingRegister a 1) r
      (v_holding_registers_update (\<lambda>f. f(unat a := mask_word (f (unat a)) m n)) (view s)) (view s))"
  using assms(1) [unfolded masks_cell_def, rule_format, of s a m n] assms(2)
  by (auto simp: refines_step_def spec_write_def rejects_def split: if_splits)

context address_space
begin

lemma execute_read_write:
  assumes "good s" "unat q \<le> 2000" "length xs \<le> 2000"
  shows "refines_step good view admits s (execute_builtin ops (SR_ReadWriteMultipleRegisters ra q wa xs) s)
    (device_step (admits s) (SR_ReadWriteMultipleRegisters ra q wa xs) (view s))"
proof (cases "admits s RT_HoldingRegister wa (length xs)")
  case True
  let ?v = "v_holding_registers_update (\<lambda>f. cells_replaced f (unat wa) xs) (view s)"
  obtain s' where s': "as_write_holding_registers ops s wa xs = Ok s'" "good s'" "admits s' = admits s" "view s' = ?v"
    using write_holdings [unfolded writes_cells_def, rule_format, of s xs wa] True assms by auto
  show ?thesis using run_read_refines [OF read_holding s'(2) assms(2), where f = "SP_Registers FC_ReadWriteMultipleRegisters" and a = ra]
    s' True by (simp add: refines_step_def Let_def case_prod_beta)
next
  case False
  then show ?thesis using write_holdings [unfolded writes_cells_def, rule_format, of s xs wa] assms
    by (auto simp: refines_step_def rejects_def)
qed

lemma execute_refines:
  assumes "good s" "request_small req"
  shows "refines_step good view admits s (execute_builtin ops req s) (device_step (admits s) req (view s))"
  using assms(2)
proof (cases req)
  case (SR_ReadWriteMultipleRegisters ra q wa xs)
  then show ?thesis using execute_read_write assms by simp
next
  case (SR_Custom fc payload)
  then show ?thesis using assms by (simp add: refines_step_def)
qed (simp_all only: execute_builtin.simps device_step.simps request_small.simps,
     (rule run_read_refines [OF read_coils assms(1)] run_read_refines [OF read_discrete assms(1)]
        run_read_refines [OF read_holding assms(1)] run_read_refines [OF read_input assms(1)]
        run_write_refines [OF write_coil assms(1)] run_write_refines [OF write_holding assms(1)]
        run_writes_refines [OF write_coils assms(1)] run_writes_refines [OF write_holdings assms(1)]
        run_mask_refines [OF mask_write assms(1)]; assumption?)+)

end


section \<open>What a client observes\<close>

text \<open>The answers to a sequence of requests.\<close>

fun execute_all :: "'s AddressSpace \<Rightarrow> SemanticRequest list \<Rightarrow> 's \<Rightarrow>
    (SemanticFailure, SemanticResponse) outcome list \<times> 's" where
  "execute_all ops [] s = ([], s)"
| "execute_all ops (req # reqs) s =
    (case execute_builtin ops req s of (r, s) \<Rightarrow> case execute_all ops reqs s of (rs, s) \<Rightarrow> (r # rs, s))"

fun device_run :: "(RegisterType \<Rightarrow> u16 \<Rightarrow> nat \<Rightarrow> bool) \<Rightarrow> SemanticRequest list \<Rightarrow> space_view \<Rightarrow>
    (SemanticFailure, SemanticResponse) outcome list \<times> space_view" where
  "device_run adm [] v = ([], v)"
| "device_run adm (req # reqs) v =
    (case device_step adm req v of (r, v) \<Rightarrow> case device_run adm reqs v of (rs, v) \<Rightarrow> (r # rs, v))"

context address_space
begin

lemma execute_all_refines:
  assumes "good s" "list_all request_valid reqs"
  shows "case execute_all ops reqs s of (rs, s') \<Rightarrow> good s' \<and> admits s' = admits s \<and>
    (rs, view s') = device_run (admits s) reqs (view s)"
  using assms
proof (induction reqs arbitrary: s)
  case (Cons req reqs)
  obtain r s1 where step: "execute_builtin ops req s = (r, s1)" by (meson surj_pair)
  with execute_refines [of s req] Cons.prems
  have s1: "good s1" "admits s1 = admits s" "device_step (admits s) req (view s) = (r, view s1)"
    by (simp_all add: refines_step_def request_valid_small)
  show ?case using Cons.IH [OF s1(1)] Cons.prems step s1 by (auto split: prod.splits)
qed simp

end

text \<open>
  C2. On a register space of either kind, a request that the parser accepts does what the
  specification of a device says: the answer, the exception and the registers afterwards are
  those of \<open>device_step\<close>, the space keeps its invariant and serves the same addresses.
\<close>
theorem semantic_core_refines_device:
  assumes "dyn_good s" "request_valid req"
  shows "case execute_builtin dyn_AddressSpace req s of (r, s') \<Rightarrow>
    dyn_good s' \<and> dyn_admits s' = dyn_admits s \<and> (r, dyn_view s') = device_step (dyn_admits s) req (dyn_view s)"
  using shared.execute_refines [OF assms(1) request_valid_small [OF assms(2)]] by (simp add: refines_step_def)

theorem semantic_core_refines_device_witness:
  "case execute_builtin dyn_AddressSpace (SR_WriteMultipleRegisters 14 [7, 8]) (SparseSpace (fresh_sparse 16 16 16 16)) of
    (r, s') \<Rightarrow> r = Ok (SP_WriteMultipleAck FC_WriteMultipleRegisters 14 2) \<and>
      v_holding_registers (dyn_view s') 15 = 8"
  using semantic_core_refines_device [of "SparseSpace (fresh_sparse 16 16 16 16)" "SR_WriteMultipleRegisters 14 [7, 8]"]
  by (auto simp: fresh_sparse_good fresh_sparse_view fresh_sparse_admits fresh_admits_def span_ok_def spec_write_def
      cells_replaced_def split: prod.splits)



text \<open>The bytes of an answer.\<close>

definition encodes_as :: "SemanticRequest \<Rightarrow> SemanticResponse \<Rightarrow> bool" where
  "encodes_as req r \<longleftrightarrow> (\<exists>bs. SemanticResponse_encode r = Ok (ResponsePdu bs) \<and> 1 \<le> length bs \<and> length bs \<le> 253 \<and>
     bs ! 0 = SemanticRequest_function_code req \<and>
     (case r of SP_Bits _ vs \<Rightarrow> unat (bs ! 1) = length bs - 2 \<and> unpack_bits (drop 2 bs) (length vs) = vs
      | SP_Registers _ vs \<Rightarrow> unat (bs ! 1) = length bs - 2 \<and> be16_chunks (drop 2 bs) = vs
      | _ \<Rightarrow> True))"

lemma encodes_bits:
  assumes "length vs \<le> 2000" "FunctionCode_as_u8 f = SemanticRequest_function_code req"
  shows "encodes_as req (SP_Bits f vs)"
proof -
  have "(length vs + 7) div 8 \<le> 250" using assms(1) by linarith
  then have "unat (as_u8 ((length vs + 7) div 8)) = (length vs + 7) div 8" by (intro unat_as_u8) simp
  then show ?thesis using assms \<open>(length vs + 7) div 8 \<le> 250\<close>
    by (simp add: encodes_as_def SemanticResponse_encode_def ResponsePdu_new_def core_pack_bits_eq div_ceil_8
        unpack_pack_bits)
qed

lemma encodes_registers:
  assumes "length vs \<le> 125" "FunctionCode_as_u8 f = SemanticRequest_function_code req"
  shows "encodes_as req (SP_Registers f vs)"
proof -
  have "unat (as_u8 (length vs * 2)) = length vs * 2" using assms(1) by (intro unat_as_u8) simp
  then show ?thesis using assms
    by (simp add: encodes_as_def SemanticResponse_encode_def ResponsePdu_new_def be16_chunks_bytes)
qed

lemma device_step_encodes:
  assumes "device_step adm req v = (Ok r, v')" "request_valid req"
  shows "encodes_as req r"
proof (cases req)
  case (SR_ReadCoils a q)
  then have "r = SP_Bits FC_ReadCoils (cells_at (v_coils v) a q)"
    using assms(1) by (auto simp: spec_read_def split: if_splits)
  then show ?thesis using SR_ReadCoils assms(2) by (simp add: encodes_bits span_ok_def)
next
  case (SR_ReadDiscreteInputs a q)
  then have "r = SP_Bits FC_ReadDiscreteInputs (cells_at (v_discrete_inputs v) a q)"
    using assms(1) by (auto simp: spec_read_def split: if_splits)
  then show ?thesis using SR_ReadDiscreteInputs assms(2) by (simp add: encodes_bits span_ok_def)
next
  case (SR_ReadHoldingRegisters a q)
  then have "r = SP_Registers FC_ReadHoldingRegisters (cells_at (v_holding_registers v) a q)"
    using assms(1) by (auto simp: spec_read_def split: if_splits)
  then show ?thesis using SR_ReadHoldingRegisters assms(2) by (simp add: encodes_registers span_ok_def)
next
  case (SR_ReadInputRegisters a q)
  then have "r = SP_Registers FC_ReadInputRegisters (cells_at (v_input_registers v) a q)"
    using assms(1) by (auto simp: spec_read_def split: if_splits)
  then show ?thesis using SR_ReadInputRegisters assms(2) by (simp add: encodes_registers span_ok_def)
next
  case (SR_ReadWriteMultipleRegisters ra q wa xs)
  then have "\<exists>vs. r = SP_Registers FC_ReadWriteMultipleRegisters vs \<and> length vs = unat q"
    using assms(1) by (auto simp: spec_read_def Let_def split: if_splits)
  then show ?thesis using SR_ReadWriteMultipleRegisters assms(2) by (auto simp: encodes_registers span_ok_def)
qed (use assms in \<open>auto simp: spec_write_def encodes_as_def SemanticResponse_encode_def ResponsePdu_new_def u16_to_be_def
      split: if_splits\<close>)

text \<open>
  C10. Every answer fits a data unit and can be read back: it has at most 253 bytes, starts with the
  function code of the request, and the byte count of a read answer is the number of bytes that
  follow it, from which the values are recovered. No count is truncated to its byte.
\<close>
theorem response_pdu_bounds:
  assumes "dyn_good s" "request_valid req" "execute_builtin dyn_AddressSpace req s = (Ok r, s')"
  shows "encodes_as req r"
  using shared.execute_refines [OF assms(1) request_valid_small [OF assms(2)]] assms(2,3)
  by (intro device_step_encodes [where v = "dyn_view s" and v' = "dyn_view s'" and adm = "dyn_admits s"])
    (auto simp: refines_step_def)

theorem response_pdu_bounds_witness:
  "encodes_as (SR_ReadHoldingRegisters 2 3) (SP_Registers FC_ReadHoldingRegisters [0, 0, 0])"
proof -
  let ?s = "DenseSpace (RegisterStore_new 16 16 16 16)"
  let ?req = "SR_ReadHoldingRegisters 2 3"
  have good: "dyn_good ?s" by (simp add: fresh_dense_good size_ok_def)
  have valid: "request_valid ?req" by (simp add: span_ok_def)
  obtain r s' where run: "execute_builtin dyn_AddressSpace ?req ?s = (r, s')" by (meson surj_pair)
  then have "r = Ok (SP_Registers FC_ReadHoldingRegisters [0, 0, 0])"
    using shared.execute_refines [OF good request_valid_small [OF valid]]
    by (simp add: refines_step_def spec_read_def fresh_dense_view fresh_dense_admits fresh_admits_def blank_view_def
        del: execute_builtin.simps)
  with run show ?thesis by (intro response_pdu_bounds [OF good valid]) simp
qed

end
