(* ===== verification/Modbus_Handler.thy ===== *)
theory Modbus_Handler
  imports Modbus_Semantic
begin

text \<open>
  The function handlers, \<^verbatim>\<open>mabi-modbus/src/handler\<close>: the trait (\<^verbatim>\<open>traits.rs\<close>), the ten
  handlers of the standard function codes (\<^verbatim>\<open>read.rs\<close>, \<^verbatim>\<open>write.rs\<close>) and the registry that
  dispatches a data unit to one of them (\<^verbatim>\<open>registry.rs\<close>). A handler runs on the register space
  of its context. The standard handlers answer as the semantic core does.
\<close>

section \<open>The trait\<close>

datatype WordOrder = WO_BigEndian | WO_LittleEndian | WO_BigEndianWordSwap | WO_LittleEndianWordSwap

definition WordOrder_default :: WordOrder where
  "WordOrder_default = WO_BigEndian"

record HandlerContext =
  hc_unit_id :: u8
  hc_transaction_id :: u16
  hc_word_order :: WordOrder
  hc_is_broadcast :: bool

definition HandlerContext_with_word_order :: "u8 \<Rightarrow> u16 \<Rightarrow> WordOrder \<Rightarrow> HandlerContext" where
  "HandlerContext_with_word_order unit_id transaction_id word_order =
     \<lparr>hc_unit_id = unit_id, hc_transaction_id = transaction_id, hc_word_order = word_order,
      hc_is_broadcast = (unit_id = 0)\<rparr>"

definition HandlerContext_new :: "u8 \<Rightarrow> u16 \<Rightarrow> HandlerContext" where
  "HandlerContext_new unit_id transaction_id =
     \<lparr>hc_unit_id = unit_id, hc_transaction_id = transaction_id, hc_word_order = WordOrder_default,
      hc_is_broadcast = (unit_id = 0)\<rparr>"

text \<open>A handler returns its answer with the register space it leaves.\<close>

type_synonym handled = "(ExceptionCode, bytes) outcome \<times> SharedAddressSpace"

record FunctionHandler =
  fh_function_code :: u8
  fh_handle :: "bytes \<Rightarrow> HandlerContext \<Rightarrow> SharedAddressSpace \<Rightarrow> handled"
  fh_name :: string
  fh_min_pdu_length :: usize
  fh_supports_broadcast :: bool

definition validate_pdu_length :: "usize \<Rightarrow> bytes \<Rightarrow> (ExceptionCode, unit) outcome" where
  "validate_pdu_length min_pdu_length pdu = (if length pdu < min_pdu_length then Err EC_IllegalDataValue else Ok ())"

definition parse_address :: "bytes \<Rightarrow> usize \<Rightarrow> (ExceptionCode, u16) outcome" where
  "parse_address pdu offset =
    (if length pdu < offset + 2 then Err EC_IllegalDataValue else be16_at pdu offset)"

definition parse_quantity :: "bytes \<Rightarrow> usize \<Rightarrow> (ExceptionCode, u16) outcome" where
  "parse_quantity pdu offset =
    (if length pdu < offset + 2 then Err EC_IllegalDataValue else be16_at pdu offset)"

text \<open>
  The early returns of a handler: of its own checks, and of a call on the register space, every
  error of which is answered as an illegal data address.
\<close>

definition attempt :: "(ExceptionCode, 'a) outcome \<Rightarrow> SharedAddressSpace \<Rightarrow> ('a \<Rightarrow> handled) \<Rightarrow> handled" where
  "attempt m s k = (case m of Ok x \<Rightarrow> k x | Err e \<Rightarrow> (Err e, s) | Panic \<Rightarrow> (Panic, s))"

definition with_read :: "(ModbusError, 'a \<times> SharedAddressSpace) outcome \<Rightarrow> SharedAddressSpace \<Rightarrow>
    ('a \<Rightarrow> SharedAddressSpace \<Rightarrow> handled) \<Rightarrow> handled" where
  "with_read m s k = (case m of Ok (x, s') \<Rightarrow> k x s' | Err _ \<Rightarrow> (Err EC_IllegalDataAddress, s) | Panic \<Rightarrow> (Panic, s))"

definition with_write :: "(ModbusError, SharedAddressSpace) outcome \<Rightarrow> SharedAddressSpace \<Rightarrow>
    (SharedAddressSpace \<Rightarrow> handled) \<Rightarrow> handled" where
  "with_write m s k = (case m of Ok s' \<Rightarrow> k s' | Err _ \<Rightarrow> (Err EC_IllegalDataAddress, s) | Panic \<Rightarrow> (Panic, s))"


section \<open>Read handlers\<close>

definition validate_read_quantity :: "u16 \<Rightarrow> RegisterType \<Rightarrow> (ExceptionCode, unit) outcome" where
  "validate_read_quantity quantity reg_type =
    (if quantity = 0 then Err EC_IllegalDataValue
     else if RegisterType_max_read_quantity reg_type < quantity then Err EC_IllegalDataValue
     else Ok ())"

text \<open>\<^verbatim>\<open>for (i, &coil) in coils.iter().enumerate() { if coil { bytes[i / 8] |= 1 << (i % 8) } }\<close>\<close>

fun pack_into :: "nat \<Rightarrow> bool list \<Rightarrow> bytes \<Rightarrow> ('e, bytes) outcome" where
  "pack_into i [] bytes = Ok bytes"
| "pack_into i (coil # coils) bytes =
    (if coil then obind (idx bytes (i div 8)) (\<lambda>b.
       pack_into (i + 1) coils (bytes[i div 8 := b OR push_bit (i mod 8) 1]))
     else pack_into (i + 1) coils bytes)"

definition bits_response :: "u8 \<Rightarrow> u16 \<Rightarrow> bool list \<Rightarrow> ('e, bytes) outcome" where
  "bits_response function_code quantity coils =
    (let byte_count = as_u8 (div_ceil (unat quantity) 8) in
     obind (pack_into 0 coils (replicate (unat byte_count) 0)) (\<lambda>bytes.
     Ok ([function_code, byte_count] @ bytes)))"

definition u16_mul :: "u16 \<Rightarrow> u16 \<Rightarrow> ('e, u16) outcome" where
  "u16_mul a b = (if unat a * unat b < 65536 then Ok (a * b) else Panic)"

definition registers_response :: "u8 \<Rightarrow> u16 \<Rightarrow> u16 list \<Rightarrow> ('e, bytes) outcome" where
  "registers_response function_code quantity values =
     obind (u16_mul quantity 2) (\<lambda>n. Ok ([function_code, as_u8 (unat n)] @ be16_bytes values))"

definition ReadCoilsHandler :: FunctionHandler where
  "ReadCoilsHandler = \<lparr>
     fh_function_code = 0x01,
     fh_handle = (\<lambda>pdu ctx s.
       attempt (validate_pdu_length 5 pdu) s (\<lambda>_.
       attempt (parse_address pdu 1) s (\<lambda>address.
       attempt (parse_quantity pdu 3) s (\<lambda>quantity.
       attempt (validate_read_quantity quantity RT_Coil) s (\<lambda>_.
       with_read (as_read_coils dyn_AddressSpace s address quantity) s (\<lambda>coils s.
       (bits_response 0x01 quantity coils, s))))))),
     fh_name = ''Read Coils'',
     fh_min_pdu_length = 5,
     fh_supports_broadcast = False\<rparr>"

definition ReadDiscreteInputsHandler :: FunctionHandler where
  "ReadDiscreteInputsHandler = \<lparr>
     fh_function_code = 0x02,
     fh_handle = (\<lambda>pdu ctx s.
       attempt (validate_pdu_length 5 pdu) s (\<lambda>_.
       attempt (parse_address pdu 1) s (\<lambda>address.
       attempt (parse_quantity pdu 3) s (\<lambda>quantity.
       attempt (validate_read_quantity quantity RT_DiscreteInput) s (\<lambda>_.
       with_read (as_read_discrete_inputs dyn_AddressSpace s address quantity) s (\<lambda>inputs s.
       (bits_response 0x02 quantity inputs, s))))))),
     fh_name = ''Read Discrete Inputs'',
     fh_min_pdu_length = 5,
     fh_supports_broadcast = False\<rparr>"

definition ReadHoldingRegistersHandler :: FunctionHandler where
  "ReadHoldingRegistersHandler = \<lparr>
     fh_function_code = 0x03,
     fh_handle = (\<lambda>pdu ctx s.
       attempt (validate_pdu_length 5 pdu) s (\<lambda>_.
       attempt (parse_address pdu 1) s (\<lambda>address.
       attempt (parse_quantity pdu 3) s (\<lambda>quantity.
       attempt (validate_read_quantity quantity RT_HoldingRegister) s (\<lambda>_.
       with_read (as_read_holding_registers dyn_AddressSpace s address quantity) s (\<lambda>values s.
       (registers_response 0x03 quantity values, s))))))),
     fh_name = ''Read Holding Registers'',
     fh_min_pdu_length = 5,
     fh_supports_broadcast = False\<rparr>"

definition ReadInputRegistersHandler :: FunctionHandler where
  "ReadInputRegistersHandler = \<lparr>
     fh_function_code = 0x04,
     fh_handle = (\<lambda>pdu ctx s.
       attempt (validate_pdu_length 5 pdu) s (\<lambda>_.
       attempt (parse_address pdu 1) s (\<lambda>address.
       attempt (parse_quantity pdu 3) s (\<lambda>quantity.
       attempt (validate_read_quantity quantity RT_InputRegister) s (\<lambda>_.
       with_read (as_read_input_registers dyn_AddressSpace s address quantity) s (\<lambda>values s.
       (registers_response 0x04 quantity values, s))))))),
     fh_name = ''Read Input Registers'',
     fh_min_pdu_length = 5,
     fh_supports_broadcast = False\<rparr>"


section \<open>Write handlers\<close>

definition validate_write_quantity :: "u16 \<Rightarrow> RegisterType \<Rightarrow> (ExceptionCode, unit) outcome" where
  "validate_write_quantity quantity reg_type =
    (if quantity = 0 then Err EC_IllegalDataValue
     else if RegisterType_max_write_quantity reg_type < quantity then Err EC_IllegalDataValue
     else Ok ())"

definition ensure :: "bool \<Rightarrow> (ExceptionCode, unit) outcome" where
  "ensure ok = (if ok then Ok () else Err EC_IllegalDataValue)"

definition WriteSingleCoilHandler :: FunctionHandler where
  "WriteSingleCoilHandler = \<lparr>
     fh_function_code = 0x05,
     fh_handle = (\<lambda>pdu ctx s.
       attempt (validate_pdu_length 5 pdu) s (\<lambda>_.
       attempt (parse_address pdu 1) s (\<lambda>address.
       attempt (be16_at pdu 3) s (\<lambda>value.
       attempt (ensure (\<not> (value \<noteq> 0x0000 \<and> value \<noteq> 0xFF00))) s (\<lambda>_.
       with_write (as_write_coil dyn_AddressSpace s address (value = 0xFF00)) s (\<lambda>s.
       (Ok pdu, s))))))),
     fh_name = ''Write Single Coil'',
     fh_min_pdu_length = 5,
     fh_supports_broadcast = True\<rparr>"

definition WriteSingleRegisterHandler :: FunctionHandler where
  "WriteSingleRegisterHandler = \<lparr>
     fh_function_code = 0x06,
     fh_handle = (\<lambda>pdu ctx s.
       attempt (validate_pdu_length 5 pdu) s (\<lambda>_.
       attempt (parse_address pdu 1) s (\<lambda>address.
       attempt (be16_at pdu 3) s (\<lambda>value.
       with_write (as_write_holding_register dyn_AddressSpace s address value) s (\<lambda>s.
       (Ok pdu, s)))))),
     fh_name = ''Write Single Register'',
     fh_min_pdu_length = 5,
     fh_supports_broadcast = True\<rparr>"

definition WriteMultipleCoilsHandler :: FunctionHandler where
  "WriteMultipleCoilsHandler = \<lparr>
     fh_function_code = 0x0F,
     fh_handle = (\<lambda>pdu ctx s.
       attempt (validate_pdu_length 6 pdu) s (\<lambda>_.
       attempt (parse_address pdu 1) s (\<lambda>address.
       attempt (parse_quantity pdu 3) s (\<lambda>quantity.
       attempt (validate_write_quantity quantity RT_Coil) s (\<lambda>_.
       attempt (idx pdu 5) s (\<lambda>count.
       let expected_bytes = div_ceil (unat quantity) 8; byte_count = unat count in
       attempt (ensure (byte_count = expected_bytes)) s (\<lambda>_.
       attempt (ensure (6 + byte_count \<le> length pdu)) s (\<lambda>_.
       attempt (slice_range pdu 6 (6 + byte_count)) s (\<lambda>data.
       attempt (core_unpack_bits data (unat quantity)) s (\<lambda>coils.
       with_write (as_write_coils dyn_AddressSpace s address coils) s (\<lambda>s.
       (Ok ([0x0F] @ u16_to_be address @ u16_to_be quantity), s)))))))))))),
     fh_name = ''Write Multiple Coils'',
     fh_min_pdu_length = 6,
     fh_supports_broadcast = True\<rparr>"

text \<open>\<^verbatim>\<open>for i in 0..n { values.push(u16::from_be_bytes([data[i * 2], data[i * 2 + 1]])) }\<close>\<close>

definition words_of :: "bytes \<Rightarrow> u16 \<Rightarrow> ('e, u16 list) outcome" where
  "words_of data n = omap (\<lambda>i. be16_at data (i * 2)) [0..<unat n]"

definition WriteMultipleRegistersHandler :: FunctionHandler where
  "WriteMultipleRegistersHandler = \<lparr>
     fh_function_code = 0x10,
     fh_handle = (\<lambda>pdu ctx s.
       attempt (validate_pdu_length 6 pdu) s (\<lambda>_.
       attempt (parse_address pdu 1) s (\<lambda>address.
       attempt (parse_quantity pdu 3) s (\<lambda>quantity.
       attempt (validate_write_quantity quantity RT_HoldingRegister) s (\<lambda>_.
       attempt (u16_mul quantity 2) s (\<lambda>expected.
       attempt (idx pdu 5) s (\<lambda>count.
       let expected_bytes = unat expected; byte_count = unat count in
       attempt (ensure (byte_count = expected_bytes)) s (\<lambda>_.
       attempt (ensure (6 + byte_count \<le> length pdu)) s (\<lambda>_.
       attempt (slice_range pdu 6 (6 + byte_count)) s (\<lambda>data.
       attempt (words_of data quantity) s (\<lambda>values.
       with_write (as_write_holding_registers dyn_AddressSpace s address values) s (\<lambda>s.
       (Ok ([0x10] @ u16_to_be address @ u16_to_be quantity), s))))))))))))),
     fh_name = ''Write Multiple Registers'',
     fh_min_pdu_length = 6,
     fh_supports_broadcast = True\<rparr>"

definition ReadWriteMultipleRegistersHandler :: FunctionHandler where
  "ReadWriteMultipleRegistersHandler = \<lparr>
     fh_function_code = 0x17,
     fh_handle = (\<lambda>pdu ctx s.
       attempt (validate_pdu_length 10 pdu) s (\<lambda>_.
       attempt (parse_address pdu 1) s (\<lambda>read_address.
       attempt (parse_quantity pdu 3) s (\<lambda>read_quantity.
       attempt (parse_address pdu 5) s (\<lambda>write_address.
       attempt (parse_quantity pdu 7) s (\<lambda>write_quantity.
       attempt (ensure (\<not> (read_quantity = 0 \<or> 125 < read_quantity))) s (\<lambda>_.
       attempt (ensure (\<not> (write_quantity = 0 \<or> 121 < write_quantity))) s (\<lambda>_.
       attempt (u16_mul write_quantity 2) s (\<lambda>expected.
       attempt (idx pdu 9) s (\<lambda>count.
       let expected_bytes = unat expected; byte_count = unat count in
       attempt (ensure (byte_count = expected_bytes)) s (\<lambda>_.
       attempt (ensure (10 + byte_count \<le> length pdu)) s (\<lambda>_.
       attempt (slice_range pdu 10 (10 + byte_count)) s (\<lambda>data.
       attempt (words_of data write_quantity) s (\<lambda>write_values.
       with_write (as_write_holding_registers dyn_AddressSpace s write_address write_values) s (\<lambda>s.
       with_read (as_read_holding_registers dyn_AddressSpace s read_address read_quantity) s (\<lambda>read_values s.
       (registers_response 0x17 read_quantity read_values, s))))))))))))))))),
     fh_name = ''Read/Write Multiple Registers'',
     fh_min_pdu_length = 10,
     fh_supports_broadcast = False\<rparr>"

definition MaskWriteRegisterHandler :: FunctionHandler where
  "MaskWriteRegisterHandler = \<lparr>
     fh_function_code = 0x16,
     fh_handle = (\<lambda>pdu ctx s.
       attempt (validate_pdu_length 7 pdu) s (\<lambda>_.
       attempt (parse_address pdu 1) s (\<lambda>address.
       attempt (be16_at pdu 3) s (\<lambda>and_mask.
       attempt (be16_at pdu 5) s (\<lambda>or_mask.
       with_write (as_mask_write_holding_register dyn_AddressSpace s address and_mask or_mask) s (\<lambda>s.
       (Ok pdu, s))))))),
     fh_name = ''Mask Write Register'',
     fh_min_pdu_length = 7,
     fh_supports_broadcast = True\<rparr>"


section \<open>The registry\<close>

record HandlerRegistry =
  hr_handlers :: "u8 \<rightharpoonup> FunctionHandler"

definition HandlerRegistry_new :: HandlerRegistry where
  "HandlerRegistry_new = \<lparr>hr_handlers = Map.empty\<rparr>"

definition HandlerRegistry_register :: "FunctionHandler \<Rightarrow> HandlerRegistry \<Rightarrow> FunctionHandler option \<times> HandlerRegistry" where
  "HandlerRegistry_register handler r =
    (let fc = fh_function_code handler in
     (hr_handlers r fc, r\<lparr>hr_handlers := (hr_handlers r)(fc \<mapsto> handler)\<rparr>))"

definition HandlerRegistry_unregister :: "u8 \<Rightarrow> HandlerRegistry \<Rightarrow> FunctionHandler option \<times> HandlerRegistry" where
  "HandlerRegistry_unregister function_code r =
     (hr_handlers r function_code, r\<lparr>hr_handlers := (hr_handlers r)(function_code := None)\<rparr>)"

definition HandlerRegistry_get :: "HandlerRegistry \<Rightarrow> u8 \<Rightarrow> FunctionHandler option" where
  "HandlerRegistry_get r function_code = hr_handlers r function_code"

definition HandlerRegistry_with_defaults :: HandlerRegistry where
  "HandlerRegistry_with_defaults =
     fold (\<lambda>h r. snd (HandlerRegistry_register h r))
       [ReadCoilsHandler, ReadDiscreteInputsHandler, ReadHoldingRegistersHandler, ReadInputRegistersHandler,
        WriteSingleCoilHandler, WriteSingleRegisterHandler, WriteMultipleCoilsHandler,
        WriteMultipleRegistersHandler, ReadWriteMultipleRegistersHandler, MaskWriteRegisterHandler]
       HandlerRegistry_new"

definition function_supports_broadcast :: "u8 \<Rightarrow> FunctionHandler option \<Rightarrow> bool" where
  "function_supports_broadcast function_code handler =
    (case handler of
       Some handler \<Rightarrow> fh_supports_broadcast handler
     | None \<Rightarrow> (case FunctionCode_try_from function_code of
         Ok f \<Rightarrow> f \<in> {FC_WriteSingleCoil, FC_WriteSingleRegister, FC_WriteMultipleCoils,
                     FC_WriteMultipleRegisters, FC_MaskWriteRegister}
       | _ \<Rightarrow> False))"

definition HandlerRegistry_dispatch :: "HandlerRegistry \<Rightarrow> bytes \<Rightarrow> HandlerContext \<Rightarrow> SharedAddressSpace \<Rightarrow> handled" where
  "HandlerRegistry_dispatch r pdu ctx s =
    (case pdu of
       [] \<Rightarrow> (Err EC_IllegalFunction, s)
     | function_code # _ \<Rightarrow>
        (case hr_handlers r function_code of
           Some handler \<Rightarrow>
             if hc_unit_id ctx = 0 \<and> \<not> function_supports_broadcast function_code (Some handler)
             then (Err EC_IllegalFunction, s)
             else if length pdu < fh_min_pdu_length handler then (Err EC_IllegalDataValue, s)
             else fh_handle handler pdu ctx s
         | None \<Rightarrow> (Err EC_IllegalFunction, s)))"


section \<open>The handlers answer as the semantic core\<close>

lemma attempt_simps [simp]:
  "attempt (Ok x) s k = k x" "attempt (Err e) s k = (Err e, s)" "attempt Panic s k = (Panic, s)"
  by (simp_all add: attempt_def)

lemma ensure_simps [simp]: "ensure True = Ok ()" "ensure False = Err EC_IllegalDataValue"
  by (simp_all add: ensure_def)

lemma pack_into_eq:
  "i + length coils \<le> 8 * length bytes \<Longrightarrow> pack_into i coils bytes = Ok (pack_loop i coils bytes)"
proof (induction i coils bytes rule: pack_into.induct)
  case (2 i coil coils bytes)
  then have "i div 8 < length bytes" by (simp add: less_mult_imp_div_less mult.commute)
  then show ?case using 2 by (simp add: idx_def)
qed simp

lemma bits_response_eq:
  assumes "length coils = unat q" "unat q \<le> 2000" "FunctionCode_as_u8 f = fc"
  shows "bits_response fc q coils = Ok (response_payload (SP_Bits f coils))"
proof -
  have "(unat q + 7) div 8 \<le> 250" using assms(2) by linarith
  then have "unat (as_u8 ((unat q + 7) div 8)) = (unat q + 7) div 8" by (intro unat_as_u8) simp
  moreover have "unat q \<le> 8 * ((unat q + 7) div 8)" by simp
  ultimately show ?thesis using assms
    by (simp add: bits_response_def div_ceil_8 Let_def pack_into_eq core_pack_bits_def)
qed

lemma u16_double: "unat q \<le> 125 \<Longrightarrow> u16_mul q 2 = Ok (q * 2)" "unat q \<le> 125 \<Longrightarrow> unat (q * 2) = unat q * 2"
  by (simp_all add: u16_mul_def unat_word_ariths)

lemma registers_response_eq:
  assumes "length values = unat q" "unat q \<le> 125" "FunctionCode_as_u8 f = fc"
  shows "registers_response fc q values = Ok (response_payload (SP_Registers f values))"
proof -
  have "as_u8 (unat (q * 2)) = as_u8 (length values * 2)" using assms u16_double(2) by metis
  then show ?thesis using assms by (simp add: registers_response_def u16_double(1))
qed

lemma words_of_eq:
  assumes "length data = 2 * unat n"
  shows "words_of data n = Ok (be16_chunks data)"
proof -
  have chunk: "be16_chunks bs ! i = u16_of_be (bs ! (i * 2)) (bs ! (i * 2 + 1))" if "i < length bs div 2" for bs i
    using that
  proof (induction bs arbitrary: i rule: be16_chunks.induct)
    case (1 a b bs)
    then show ?case by (cases i) simp_all
  qed simp_all
  have "words_of data n = Ok (map (\<lambda>i. be16_chunks data ! i) [0..<unat n])"
    unfolding words_of_def using assms chunk [of _ data] by (intro omap_Ok) (auto simp: be16_at_Ok)
  also have "map (\<lambda>i. be16_chunks data ! i) [0..<unat n] = be16_chunks data"
    using assms map_nth [of "be16_chunks data"] by simp
  finally show ?thesis .
qed

text \<open>The answer of the semantic core as a handler gives it.\<close>

fun answered :: "(SemanticFailure, SemanticResponse) outcome \<times> SharedAddressSpace \<Rightarrow> handled" where
  "answered (Ok r, s) = (Ok (response_payload r), s)"
| "answered (Err f, s) = (Err (SemanticFailure_exception_code f), s)"
| "answered (Panic, s) = (Panic, s)"

lemma read_answered:
  assumes "reads_cells dyn_good dyn_view dyn_admits t sel op" "dyn_good s" "unat q \<le> 2000"
    and "\<And>vs. length vs = unat q \<Longrightarrow> resp vs = Ok (response_payload (f vs))"
  shows "with_read (op s a q) s (\<lambda>vs s. (resp vs, s)) = answered (run_read (op s a q) f s)"
  using assms(1) [unfolded reads_cells_def, rule_format, of s q a] assms(2-)
  by (auto simp: with_read_def rejects_def split: if_splits)

lemma write_answered:
  assumes "(\<exists>s'. m = Ok s') \<or> rejects m"
  shows "with_write m s (\<lambda>s. (Ok (response_payload r), s)) = answered (run_write m r s)"
  using assms by (auto simp: with_write_def rejects_def)

lemma shared_write_cases:
  "dyn_good s \<Longrightarrow> (\<exists>s'. as_write_coil dyn_AddressSpace s a b = Ok s') \<or> rejects (as_write_coil dyn_AddressSpace s a b)"
  "dyn_good s \<Longrightarrow> (\<exists>s'. as_write_holding_register dyn_AddressSpace s a w = Ok s') \<or>
     rejects (as_write_holding_register dyn_AddressSpace s a w)"
  "dyn_good s \<Longrightarrow> length bs \<le> 2000 \<Longrightarrow> (\<exists>s'. as_write_coils dyn_AddressSpace s a bs = Ok s') \<or>
     rejects (as_write_coils dyn_AddressSpace s a bs)"
  "dyn_good s \<Longrightarrow> length ws \<le> 2000 \<Longrightarrow> (\<exists>s'. as_write_holding_registers dyn_AddressSpace s a ws = Ok s' \<and> dyn_good s') \<or>
     rejects (as_write_holding_registers dyn_AddressSpace s a ws)"
  "dyn_good s \<Longrightarrow> (\<exists>s'. as_mask_write_holding_register dyn_AddressSpace s a m n = Ok s') \<or>
     rejects (as_mask_write_holding_register dyn_AddressSpace s a m n)"
  using shared.write_coil [unfolded writes_cell_def, rule_format, of s a b]
    shared.write_holding [unfolded writes_cell_def, rule_format, of s a w]
    shared.write_coils [unfolded writes_cells_def, rule_format, of s bs a]
    shared.write_holdings [unfolded writes_cells_def, rule_format, of s ws a]
    shared.mask_write [unfolded masks_cell_def, rule_format, of s a m n]
  by (auto split: if_splits)

lemmas standard_handlers = ReadCoilsHandler_def ReadDiscreteInputsHandler_def ReadHoldingRegistersHandler_def
  ReadInputRegistersHandler_def WriteSingleCoilHandler_def WriteSingleRegisterHandler_def WriteMultipleCoilsHandler_def
  WriteMultipleRegistersHandler_def ReadWriteMultipleRegistersHandler_def MaskWriteRegisterHandler_def

lemma default_handlers [simp]:
  "hr_handlers HandlerRegistry_with_defaults 0x01 = Some ReadCoilsHandler"
  "hr_handlers HandlerRegistry_with_defaults 0x02 = Some ReadDiscreteInputsHandler"
  "hr_handlers HandlerRegistry_with_defaults 0x03 = Some ReadHoldingRegistersHandler"
  "hr_handlers HandlerRegistry_with_defaults 0x04 = Some ReadInputRegistersHandler"
  "hr_handlers HandlerRegistry_with_defaults 0x05 = Some WriteSingleCoilHandler"
  "hr_handlers HandlerRegistry_with_defaults 0x06 = Some WriteSingleRegisterHandler"
  "hr_handlers HandlerRegistry_with_defaults 0x0F = Some WriteMultipleCoilsHandler"
  "hr_handlers HandlerRegistry_with_defaults 0x10 = Some WriteMultipleRegistersHandler"
  "hr_handlers HandlerRegistry_with_defaults 0x16 = Some MaskWriteRegisterHandler"
  "hr_handlers HandlerRegistry_with_defaults 0x17 = Some ReadWriteMultipleRegistersHandler"
  by (simp_all add: HandlerRegistry_with_defaults_def HandlerRegistry_register_def HandlerRegistry_new_def Let_def
      standard_handlers)

lemmas handler_parse_defs = validate_pdu_length_def parse_address_def parse_quantity_def be16_at_def idx_def
  validate_read_quantity_def validate_write_quantity_def RegisterType_max_read_quantity_def
  RegisterType_max_write_quantity_def RegisterType_is_bit_type_def u16_to_be_def

lemma quantity_bounds:
  "span_ok a (unat q) mx \<Longrightarrow> q \<noteq> 0"
  "span_ok a (unat q) 2000 \<Longrightarrow> \<not> 2000 < q"
  "span_ok a (unat q) 125 \<Longrightarrow> \<not> 125 < q"
  for q :: u16 by (auto simp: span_ok_def word_less_nat_alt)

lemma handle_ReadCoils:
  assumes "dyn_good s" "span_ok a (unat q) 2000"
  shows "fh_handle ReadCoilsHandler (request_wire (SR_ReadCoils a q)) ctx s =
    answered (execute_builtin dyn_AddressSpace (SR_ReadCoils a q) s)"
proof -
  have "unat q \<le> 2000" using assms(2) by (simp add: span_ok_def)
  then have "with_read (as_read_coils dyn_AddressSpace s a q) s (\<lambda>vs s. (bits_response 0x01 q vs, s)) =
    answered (run_read (as_read_coils dyn_AddressSpace s a q) (SP_Bits FC_ReadCoils) s)"
    using assms(1) by (intro read_answered [OF shared.read_coils] bits_response_eq) simp_all
  then show ?thesis using quantity_bounds(1,2) [OF assms(2)]
    by (simp add: ReadCoilsHandler_def handler_parse_defs)
qed

lemma handle_ReadDiscreteInputs:
  assumes "dyn_good s" "span_ok a (unat q) 2000"
  shows "fh_handle ReadDiscreteInputsHandler (request_wire (SR_ReadDiscreteInputs a q)) ctx s =
    answered (execute_builtin dyn_AddressSpace (SR_ReadDiscreteInputs a q) s)"
proof -
  have "unat q \<le> 2000" using assms(2) by (simp add: span_ok_def)
  then have "with_read (as_read_discrete_inputs dyn_AddressSpace s a q) s (\<lambda>vs s. (bits_response 0x02 q vs, s)) =
    answered (run_read (as_read_discrete_inputs dyn_AddressSpace s a q) (SP_Bits FC_ReadDiscreteInputs) s)"
    using assms(1) by (intro read_answered [OF shared.read_discrete] bits_response_eq) simp_all
  then show ?thesis using quantity_bounds(1,2) [OF assms(2)]
    by (simp add: ReadDiscreteInputsHandler_def handler_parse_defs)
qed

lemma handle_ReadHoldingRegisters:
  assumes "dyn_good s" "span_ok a (unat q) 125"
  shows "fh_handle ReadHoldingRegistersHandler (request_wire (SR_ReadHoldingRegisters a q)) ctx s =
    answered (execute_builtin dyn_AddressSpace (SR_ReadHoldingRegisters a q) s)"
proof -
  have "unat q \<le> 125" using assms(2) by (simp add: span_ok_def)
  then have "with_read (as_read_holding_registers dyn_AddressSpace s a q) s (\<lambda>vs s. (registers_response 0x03 q vs, s)) =
    answered (run_read (as_read_holding_registers dyn_AddressSpace s a q) (SP_Registers FC_ReadHoldingRegisters) s)"
    using assms(1) by (intro read_answered [OF shared.read_holding] registers_response_eq) simp_all
  then show ?thesis using quantity_bounds(1,3) [OF assms(2)]
    by (simp add: ReadHoldingRegistersHandler_def handler_parse_defs)
qed

lemma handle_ReadInputRegisters:
  assumes "dyn_good s" "span_ok a (unat q) 125"
  shows "fh_handle ReadInputRegistersHandler (request_wire (SR_ReadInputRegisters a q)) ctx s =
    answered (execute_builtin dyn_AddressSpace (SR_ReadInputRegisters a q) s)"
proof -
  have "unat q \<le> 125" using assms(2) by (simp add: span_ok_def)
  then have "with_read (as_read_input_registers dyn_AddressSpace s a q) s (\<lambda>vs s. (registers_response 0x04 q vs, s)) =
    answered (run_read (as_read_input_registers dyn_AddressSpace s a q) (SP_Registers FC_ReadInputRegisters) s)"
    using assms(1) by (intro read_answered [OF shared.read_input] registers_response_eq) simp_all
  then show ?thesis using quantity_bounds(1,3) [OF assms(2)]
    by (simp add: ReadInputRegistersHandler_def handler_parse_defs)
qed

lemma handle_single_writes:
  assumes "dyn_good s"
  shows "fh_handle WriteSingleCoilHandler (request_wire (SR_WriteSingleCoil a b)) ctx s =
      answered (execute_builtin dyn_AddressSpace (SR_WriteSingleCoil a b) s)"
    and "fh_handle WriteSingleRegisterHandler (request_wire (SR_WriteSingleRegister a w)) ctx s =
      answered (execute_builtin dyn_AddressSpace (SR_WriteSingleRegister a w) s)"
    and "fh_handle MaskWriteRegisterHandler (request_wire (SR_MaskWriteRegister a m n)) ctx s =
      answered (execute_builtin dyn_AddressSpace (SR_MaskWriteRegister a m n) s)"
  using write_answered [OF shared_write_cases(1) [OF assms, of a b], of s "SP_WriteSingleCoilAck a b"]
    write_answered [OF shared_write_cases(2) [OF assms, of a w], of s "SP_WriteSingleRegisterAck a w"]
    write_answered [OF shared_write_cases(5) [OF assms, of a m n], of s "SP_MaskWriteAck a m n"]
  by (cases b; simp add: standard_handlers handler_parse_defs)+

lemma length_words:
  assumes "span_ok a (length vs) mx" "mx \<le> 2000"
  shows "unat (as_u16 (length vs)) = length vs" "as_u16 (length vs) \<noteq> 0"
    "mx = 1968 \<Longrightarrow> \<not> 1968 < as_u16 (length vs)" "mx = 123 \<Longrightarrow> \<not> 123 < as_u16 (length vs)"
    "mx = 121 \<Longrightarrow> \<not> 121 < as_u16 (length vs)"
proof -
  show n: "unat (as_u16 (length vs)) = length vs" using assms by (intro unat_as_u16) (simp add: span_ok_def)
  then show "as_u16 (length vs) \<noteq> 0" using assms(1) by (auto simp: span_ok_def)
  show "mx = 1968 \<Longrightarrow> \<not> 1968 < as_u16 (length vs)" "mx = 123 \<Longrightarrow> \<not> 123 < as_u16 (length vs)"
    "mx = 121 \<Longrightarrow> \<not> 121 < as_u16 (length vs)"
    using assms(1) n by (auto simp: span_ok_def word_less_nat_alt)
qed

lemma core_unpack_packed: "core_unpack_bits (pack_bits vs) (length vs) = Ok vs"
proof -
  have "length vs \<le> 8 * ((length vs + 7) div 8)" by presburger
  then show ?thesis using core_unpack_bits_eq [of "length vs" "pack_bits vs"] by (simp add: unpack_pack_bits)
qed

lemma handle_WriteMultipleCoils:
  assumes "dyn_good s" "span_ok a (length vs) 1968"
  shows "fh_handle WriteMultipleCoilsHandler (request_wire (SR_WriteMultipleCoils a vs)) ctx s =
    answered (execute_builtin dyn_AddressSpace (SR_WriteMultipleCoils a vs) s)"
proof -
  note n = length_words [OF assms(2), simplified]
  have "length vs \<le> 1968" using assms(2) by (simp add: span_ok_def)
  then have "(length vs + 7) div 8 \<le> 246" by linarith
  then have bc: "unat (as_u8 ((length vs + 7) div 8)) = (length vs + 7) div 8" by (intro unat_as_u8) simp
  show ?thesis
    using n bc write_answered [OF shared_write_cases(3) [OF assms(1), of vs a], of s
        "SP_WriteMultipleAck FC_WriteMultipleCoils a (as_u16 (length vs))"] \<open>length vs \<le> 1968\<close>
    by (simp add: WriteMultipleCoilsHandler_def handler_parse_defs Let_def div_ceil_8 slice_range_def
        core_unpack_packed)
qed

lemma handle_WriteMultipleRegisters:
  assumes "dyn_good s" "span_ok a (length vs) 123"
  shows "fh_handle WriteMultipleRegistersHandler (request_wire (SR_WriteMultipleRegisters a vs)) ctx s =
    answered (execute_builtin dyn_AddressSpace (SR_WriteMultipleRegisters a vs) s)"
proof -
  note n = length_words [OF assms(2), simplified]
  have le: "length vs \<le> 123" using assms(2) by (simp add: span_ok_def)
  then have bc: "unat (as_u8 (2 * length vs)) = 2 * length vs" by (intro unat_as_u8) simp
  note dbl = u16_double [of "as_u16 (length vs)", unfolded n(1)]
  show ?thesis
    using n bc le write_answered [of "as_write_holding_registers dyn_AddressSpace s a vs" s
        "SP_WriteMultipleAck FC_WriteMultipleRegisters a (as_u16 (length vs))"] shared_write_cases(4) [OF assms(1), of vs a]
    by (auto simp: WriteMultipleRegistersHandler_def handler_parse_defs Let_def slice_range_def words_of_eq dbl)
qed

lemma handle_ReadWriteMultipleRegisters:
  assumes "dyn_good s" "span_ok a (unat q) 125" "span_ok b (length vs) 121"
  shows "fh_handle ReadWriteMultipleRegistersHandler (request_wire (SR_ReadWriteMultipleRegisters a q b vs)) ctx s =
    answered (execute_builtin dyn_AddressSpace (SR_ReadWriteMultipleRegisters a q b vs) s)"
proof -
  note n = length_words [OF assms(3), simplified]
  have le: "length vs \<le> 121" "unat q \<le> 125" using assms(2,3) by (simp_all add: span_ok_def)
  then have bc: "unat (as_u8 (2 * length vs)) = 2 * length vs" by (intro unat_as_u8) simp
  note dbl = u16_double [of "as_u16 (length vs)", unfolded n(1)]
  let ?w = "as_write_holding_registers dyn_AddressSpace s b vs"
  have read: "with_read (as_read_holding_registers dyn_AddressSpace s' a q) s' (\<lambda>vs s. (registers_response 0x17 q vs, s)) =
    answered (run_read (as_read_holding_registers dyn_AddressSpace s' a q) (SP_Registers FC_ReadWriteMultipleRegisters) s')"
    if "dyn_good s'" for s'
    using that le by (intro read_answered [OF shared.read_holding] registers_response_eq) simp_all
  have "fh_handle ReadWriteMultipleRegistersHandler (request_wire (SR_ReadWriteMultipleRegisters a q b vs)) ctx s =
    with_write ?w s (\<lambda>s'. with_read (as_read_holding_registers dyn_AddressSpace s' a q) s'
      (\<lambda>vs s. (registers_response 0x17 q vs, s)))"
    using n bc le quantity_bounds(1,3) [OF assms(2)]
    by (auto simp: ReadWriteMultipleRegistersHandler_def handler_parse_defs Let_def slice_range_def words_of_eq dbl)
  also have "\<dots> = answered (execute_builtin dyn_AddressSpace (SR_ReadWriteMultipleRegisters a q b vs) s)"
    using shared_write_cases(4) [OF assms(1), of vs b] le read
    by (auto simp: with_write_def rejects_def)
  finally show ?thesis .
qed

lemma dispatch_standard:
  assumes "hr_handlers HandlerRegistry_with_defaults fc = Some h" "fh_min_pdu_length h \<le> length (fc # payload)"
    and "hc_unit_id ctx = 0 \<longrightarrow> fh_supports_broadcast h"
  shows "HandlerRegistry_dispatch HandlerRegistry_with_defaults (fc # payload) ctx s = fh_handle h (fc # payload) ctx s"
  using assms by (auto simp: HandlerRegistry_dispatch_def function_supports_broadcast_def)

lemma handler_fields:
  "fh_min_pdu_length ReadCoilsHandler = 5" "fh_min_pdu_length ReadDiscreteInputsHandler = 5"
  "fh_min_pdu_length ReadHoldingRegistersHandler = 5" "fh_min_pdu_length ReadInputRegistersHandler = 5"
  "fh_min_pdu_length WriteSingleCoilHandler = 5" "fh_min_pdu_length WriteSingleRegisterHandler = 5"
  "fh_min_pdu_length WriteMultipleCoilsHandler = 6" "fh_min_pdu_length WriteMultipleRegistersHandler = 6"
  "fh_min_pdu_length MaskWriteRegisterHandler = 7" "fh_min_pdu_length ReadWriteMultipleRegistersHandler = 10"
  "fh_supports_broadcast WriteSingleCoilHandler" "fh_supports_broadcast WriteSingleRegisterHandler"
  "fh_supports_broadcast WriteMultipleCoilsHandler" "fh_supports_broadcast WriteMultipleRegistersHandler"
  "fh_supports_broadcast MaskWriteRegisterHandler"
  by (simp_all add: standard_handlers)



end
