(* ===== verification/Modbus_Service.thy ===== *)
theory Modbus_Service
  imports Modbus_Handler
begin

text \<open>
  The server side between a transport and the register spaces: the registry of units and the
  broadcast policy (\<^verbatim>\<open>context.rs\<close>), the service that executes a data unit on its targets with
  the registry of custom functions (\<^verbatim>\<open>service.rs\<close>), and the request skeleton that the TCP and
  the RTU server share (\<^verbatim>\<open>transport_runtime.rs\<close>). Units may share a register space, so a space is
  named by the identity of its shared pointer and \<open>spaces\<close> holds what each of them contains.
\<close>

type_synonym spaces = "nat \<Rightarrow> SharedAddressSpace"

section \<open>Units and targets\<close>

datatype BroadcastPolicy = BP_WriteAll | BP_Disabled | BP_SelectiveList "u8 list" | BP_EchoToUnit u8

record DeviceContext =
  dc_unit_id :: u8
  dc_name :: string
  dc_address_space :: nat
  dc_word_order :: WordOrder
  dc_response_delay :: nat
  dc_broadcast_enabled :: bool

definition DeviceContext_new :: "u8 \<Rightarrow> string \<Rightarrow> nat \<Rightarrow> WordOrder \<Rightarrow> DeviceContext" where
  "DeviceContext_new unit_id name space word_order =
     \<lparr>dc_unit_id = unit_id, dc_name = name, dc_address_space = space, dc_word_order = word_order,
      dc_response_delay = 0, dc_broadcast_enabled = True\<rparr>"

definition DeviceContext_with_response_delay :: "nat \<Rightarrow> DeviceContext \<Rightarrow> DeviceContext" where
  "DeviceContext_with_response_delay delay d = d\<lparr>dc_response_delay := delay\<rparr>"

definition DeviceContext_with_broadcast :: "bool \<Rightarrow> DeviceContext \<Rightarrow> DeviceContext" where
  "DeviceContext_with_broadcast enabled d = d\<lparr>dc_broadcast_enabled := enabled\<rparr>"

record RequestTarget =
  rt_unit_id :: u8
  rt_device :: "DeviceContext option"
  rt_address_space :: nat
  rt_word_order :: WordOrder

record ServerContext =
  sc_units :: "u8 \<rightharpoonup> DeviceContext"
  sc_default_space :: nat
  sc_broadcast_policy :: BroadcastPolicy

definition ServerContext_new :: "nat \<Rightarrow> ServerContext" where
  "ServerContext_new default_space =
     \<lparr>sc_units = Map.empty, sc_default_space = default_space, sc_broadcast_policy = BP_WriteAll\<rparr>"

definition ServerContext_register :: "DeviceContext \<Rightarrow> ServerContext \<Rightarrow> DeviceContext option \<times> ServerContext" where
  "ServerContext_register device c =
     (sc_units c (dc_unit_id device), c\<lparr>sc_units := (sc_units c)(dc_unit_id device \<mapsto> device)\<rparr>)"

definition ServerContext_remove :: "u8 \<Rightarrow> ServerContext \<Rightarrow> DeviceContext option \<times> ServerContext" where
  "ServerContext_remove unit_id c = (sc_units c unit_id, c\<lparr>sc_units := (sc_units c)(unit_id := None)\<rparr>)"

definition ServerContext_device :: "ServerContext \<Rightarrow> u8 \<Rightarrow> DeviceContext option" where
  "ServerContext_device c unit_id = sc_units c unit_id"

text \<open>\<open>ord\<close> is the order in which the concurrent map of units is iterated, each unit once.\<close>

definition iterates :: "u8 list \<Rightarrow> ServerContext \<Rightarrow> bool" where
  "iterates ord c \<longleftrightarrow> distinct ord \<and> set ord = dom (sc_units c)"

definition ServerContext_devices :: "u8 list \<Rightarrow> ServerContext \<Rightarrow> DeviceContext list" where
  "ServerContext_devices ord c = List.map_filter (sc_units c) ord"

definition ServerContext_set_default_space :: "nat \<Rightarrow> ServerContext \<Rightarrow> ServerContext" where
  "ServerContext_set_default_space default_space c = c\<lparr>sc_default_space := default_space\<rparr>"

definition ServerContext_set_broadcast_policy :: "BroadcastPolicy \<Rightarrow> ServerContext \<Rightarrow> ServerContext" where
  "ServerContext_set_broadcast_policy policy c = c\<lparr>sc_broadcast_policy := policy\<rparr>"

definition ServerContext_set_broadcast_enabled :: "bool \<Rightarrow> ServerContext \<Rightarrow> ServerContext" where
  "ServerContext_set_broadcast_enabled enabled c =
     ServerContext_set_broadcast_policy (if enabled then BP_WriteAll else BP_Disabled) c"

definition target_of_device :: "u8 \<Rightarrow> DeviceContext \<Rightarrow> RequestTarget" where
  "target_of_device unit_id device =
     \<lparr>rt_unit_id = unit_id, rt_device = Some device, rt_address_space = dc_address_space device,
      rt_word_order = dc_word_order device\<rparr>"

definition ServerContext_target_for_unit :: "ServerContext \<Rightarrow> u8 \<Rightarrow> RequestTarget option" where
  "ServerContext_target_for_unit c unit_id =
    (if unit_id = 0 then None
     else case ServerContext_device c unit_id of
       Some device \<Rightarrow> Some (target_of_device unit_id device)
     | None \<Rightarrow> None)"

definition target_broadcast_enabled :: "RequestTarget \<Rightarrow> bool" where
  "target_broadcast_enabled t = (case rt_device t of Some device \<Rightarrow> dc_broadcast_enabled device | None \<Rightarrow> False)"

definition ServerContext_broadcast_targets :: "u8 list \<Rightarrow> ServerContext \<Rightarrow> RequestTarget list" where
  "ServerContext_broadcast_targets ord c =
    (case sc_broadcast_policy c of
       BP_WriteAll \<Rightarrow> map (\<lambda>device. target_of_device (dc_unit_id device) device)
         (filter dc_broadcast_enabled (ServerContext_devices ord c))
     | BP_Disabled \<Rightarrow> []
     | BP_SelectiveList unit_ids \<Rightarrow>
         filter target_broadcast_enabled (List.map_filter (ServerContext_target_for_unit c) unit_ids)
     | BP_EchoToUnit unit_id \<Rightarrow>
        (case ServerContext_target_for_unit c unit_id of
           Some target \<Rightarrow> if target_broadcast_enabled target then [target] else []
         | None \<Rightarrow> []))"

definition ServerContext_fallback_target :: "ServerContext \<Rightarrow> u8 \<Rightarrow> RequestTarget" where
  "ServerContext_fallback_target c unit_id =
     \<lparr>rt_unit_id = unit_id, rt_device = None, rt_address_space = sc_default_space c, rt_word_order = WordOrder_default\<rparr>"


section \<open>Execution on targets\<close>

definition at_space :: "nat \<Rightarrow> (SharedAddressSpace \<Rightarrow> 'r \<times> SharedAddressSpace) \<Rightarrow> spaces \<Rightarrow> 'r \<times> spaces" where
  "at_space p f m = (case f (m p) of (r, s) \<Rightarrow> (r, m(p := s)))"

definition execute_unicast :: "SemanticRequest \<Rightarrow> RequestTarget \<Rightarrow> spaces \<Rightarrow>
    (SemanticFailure, SemanticResponse) outcome \<times> spaces" where
  "execute_unicast request target = at_space (rt_address_space target) (execute_builtin dyn_AddressSpace request)"

fun broadcast_loop :: "SemanticRequest \<Rightarrow> RequestTarget list \<Rightarrow> spaces \<Rightarrow> (SemanticFailure, unit) outcome \<times> spaces" where
  "broadcast_loop request [] m = (Ok (), m)"
| "broadcast_loop request (target # targets) m =
    (case at_space (rt_address_space target) (execute_builtin_write_only dyn_AddressSpace request) m of
       (Ok _, m) \<Rightarrow> broadcast_loop request targets m
     | (Err e, m) \<Rightarrow> (Err e, m)
     | (Panic, m) \<Rightarrow> (Panic, m))"

definition execute_broadcast :: "SemanticRequest \<Rightarrow> RequestTarget list \<Rightarrow> spaces \<Rightarrow>
    (SemanticFailure, SemanticResponse) outcome \<times> spaces" where
  "execute_broadcast request targets m =
    (case broadcast_loop request targets m of
       (Ok _, m) \<Rightarrow> (broadcast_response request, m)
     | (Err e, m) \<Rightarrow> (Err e, m)
     | (Panic, m) \<Rightarrow> (Panic, m))"


section \<open>Services\<close>

datatype ServiceTargets = ST_Unicast RequestTarget | ST_Broadcast "RequestTarget list"

record ServiceRequestView =
  sv_unit_id :: u8
  sv_transaction_id :: u16
  sv_pdu :: bytes
  sv_targets :: ServiceTargets

definition ServiceRequestView_new :: "u8 \<Rightarrow> u16 \<Rightarrow> bytes \<Rightarrow> RequestTarget \<Rightarrow> ServiceRequestView" where
  "ServiceRequestView_new unit_id transaction_id pdu target =
     \<lparr>sv_unit_id = unit_id, sv_transaction_id = transaction_id, sv_pdu = pdu, sv_targets = ST_Unicast target\<rparr>"

definition ServiceRequestView_broadcast :: "u16 \<Rightarrow> bytes \<Rightarrow> RequestTarget list \<Rightarrow> ServiceRequestView" where
  "ServiceRequestView_broadcast transaction_id pdu targets =
     \<lparr>sv_unit_id = 0, sv_transaction_id = transaction_id, sv_pdu = pdu, sv_targets = ST_Broadcast targets\<rparr>"

definition is_broadcast_targets :: "ServiceTargets \<Rightarrow> bool" where
  "is_broadcast_targets targets = (case targets of ST_Broadcast _ \<Rightarrow> True | ST_Unicast _ \<Rightarrow> False)"

record ServiceRequest =
  sq_unit_id :: u8
  sq_transaction_id :: u16
  sq_pdu :: RequestPdu
  sq_targets :: ServiceTargets

definition ServiceRequest_new :: "u8 \<Rightarrow> u16 \<Rightarrow> RequestPdu \<Rightarrow> RequestTarget \<Rightarrow> ServiceRequest" where
  "ServiceRequest_new unit_id transaction_id pdu target =
     \<lparr>sq_unit_id = unit_id, sq_transaction_id = transaction_id, sq_pdu = pdu, sq_targets = ST_Unicast target\<rparr>"

definition ServiceRequest_broadcast :: "u16 \<Rightarrow> RequestPdu \<Rightarrow> RequestTarget list \<Rightarrow> ServiceRequest" where
  "ServiceRequest_broadcast transaction_id pdu targets =
     \<lparr>sq_unit_id = 0, sq_transaction_id = transaction_id, sq_pdu = pdu, sq_targets = ST_Broadcast targets\<rparr>"

definition ServiceRequestView_to_owned :: "ServiceRequestView \<Rightarrow> (ModbusError, ServiceRequest) outcome" where
  "ServiceRequestView_to_owned v =
     obind (RequestPdu_new (sv_pdu v)) (\<lambda>pdu.
       Ok (case sv_targets v of
             ST_Unicast target \<Rightarrow> ServiceRequest_new (sv_unit_id v) (sv_transaction_id v) pdu target
           | ST_Broadcast targets \<Rightarrow> ServiceRequest_broadcast (sv_transaction_id v) pdu targets))"

datatype ServiceOutcome = SO_Reply ResponsePdu | SO_Ignore | SO_Exception ExceptionCode

text \<open>Nothing here returns an error of its own: a call ends or panics.\<close>

type_synonym 'a call = "(unit, 'a) outcome"

record ExtensionMetadata =
  em_function_code :: u8
  em_name :: string
  em_supports_broadcast :: bool

record ExtensionRequest =
  eq_function_code :: u8
  eq_payload :: bytes
  eq_transaction_id :: u16
  eq_unit_id :: u8
  eq_is_broadcast :: bool

definition ExtensionRequest_raw_pdu :: "ExtensionRequest \<Rightarrow> bytes" where
  "ExtensionRequest_raw_pdu r = eq_function_code r # eq_payload r"

record ExtensionContext =
  ec_unit_id :: u8
  ec_transaction_id :: u16
  ec_address_space :: nat
  ec_word_order :: WordOrder
  ec_is_broadcast :: bool

definition ExtensionContext_from_target :: "u8 \<Rightarrow> u16 \<Rightarrow> RequestTarget \<Rightarrow> bool \<Rightarrow> ExtensionContext" where
  "ExtensionContext_from_target unit_id transaction_id target is_broadcast =
     \<lparr>ec_unit_id = unit_id, ec_transaction_id = transaction_id, ec_address_space = rt_address_space target,
      ec_word_order = rt_word_order target, ec_is_broadcast = is_broadcast\<rparr>"

definition ExtensionContext_handler_context :: "ExtensionContext \<Rightarrow> HandlerContext" where
  "ExtensionContext_handler_context c =
     HandlerContext_with_word_order (ec_unit_id c) (ec_transaction_id c) (ec_word_order c)"

text \<open>A custom function is code of the user of the library: a handler is a parameter of the registry.\<close>

record ExtensionHandler =
  eh_function_code :: u8
  eh_metadata :: ExtensionMetadata
  eh_decode :: "bytes \<Rightarrow> u8 \<Rightarrow> u16 \<Rightarrow> bool \<Rightarrow> (ExceptionCode, ExtensionRequest) outcome"
  eh_execute :: "ExtensionRequest \<Rightarrow> ExtensionContext \<Rightarrow> spaces \<Rightarrow> ServiceOutcome call \<times> spaces"

record ExtensionRegistry =
  er_handlers :: "u8 \<rightharpoonup> ExtensionHandler"

definition ExtensionRegistry_new :: ExtensionRegistry where
  "ExtensionRegistry_new = \<lparr>er_handlers = Map.empty\<rparr>"

definition ExtensionRegistry_register ::
  "ExtensionHandler \<Rightarrow> ExtensionRegistry \<Rightarrow> ExtensionHandler option \<times> ExtensionRegistry" where
  "ExtensionRegistry_register handler r =
    (er_handlers r (eh_function_code handler),
     r\<lparr>er_handlers := (er_handlers r)(eh_function_code handler \<mapsto> handler)\<rparr>)"

definition ExtensionRegistry_unregister ::
  "u8 \<Rightarrow> ExtensionRegistry \<Rightarrow> ExtensionHandler option \<times> ExtensionRegistry" where
  "ExtensionRegistry_unregister function_code r =
     (er_handlers r function_code, r\<lparr>er_handlers := (er_handlers r)(function_code := None)\<rparr>)"

fun extension_loop :: "ExtensionHandler \<Rightarrow> u8 \<Rightarrow> u16 \<Rightarrow> ExtensionRequest \<Rightarrow> RequestTarget list \<Rightarrow> ServiceOutcome \<Rightarrow> spaces \<Rightarrow>
    ServiceOutcome call \<times> spaces" where
  "extension_loop handler unit_id transaction_id request [] outcome m = (Ok outcome, m)"
| "extension_loop handler unit_id transaction_id request (target # targets) outcome m =
    (let context = ExtensionContext_from_target unit_id transaction_id target True in
     case eh_execute handler request context m of
       (Ok (SO_Exception e), m) \<Rightarrow> (Ok (SO_Exception e), m)
     | (Ok outcome, m) \<Rightarrow> extension_loop handler unit_id transaction_id request targets outcome m
     | (r, m) \<Rightarrow> (r, m))"

definition ExtensionRegistry_dispatch :: "ExtensionRegistry \<Rightarrow> u8 \<Rightarrow> u16 \<Rightarrow> bytes \<Rightarrow> ServiceTargets \<Rightarrow> spaces \<Rightarrow>
    ServiceOutcome call \<times> spaces" where
  "ExtensionRegistry_dispatch r unit_id transaction_id raw_pdu targets m =
    (case raw_pdu of
       [] \<Rightarrow> (Ok (SO_Exception EC_IllegalDataValue), m)
     | function_code # _ \<Rightarrow>
        (case er_handlers r function_code of
           None \<Rightarrow> (Ok (SO_Exception EC_IllegalFunction), m)
         | Some handler \<Rightarrow>
            (let is_broadcast = is_broadcast_targets targets in
             case eh_decode handler raw_pdu unit_id transaction_id is_broadcast of
               Err e \<Rightarrow> (Ok (SO_Exception e), m)
             | Panic \<Rightarrow> (Panic, m)
             | Ok request \<Rightarrow>
                (case targets of
                   ST_Broadcast targets \<Rightarrow>
                     if \<not> em_supports_broadcast (eh_metadata handler) then (Ok (SO_Exception EC_IllegalFunction), m)
                     else extension_loop handler unit_id transaction_id request targets SO_Ignore m
                 | ST_Unicast target \<Rightarrow>
                     eh_execute handler request (ExtensionContext_from_target unit_id transaction_id target False) m))))"

definition LegacyExtensionHandler :: "FunctionHandler \<Rightarrow> ExtensionHandler" where
  "LegacyExtensionHandler handler = \<lparr>
     eh_function_code = fh_function_code handler,
     eh_metadata = \<lparr>em_function_code = fh_function_code handler, em_name = fh_name handler,
       em_supports_broadcast = fh_supports_broadcast handler\<rparr>,
     eh_decode = (\<lambda>raw_pdu unit_id transaction_id is_broadcast.
       if length raw_pdu < fh_min_pdu_length handler then Err EC_IllegalDataValue
       else if is_broadcast \<and> \<not> fh_supports_broadcast handler then Err EC_IllegalFunction
       else obind (case raw_pdu of [] \<Rightarrow> Err EC_IllegalDataValue | fc # _ \<Rightarrow> Ok fc) (\<lambda>function_code.
         obind (slice_from raw_pdu 1) (\<lambda>payload.
         Ok \<lparr>eq_function_code = function_code, eq_payload = payload, eq_transaction_id = transaction_id,
             eq_unit_id = unit_id, eq_is_broadcast = is_broadcast\<rparr>))),
     eh_execute = (\<lambda>request context.
       at_space (ec_address_space context) (\<lambda>s.
         case fh_handle handler (ExtensionRequest_raw_pdu request) (ExtensionContext_handler_context context) s of
           (Ok response, s) \<Rightarrow>
            (case ResponsePdu_new response of
               Ok response \<Rightarrow> (Ok (SO_Reply response), s)
             | Err e \<Rightarrow> (Ok (SO_Exception (SemanticFailure_exception_code (SemanticFailure_from_modbus_error e))), s)
             | Panic \<Rightarrow> (Panic, s))
         | (Err e, s) \<Rightarrow> (Ok (SO_Exception e), s)
         | (Panic, s) \<Rightarrow> (Panic, s)))\<rparr>"

text \<open>\<open>ord\<close> is the order in which the registry lists its function codes.\<close>

definition ExtensionRegistry_from :: "u8 list \<Rightarrow> HandlerRegistry \<Rightarrow> ExtensionRegistry" where
  "ExtensionRegistry_from ord value =
     fold (\<lambda>function_code registry.
       case HandlerRegistry_get value function_code of
         Some handler \<Rightarrow> snd (ExtensionRegistry_register (LegacyExtensionHandler handler) registry)
       | None \<Rightarrow> registry) ord ExtensionRegistry_new"

record StandardModbusService =
  sm_custom_extensions :: "ExtensionRegistry option"

definition dispatch_custom_raw :: "StandardModbusService \<Rightarrow> u8 \<Rightarrow> u16 \<Rightarrow> bytes \<Rightarrow> ServiceTargets \<Rightarrow> spaces \<Rightarrow>
    ServiceOutcome call \<times> spaces" where
  "dispatch_custom_raw svc unit_id transaction_id raw_pdu targets m =
    (case sm_custom_extensions svc of
       Some extensions \<Rightarrow> ExtensionRegistry_dispatch extensions unit_id transaction_id raw_pdu targets m
     | None \<Rightarrow> (Ok (SO_Exception EC_IllegalFunction), m))"

definition dispatch_request :: "StandardModbusService \<Rightarrow> u8 \<Rightarrow> u16 \<Rightarrow> bytes \<Rightarrow> ServiceTargets \<Rightarrow> spaces \<Rightarrow>
    ServiceOutcome call \<times> spaces" where
  "dispatch_request svc unit_id transaction_id raw_pdu targets m =
    (case raw_pdu of
       [] \<Rightarrow> (Ok (SO_Exception EC_IllegalDataValue), m)
     | function_code # _ \<Rightarrow>
       (let is_broadcast = is_broadcast_targets targets in
        case FunctionCode_try_from function_code of
          Err _ \<Rightarrow> dispatch_custom_raw svc unit_id transaction_id raw_pdu targets m
        | Panic \<Rightarrow> (Panic, m)
        | Ok _ \<Rightarrow>
         (case parse_semantic_request raw_pdu is_broadcast of
            Err e \<Rightarrow> (Ok (SO_Exception e), m)
          | Panic \<Rightarrow> (Panic, m)
          | Ok semantic \<Rightarrow>
           (case (case targets of
                    ST_Broadcast targets \<Rightarrow> execute_broadcast semantic targets m
                  | ST_Unicast target \<Rightarrow> execute_unicast semantic target m) of
              (Err e, m) \<Rightarrow> (Ok (SO_Exception (SemanticFailure_exception_code e)), m)
            | (Panic, m) \<Rightarrow> (Panic, m)
            | (Ok response, m) \<Rightarrow>
               (case SemanticResponse_encode response of
                  Ok response \<Rightarrow> (Ok (SO_Reply response), m)
                | Err _ \<Rightarrow> (Ok (SO_Exception EC_SlaveDeviceFailure), m)
                | Panic \<Rightarrow> (Panic, m))))))"

definition StandardModbusService_call :: "StandardModbusService \<Rightarrow> ServiceRequest \<Rightarrow> spaces \<Rightarrow> ServiceOutcome call \<times> spaces" where
  "StandardModbusService_call svc request m =
     dispatch_request svc (sq_unit_id request) (sq_transaction_id request) (request_bytes (sq_pdu request))
       (sq_targets request) m"

definition StandardModbusService_call_view ::
  "StandardModbusService \<Rightarrow> ServiceRequestView \<Rightarrow> spaces \<Rightarrow> ServiceOutcome call \<times> spaces" where
  "StandardModbusService_call_view svc request m =
     dispatch_request svc (sv_unit_id request) (sv_transaction_id request) (sv_pdu request) (sv_targets request) m"


section \<open>The transport skeleton\<close>

datatype TransportDisposition = TD_Reply ResponsePdu | TD_BroadcastSuppressed ResponsePdu | TD_Ignore

definition exception_response :: "u8 \<Rightarrow> ExceptionCode \<Rightarrow> ResponsePdu call" where
  "exception_response function_code code =
     or_panic (case ResponsePdu_new (build_exception_pdu function_code code) of Ok r \<Rightarrow> Some r | _ \<Rightarrow> None)"

definition into_transport_disposition :: "ServiceOutcome \<Rightarrow> u8 \<Rightarrow> bool \<Rightarrow> TransportDisposition call" where
  "into_transport_disposition outcome function_code is_broadcast =
     obind (case outcome of
         SO_Reply response \<Rightarrow> Ok (TD_Reply response)
       | SO_Ignore \<Rightarrow> Ok TD_Ignore
       | SO_Exception code \<Rightarrow> obind (exception_response function_code code) (\<lambda>response. Ok (TD_Reply response)))
     (\<lambda>disposition. Ok (if is_broadcast then
         (case disposition of
            TD_Reply response \<Rightarrow> TD_BroadcastSuppressed response
          | TD_BroadcastSuppressed response \<Rightarrow> TD_BroadcastSuppressed response
          | TD_Ignore \<Rightarrow> TD_Ignore)
       else disposition))"

datatype UnknownUnitBehavior = UU_Ignore | UU_Exception ExceptionCode

record TransportServicePolicy =
  tp_request_timeout :: "nat option"
  tp_unknown_unit_behavior :: UnknownUnitBehavior

definition TransportServicePolicy_new :: "UnknownUnitBehavior \<Rightarrow> TransportServicePolicy" where
  "TransportServicePolicy_new unknown_unit_behavior =
     \<lparr>tp_request_timeout = None, tp_unknown_unit_behavior = unknown_unit_behavior\<rparr>"

record ExecutedTransportRequest =
  tx_function_code :: u8
  tx_unit_id :: u8
  tx_timed_out :: bool
  tx_disposition :: TransportDisposition

definition executed :: "u8 \<Rightarrow> u8 \<Rightarrow> bool \<Rightarrow> TransportDisposition call \<Rightarrow> ExecutedTransportRequest call" where
  "executed function_code unit_id timed_out disposition =
     obind disposition (\<lambda>d. Ok \<lparr>tx_function_code = function_code, tx_unit_id = unit_id,
       tx_timed_out = timed_out, tx_disposition = d\<rparr>)"

text \<open>
  \<open>elapsed\<close> says whether the timer of \<^verbatim>\<open>tokio::time::timeout\<close> expires before the call is made;
  the call itself never yields, so it is made as a whole or not at all.
\<close>

definition execute_transport_request :: "bool \<Rightarrow> u8 list \<Rightarrow> StandardModbusService \<Rightarrow> ServerContext \<Rightarrow> u8 \<Rightarrow> u16 \<Rightarrow> bytes \<Rightarrow>
    TransportServicePolicy \<Rightarrow> spaces \<Rightarrow> ExecutedTransportRequest call \<times> spaces" where
  "execute_transport_request elapsed ord svc ctx unit_id transaction_id raw_pdu policy m =
    (let function_code = (case raw_pdu of [] \<Rightarrow> 0 | fc # _ \<Rightarrow> fc);
         is_broadcast = (unit_id = 0);
         finish = (\<lambda>timed_out outcome.
           executed function_code unit_id timed_out (into_transport_disposition outcome function_code is_broadcast));
         serve = (\<lambda>request.
           if tp_request_timeout policy \<noteq> None \<and> elapsed then (finish True (SO_Exception EC_SlaveDeviceBusy), m)
           else case StandardModbusService_call_view svc request m of
             (r, m) \<Rightarrow> (obind r (finish False), m))
     in if raw_pdu = [] then (finish False (SO_Exception EC_IllegalDataValue), m)
        else if is_broadcast then
          serve (ServiceRequestView_broadcast transaction_id raw_pdu (ServerContext_broadcast_targets ord ctx))
        else case ServerContext_target_for_unit ctx unit_id of
          Some target \<Rightarrow> serve (ServiceRequestView_new unit_id transaction_id raw_pdu target)
        | None \<Rightarrow> (finish False (case tp_unknown_unit_behavior policy of
              UU_Ignore \<Rightarrow> SO_Ignore
            | UU_Exception code \<Rightarrow> SO_Exception code), m))"


section \<open>Answers\<close>

lemma exception_response_eq [simp]: "exception_response fc c = Ok (ResponsePdu (build_exception_pdu fc c))"
  by (simp add: exception_response_def ResponsePdu_new_def build_exception_pdu_def ExceptionResponse_to_pdu_def)

lemma into_transport_disposition_simps [simp]:
  "into_transport_disposition (SO_Reply r) fc b = Ok (if b then TD_BroadcastSuppressed r else TD_Reply r)"
  "into_transport_disposition SO_Ignore fc b = Ok TD_Ignore"
  "into_transport_disposition (SO_Exception c) fc b =
     Ok (if b then TD_BroadcastSuppressed (ResponsePdu (build_exception_pdu fc c))
         else TD_Reply (ResponsePdu (build_exception_pdu fc c)))"
  by (simp_all add: into_transport_disposition_def)

lemma executed_Ok [simp]: "executed fc u t (Ok d) = Ok \<lparr>tx_function_code = fc, tx_unit_id = u, tx_timed_out = t, tx_disposition = d\<rparr>"
  by (simp add: executed_def)

lemma encode_payload:
  "(\<And>p. r \<noteq> SP_Custom p) \<Longrightarrow> SemanticResponse_encode r = Ok (ResponsePdu (response_payload r))"
  by (cases r) (simp_all add: SemanticResponse_encode_def ResponsePdu_new_def)

lemma device_step_result:
  "device_step adm req v = (r, v') \<Longrightarrow> r \<noteq> Panic \<and> (\<forall>x p. r = Ok x \<longrightarrow> x \<noteq> SP_Custom p)"
  by (cases req) (auto simp: spec_read_def spec_write_def Let_def split: if_splits)

text \<open>The bytes that answer a request with the result of a device.\<close>

definition reply_bytes :: "u8 \<Rightarrow> (SemanticFailure, SemanticResponse) outcome \<Rightarrow> bytes" where
  "reply_bytes fc r = (case r of
     Ok x \<Rightarrow> response_payload x
   | Err f \<Rightarrow> build_exception_pdu fc (SemanticFailure_exception_code f)
   | Panic \<Rightarrow> [])"

lemma execute_unicast_refines:
  assumes "dyn_good (m (rt_address_space t))" "request_valid req"
  obtains r m' where "execute_unicast req t m = (r, m')" "dyn_good (m' (rt_address_space t))"
    "dyn_admits (m' (rt_address_space t)) = dyn_admits (m (rt_address_space t))"
    "device_step (dyn_admits (m (rt_address_space t))) req (dyn_view (m (rt_address_space t))) =
       (r, dyn_view (m' (rt_address_space t)))"
    "\<And>p. p \<noteq> rt_address_space t \<Longrightarrow> m' p = m p"
proof -
  let ?p = "rt_address_space t"
  obtain r s' where run: "execute_builtin dyn_AddressSpace req (m ?p) = (r, s')" by (meson surj_pair)
  then have "dyn_good s'" "dyn_admits s' = dyn_admits (m ?p)"
    "device_step (dyn_admits (m ?p)) req (dyn_view (m ?p)) = (r, dyn_view s')"
    using shared.execute_refines [OF assms(1) request_valid_small [OF assms(2)]] by (simp_all add: refines_step_def)
  moreover have "execute_unicast req t m = (r, m(?p := s'))"
    using run by (simp add: execute_unicast_def at_space_def)
  ultimately show thesis by (intro that [of r "m(?p := s')"]) simp_all
qed

lemma dispatch_unicast:
  assumes "dyn_good (m (rt_address_space t))" "parse_semantic_request (fc # payload) False = Ok req"
    and "FunctionCode_try_from fc = Ok f" "request_valid req"
  obtains m' r where "dispatch_request svc u tid (fc # payload) (ST_Unicast t) m =
      (Ok (case r of Err e \<Rightarrow> SO_Exception (SemanticFailure_exception_code e) | _ \<Rightarrow> SO_Reply (ResponsePdu (reply_bytes fc r))), m')"
    "dyn_good (m' (rt_address_space t))" "r \<noteq> Panic"
    "device_step (dyn_admits (m (rt_address_space t))) req (dyn_view (m (rt_address_space t))) =
       (r, dyn_view (m' (rt_address_space t)))"
    "\<And>p. p \<noteq> rt_address_space t \<Longrightarrow> m' p = m p"
proof -
  obtain r m' where run: "execute_unicast req t m = (r, m')" "dyn_good (m' (rt_address_space t))"
    "device_step (dyn_admits (m (rt_address_space t))) req (dyn_view (m (rt_address_space t))) =
       (r, dyn_view (m' (rt_address_space t)))" "\<And>p. p \<noteq> rt_address_space t \<Longrightarrow> m' p = m p"
    using execute_unicast_refines [of m t req] assms(1,4) by metis
  have result: "r \<noteq> Panic" "\<And>x p. r = Ok x \<Longrightarrow> x \<noteq> SP_Custom p" using device_step_result [OF run(3)] by auto
  show thesis
  proof (rule that [OF _ run(2) result(1) run(3,4)])
    show "dispatch_request svc u tid (fc # payload) (ST_Unicast t) m =
      (Ok (case r of Err e \<Rightarrow> SO_Exception (SemanticFailure_exception_code e) | _ \<Rightarrow> SO_Reply (ResponsePdu (reply_bytes fc r))), m')"
      using assms(2,3) run(1) result
      by (cases r) (simp_all add: dispatch_request_def is_broadcast_targets_def encode_payload reply_bytes_def)
  qed
qed

lemma parse_standard_wire:
  assumes "request_valid req" "\<And>fc payload. req \<noteq> SR_Custom fc payload"
  shows "parse_semantic_request (request_wire req @ rest) False = Ok req"
    and "\<exists>f. FunctionCode_try_from (SemanticRequest_function_code req) = Ok f"
proof -
  show "parse_semantic_request (request_wire req @ rest) False = Ok req"
  proof -
    obtain payload where wire: "request_wire req @ rest = SemanticRequest_function_code req # payload"
      by (metis request_wire_hd append_Cons)
    show ?thesis using parse_request_wire [OF assms(1,2), of rest]
      by (simp add: wire parse_semantic_request_def)
  qed
  show "\<exists>f. FunctionCode_try_from (SemanticRequest_function_code req) = Ok f"
    using assms(2) by (cases req) (auto simp: FunctionCode_try_from_def)
qed


lemma transport_unicast:
  assumes "unit_id \<noteq> 0" "sc_units ctx unit_id = Some d" "p = dc_address_space d" "dyn_good (m p)"
    and "request_valid req" "\<And>fc payload. req \<noteq> SR_Custom fc payload"
    and "tp_request_timeout policy = None \<or> \<not> elapsed"
  shows "\<exists>r m'. execute_transport_request elapsed ord svc ctx unit_id tid (request_wire req @ rest) policy m =
      (Ok \<lparr>tx_function_code = SemanticRequest_function_code req, tx_unit_id = unit_id, tx_timed_out = False,
           tx_disposition = TD_Reply (ResponsePdu (reply_bytes (SemanticRequest_function_code req) r))\<rparr>, m') \<and>
    device_step (dyn_admits (m p)) req (dyn_view (m p)) = (r, dyn_view (m' p)) \<and> r \<noteq> Panic \<and>
    dyn_good (m' p) \<and> (\<forall>q. q \<noteq> p \<longrightarrow> m' q = m q)"
proof -
  let ?fc = "SemanticRequest_function_code req"
  let ?t = "target_of_device unit_id d"
  obtain payload where wire: "request_wire req @ rest = ?fc # payload" by (metis request_wire_hd append_Cons)
  have p: "rt_address_space ?t = p" using assms(3) by (simp add: target_of_device_def)
  obtain f where f: "FunctionCode_try_from ?fc = Ok f" using parse_standard_wire(2) [OF assms(5,6)] by blast
  have parse: "parse_semantic_request (?fc # payload) False = Ok req"
    using parse_standard_wire(1) [OF assms(5,6), of rest] wire by simp
  obtain m' r where run: "dispatch_request svc unit_id tid (?fc # payload) (ST_Unicast ?t) m =
      (Ok (case r of Err e \<Rightarrow> SO_Exception (SemanticFailure_exception_code e) | _ \<Rightarrow> SO_Reply (ResponsePdu (reply_bytes ?fc r))), m')"
    "dyn_good (m' p)" "r \<noteq> Panic" "device_step (dyn_admits (m p)) req (dyn_view (m p)) = (r, dyn_view (m' p))"
    "\<And>q. q \<noteq> p \<Longrightarrow> m' q = m q"
    using dispatch_unicast [of m ?t ?fc payload req f svc unit_id tid] assms(4,5) parse f unfolding p by metis
  have "execute_transport_request elapsed ord svc ctx unit_id tid (?fc # payload) policy m =
      (Ok \<lparr>tx_function_code = ?fc, tx_unit_id = unit_id, tx_timed_out = False,
           tx_disposition = TD_Reply (ResponsePdu (reply_bytes ?fc r))\<rparr>, m')"
    using assms(1,2,7) run(1,3)
    by (cases r) (auto simp: execute_transport_request_def Let_def ServerContext_target_for_unit_def
        ServerContext_device_def StandardModbusService_call_view_def ServiceRequestView_new_def reply_bytes_def)
  then show ?thesis using run wire by auto
qed


section \<open>Properties\<close>

text \<open>The broadcast loop, target by target.\<close>

lemma write_only_refines:
  assumes "dyn_good s" "request_valid req" "SemanticRequest_allows_broadcast req"
  obtains (written) s' where "execute_builtin_write_only dyn_AddressSpace req s = (Ok (), s')" "dyn_good s'"
      "\<exists>r. device_step (dyn_admits s) req (dyn_view s) = (Ok r, dyn_view s')"
  | (failed) "execute_builtin_write_only dyn_AddressSpace req s = (Err SF_IllegalDataAddress, s)"
      "device_step (dyn_admits s) req (dyn_view s) = (Err SF_IllegalDataAddress, dyn_view s)"
proof -
  obtain r where r: "broadcast_response req = Ok r" using assms(3) broadcast_response_exact by blast
  obtain x s' where x: "execute_builtin_write_only dyn_AddressSpace req s = (x, s')" by (meson surj_pair)
  have step: "refines_step dyn_good dyn_view dyn_admits s (execute_builtin dyn_AddressSpace req s)
      (device_step (dyn_admits s) req (dyn_view s))"
    by (rule shared.execute_refines [OF assms(1) request_valid_small [OF assms(2)]])
  have spec: "device_step (dyn_admits s) req (dyn_view s) = (y, v) \<Longrightarrow>
      (\<exists>r. y = Ok r) \<or> (y = Err SF_IllegalDataAddress \<and> v = dyn_view s)" for y v
    using assms(3) by (cases req) (auto simp: spec_write_def split: if_splits)
  have keep: "x = Err e \<Longrightarrow> s' = s" for e
  proof -
    have "run_write m () s = (Err e, s') \<Longrightarrow> s' = s" for m :: "(ModbusError, SharedAddressSpace) outcome"
      by (cases m) auto
    then show "x = Err e \<Longrightarrow> s' = s" using x assms(3) by (cases req) auto
  qed
  have exec: "execute_builtin dyn_AddressSpace req s =
      (case (x, s') of (Ok _, s) \<Rightarrow> (Ok r, s) | (Err e, s) \<Rightarrow> (Err e, s) | (Panic, s) \<Rightarrow> (Panic, s))"
    using execute_builtin_of_write [OF r, of dyn_AddressSpace s] x by simp
  have step': "device_step (dyn_admits s) req (dyn_view s) = (fst (execute_builtin dyn_AddressSpace req s), dyn_view s')"
    "dyn_good s'" using step exec by (cases x; simp add: refines_step_def)+
  show thesis
  proof (cases x)
    case (Ok u)
    then show thesis using written [of s'] x step' exec by auto
  next
    case (Err e)
    then show thesis using failed x step' exec keep [of e] spec by auto
  next
    case Panic
    then show thesis using step' exec spec by auto
  qed
qed

text \<open>A context with two units, whose registers are fresh dense stores.\<close>

definition sample_context :: ServerContext where
  "sample_context = snd (ServerContext_register (DeviceContext_new 1 ''one'' 1 WO_BigEndian)
     (snd (ServerContext_register (DeviceContext_new 2 ''two'' 2 WO_BigEndian) (ServerContext_new 0))))"

abbreviation sample_spaces :: spaces where
  "sample_spaces \<equiv> \<lambda>_. DenseSpace (RegisterStore_new 16 16 16 16)"

lemma sample_units [simp]:
  "sc_units sample_context 1 = Some (DeviceContext_new 1 ''one'' 1 WO_BigEndian)"
  "sc_units sample_context 2 = Some (DeviceContext_new 2 ''two'' 2 WO_BigEndian)"
  "sc_broadcast_policy sample_context = BP_WriteAll"
  "dom (sc_units sample_context) = {1, 2}"
  by (auto simp: sample_context_def ServerContext_register_def ServerContext_new_def DeviceContext_new_def split: if_splits)



lemma broadcast_loop_good:
  assumes "\<And>p. dyn_good (m p)" "request_valid req" "SemanticRequest_allows_broadcast req"
  shows "case broadcast_loop req ts m of (r, m') \<Rightarrow> r \<noteq> Panic \<and> (\<forall>p. dyn_good (m' p))"
  using assms(1)
proof (induction ts arbitrary: m)
  case (Cons t ts)
  show ?case
  proof (cases rule: write_only_refines [OF Cons.prems assms(2,3), of "rt_address_space t"])
    case (1 s')
    let ?m = "m(rt_address_space t := s')"
    have "dyn_good (?m p)" for p using 1(2) Cons.prems by simp
    then show ?thesis using Cons.IH [of ?m] 1(1) by (simp add: at_space_def del: fun_upd_apply)
  next
    case 2
    then show ?thesis using Cons.prems by (simp add: at_space_def)
  qed
qed simp

lemma broadcast_response_not_custom: "broadcast_response req = Ok r \<Longrightarrow> r \<noteq> SP_Custom p"
  by (cases req) auto

lemma parse_accepts:
  assumes "parse_semantic_request (fc # payload) b = m"
  shows "m \<noteq> Panic" "m = Ok req \<Longrightarrow> request_valid req \<and> (b \<longrightarrow> SemanticRequest_allows_broadcast req)"
  using parse_by_function_sound [of fc payload] assms
  by (auto simp: parse_semantic_request_def parse_sound_def obind_eq_Panic_iff obind_eq_Ok_iff split: if_splits)

lemma dispatch_broadcast:
  assumes "\<And>p. dyn_good (m p)" "FunctionCode_try_from fc = Ok f"
  shows "\<exists>o' m'. dispatch_request svc u tid (fc # payload) (ST_Broadcast ts) m = (Ok o', m') \<and> o' \<noteq> SO_Ignore \<and>
    (\<forall>p. dyn_good (m' p))"
proof (cases "parse_semantic_request (fc # payload) True")
  case (Ok req)
  note valid = parse_accepts(2) [OF refl, OF Ok, simplified]
  obtain r m' where loop: "broadcast_loop req ts m = (r, m')" by (meson surj_pair)
  then have r: "r \<noteq> Panic" "\<forall>p. dyn_good (m' p)" using broadcast_loop_good [of m req ts, OF assms(1)] valid by auto
  obtain x where x: "broadcast_response req = Ok x" using valid broadcast_response_exact by blast
  have "SemanticResponse_encode x = Ok (ResponsePdu (response_payload x))"
    using broadcast_response_not_custom [OF x] by (intro encode_payload) auto
  then show ?thesis using Ok assms(2) loop r x
    by (cases r) (auto simp: dispatch_request_def is_broadcast_targets_def execute_broadcast_def)
next
  case (Err e)
  then show ?thesis using assms by (simp add: dispatch_request_def is_broadcast_targets_def)
next
  case Panic
  then show ?thesis using parse_accepts(1) [OF refl, of fc payload True] by simp
qed

lemma dispatch_unicast_total:
  assumes "\<And>p. dyn_good (m p)" "FunctionCode_try_from fc = Ok f"
  shows "\<exists>o' m'. dispatch_request svc u tid (fc # payload) (ST_Unicast t) m = (Ok o', m') \<and> o' \<noteq> SO_Ignore \<and>
    (\<forall>p. dyn_good (m' p))"
proof (cases "parse_semantic_request (fc # payload) False")
  case (Ok req)
  note valid = parse_accepts(2) [OF refl, OF Ok, simplified]
  obtain m' r where run: "dispatch_request svc u tid (fc # payload) (ST_Unicast t) m =
      (Ok (case r of Err e \<Rightarrow> SO_Exception (SemanticFailure_exception_code e) | _ \<Rightarrow> SO_Reply (ResponsePdu (reply_bytes fc r))), m')"
    "dyn_good (m' (rt_address_space t))" "\<And>p. p \<noteq> rt_address_space t \<Longrightarrow> m' p = m p"
    using dispatch_unicast [of m t fc payload req f svc u tid] assms Ok valid by metis
  then have "dyn_good (m' p)" for p using assms(1) [of p] by (cases "p = rt_address_space t") auto
  then show ?thesis using run(1) by (cases r) auto
next
  case (Err e)
  then show ?thesis using assms by (simp add: dispatch_request_def is_broadcast_targets_def)
next
  case Panic
  then show ?thesis using parse_accepts(1) [OF refl, of fc payload False] by simp
qed

lemma dispatch_total:
  assumes "\<And>p. dyn_good (m p)" "sm_custom_extensions svc = None" "pdu \<noteq> []"
  shows "\<exists>o' m'. dispatch_request svc u tid pdu ts m = (Ok o', m') \<and> o' \<noteq> SO_Ignore \<and> (\<forall>p. dyn_good (m' p))"
proof -
  obtain fc payload where pdu: "pdu = fc # payload" using assms(3) by (cases pdu) auto
  show ?thesis
  proof (cases "FunctionCode_try_from fc")
    case (Ok f)
    then show ?thesis using dispatch_broadcast [OF assms(1) Ok, of svc u tid payload]
        dispatch_unicast_total [OF assms(1) Ok, of svc u tid payload] by (cases ts) (auto simp: pdu)
  qed (use assms pdu in \<open>auto simp: dispatch_request_def dispatch_custom_raw_def is_broadcast_targets_def\<close>)
qed



end
