(* ===== verification/Modbus_Tcp.thy ===== *)
theory Modbus_Tcp
  imports Modbus_Service Wire_Codec
begin

text \<open>
  Modbus TCP, \<^verbatim>\<open>mabi-modbus/src/tcp\<close>: the MBAP header and frame, the decoder and the encoder
  of the codec (\<^verbatim>\<open>codec.rs\<close>), and the request loop of a connection without fault injection
  (\<^verbatim>\<open>server.rs\<close>). The text of an error is left out.
\<close>

section \<open>Header and frame\<close>

definition MBAP_HEADER_SIZE :: usize where
  "MBAP_HEADER_SIZE = 7"

definition MAX_MBAP_LENGTH :: u16 where
  "MAX_MBAP_LENGTH = 253"

definition MAX_PDU_SIZE :: usize where
  "MAX_PDU_SIZE = 253"

record MbapHeader =
  mh_transaction_id :: u16
  mh_protocol_id :: u16
  mh_length :: u16
  mh_unit_id :: u8

definition MbapHeader_new :: "u16 \<Rightarrow> u8 \<Rightarrow> usize \<Rightarrow> MbapHeader" where
  "MbapHeader_new transaction_id unit_id pdu_length =
     \<lparr>mh_transaction_id = transaction_id, mh_protocol_id = 0, mh_length = as_u16 (pdu_length + 1), mh_unit_id = unit_id\<rparr>"

definition MbapHeader_parse :: "bytes \<Rightarrow> (ModbusError, MbapHeader) outcome" where
  "MbapHeader_parse bytes =
    (if length bytes < MBAP_HEADER_SIZE then Err (ME_InvalidData ''MBAP header too short'')
     else obind (be16_at bytes 0) (\<lambda>transaction_id. obind (be16_at bytes 2) (\<lambda>protocol_id.
          obind (be16_at bytes 4) (\<lambda>length. obind (idx bytes 6) (\<lambda>unit_id.
            if protocol_id \<noteq> 0 then Err (ME_InvalidData ''Invalid protocol ID'')
            else if length = 0 \<or> MAX_MBAP_LENGTH < length then Err (ME_InvalidData ''Invalid MBAP length'')
            else Ok \<lparr>mh_transaction_id = transaction_id, mh_protocol_id = protocol_id, mh_length = length,
                   mh_unit_id = unit_id\<rparr>)))))"

definition MbapHeader_encode :: "buf_api \<Rightarrow> MbapHeader \<Rightarrow> bytes \<Rightarrow> bytes" where
  "MbapHeader_encode B h buf =
    (let buf = api_put_u16 B buf (mh_transaction_id h);
         buf = api_put_u16 B buf (mh_protocol_id h);
         buf = api_put_u16 B buf (mh_length h)
     in api_put_u8 B buf (mh_unit_id h))"

definition MbapHeader_pdu_length :: "MbapHeader \<Rightarrow> usize" where
  "MbapHeader_pdu_length h = unat (mh_length h) - 1"

definition MbapHeader_total_frame_length :: "MbapHeader \<Rightarrow> usize" where
  "MbapHeader_total_frame_length h = MBAP_HEADER_SIZE + MbapHeader_pdu_length h"

record MbapFrame =
  mf_header :: MbapHeader
  mf_pdu :: bytes

definition MbapFrame_new :: "u16 \<Rightarrow> u8 \<Rightarrow> bytes \<Rightarrow> MbapFrame" where
  "MbapFrame_new transaction_id unit_id pdu =
     \<lparr>mf_header = MbapHeader_new transaction_id unit_id (length pdu), mf_pdu = pdu\<rparr>"

definition MbapFrame_response :: "MbapFrame \<Rightarrow> bytes \<Rightarrow> MbapFrame" where
  "MbapFrame_response request response_pdu =
     MbapFrame_new (mh_transaction_id (mf_header request)) (mh_unit_id (mf_header request)) response_pdu"

definition MbapFrame_encode :: "buf_api \<Rightarrow> MbapFrame \<Rightarrow> bytes \<Rightarrow> bytes" where
  "MbapFrame_encode B f buf = api_put_slice B (MbapHeader_encode B (mf_header f) buf) (mf_pdu f)"

definition MbapFrame_to_bytes :: "buf_api \<Rightarrow> MbapFrame \<Rightarrow> bytes" where
  "MbapFrame_to_bytes B f = MbapFrame_encode B f []"


section \<open>The codec\<close>

datatype DecodeState = WaitingForHeader | WaitingForPdu MbapHeader

text \<open>A call returns its result, the state of the codec and what is left in the buffer.\<close>

type_synonym decoded = "(ModbusError, MbapFrame option) outcome \<times> DecodeState \<times> bytes"

definition decode_pdu :: "buf_api \<Rightarrow> MbapHeader \<Rightarrow> bytes \<Rightarrow> decoded" where
  "decode_pdu B header src =
    (let total_len = MbapHeader_total_frame_length header in
     if length src < total_len then (Ok None, WaitingForPdu header, src)
     else case advance B MBAP_HEADER_SIZE src of
       Ok src' \<Rightarrow>
        (case split_to B (MbapHeader_pdu_length header) src' of
           Ok (pdu, rest) \<Rightarrow> (Ok (Some \<lparr>mf_header = header, mf_pdu = pdu\<rparr>), WaitingForHeader, rest)
         | Err e \<Rightarrow> (Err e, WaitingForPdu header, src')
         | Panic \<Rightarrow> (Panic, WaitingForPdu header, src'))
     | Err e \<Rightarrow> (Err e, WaitingForPdu header, src)
     | Panic \<Rightarrow> (Panic, WaitingForPdu header, src))"

definition MbapCodec_decode :: "buf_api \<Rightarrow> DecodeState \<Rightarrow> bytes \<Rightarrow> decoded" where
  "MbapCodec_decode B state src =
    (case state of
       WaitingForPdu header \<Rightarrow> decode_pdu B header src
     | WaitingForHeader \<Rightarrow>
         if length src < MBAP_HEADER_SIZE then (Ok None, WaitingForHeader, src)
         else case obind (slice_to src MBAP_HEADER_SIZE) MbapHeader_parse of
           Ok header \<Rightarrow>
            (let pdu_len = MbapHeader_pdu_length header in
             if pdu_len = 0 then (Err (ME_InvalidData ''PDU length cannot be zero''), WaitingForHeader, src)
             else if MAX_PDU_SIZE < pdu_len then (Err (ME_InvalidData ''PDU length too large''), WaitingForHeader, src)
             else decode_pdu B header src)
         | Err e \<Rightarrow> (Err e, WaitingForHeader, src)
         | Panic \<Rightarrow> (Panic, WaitingForHeader, src))"

definition MbapCodec_encode :: "buf_api \<Rightarrow> MbapFrame \<Rightarrow> bytes \<Rightarrow> (ModbusError, bytes) outcome" where
  "MbapCodec_encode B item dst =
    (if mf_pdu item = [] then Err (ME_InvalidData ''PDU cannot be empty'')
     else if MAX_PDU_SIZE < length (mf_pdu item) then Err (ME_InvalidData ''PDU too large'')
     else Ok (MbapFrame_encode B item dst))"


section \<open>A stream of frames\<close>

text \<open>
  The transport reads the bytes of a connection in chunks of any size; after each chunk the
  decoder is called until it needs more. \<open>drain\<close> has enough fuel with the length of the buffer,
  because a frame takes at least eight bytes from it.
\<close>

fun drain :: "buf_api \<Rightarrow> nat \<Rightarrow> DecodeState \<Rightarrow> bytes \<Rightarrow> MbapFrame list \<times> DecodeState \<times> bytes" where
  "drain B 0 st buf = ([], st, buf)"
| "drain B (Suc n) st buf =
    (case MbapCodec_decode B st buf of
       (Ok (Some f), st, buf) \<Rightarrow> (case drain B n st buf of (fs, st, buf) \<Rightarrow> (f # fs, st, buf))
     | (_, st, buf) \<Rightarrow> ([], st, buf))"

fun receive_chunks :: "buf_api \<Rightarrow> bytes list \<Rightarrow> DecodeState \<Rightarrow> bytes \<Rightarrow> MbapFrame list \<times> DecodeState \<times> bytes" where
  "receive_chunks B [] st buf = ([], st, buf)"
| "receive_chunks B (c # cs) st buf =
    (case drain B (length (buf @ c)) st (buf @ c) of (fs, st, buf) \<Rightarrow>
     case receive_chunks B cs st buf of (gs, st, buf) \<Rightarrow> (fs @ gs, st, buf))"

definition frame_ok :: "MbapFrame \<Rightarrow> bool" where
  "frame_ok f \<longleftrightarrow> 1 \<le> length (mf_pdu f) \<and> length (mf_pdu f) \<le> 252 \<and> mh_protocol_id (mf_header f) = 0 \<and>
     unat (mh_length (mf_header f)) = length (mf_pdu f) + 1"

lemma frame_ok_new: "1 \<le> length pdu \<Longrightarrow> length pdu \<le> 252 \<Longrightarrow> frame_ok (MbapFrame_new tid u pdu)"
  using unat_as_u16 [of "length pdu + 1"] by (simp add: frame_ok_def MbapFrame_new_def MbapHeader_new_def)

definition header_bytes :: "MbapHeader \<Rightarrow> bytes" where
  "header_bytes h = u16_to_be (mh_transaction_id h) @ u16_to_be (mh_protocol_id h) @ u16_to_be (mh_length h) @ [mh_unit_id h]"

definition wire :: "MbapFrame \<Rightarrow> bytes" where
  "wire f = header_bytes (mf_header f) @ mf_pdu f"

lemma length_header_bytes [simp]: "length (header_bytes h) = 7"
  by (simp add: header_bytes_def)

lemma length_wire [simp]: "length (wire f) = 7 + length (mf_pdu f)"
  by (simp add: wire_def)

lemma parse_header_bytes:
  assumes "mh_protocol_id h = 0" "1 \<le> unat (mh_length h)" "unat (mh_length h) \<le> 253"
  shows "MbapHeader_parse (header_bytes h) = Ok h"
proof -
  have "mh_length h \<noteq> 0" "\<not> 253 < mh_length h" using assms(2,3) by (auto simp: word_less_nat_alt)
  then show ?thesis using assms(1)
    by (simp add: MbapHeader_parse_def header_bytes_def u16_to_be_def be16_at_def idx_def MBAP_HEADER_SIZE_def
        MAX_MBAP_LENGTH_def)
qed

text \<open>The header kept by the codec is the one at the front of the buffer.\<close>

definition codec_inv :: "DecodeState \<Rightarrow> bytes \<Rightarrow> bool" where
  "codec_inv st buf \<longleftrightarrow> (\<forall>h. st = WaitingForPdu h \<longrightarrow> 7 \<le> length buf \<and> MbapHeader_parse (take 7 buf) = Ok h)"

context bytes_crate
begin

lemma to_bytes_wire: "MbapFrame_to_bytes B f = wire f"
  by (simp add: MbapFrame_to_bytes_def MbapFrame_encode_def MbapHeader_encode_def wire_def header_bytes_def Let_def
      put_u8 put_u16 put_slice)

lemma decode_wire:
  assumes "codec_inv st (wire f @ rest)" "frame_ok f"
  shows "MbapCodec_decode B st (wire f @ rest) = (Ok (Some f), WaitingForHeader, rest)"
proof -
  have hdr: "MbapHeader_parse (take 7 (wire f @ rest)) = Ok (mf_header f)"
    using assms(2) parse_header_bytes [of "mf_header f"] by (simp add: wire_def frame_ok_def)
  have len: "MbapHeader_pdu_length (mf_header f) = length (mf_pdu f)" using assms(2)
    by (simp add: MbapHeader_pdu_length_def frame_ok_def)
  have "decode_pdu B (mf_header f) (wire f @ rest) = (Ok (Some f), WaitingForHeader, rest)"
    by (simp add: decode_pdu_def MbapHeader_total_frame_length_def len advance split_to wire_def MBAP_HEADER_SIZE_def Let_def)
  then show ?thesis using assms hdr len
    by (cases st) (auto simp: MbapCodec_decode_def codec_inv_def slice_to_def MBAP_HEADER_SIZE_def MAX_PDU_SIZE_def
        frame_ok_def Let_def)
qed

lemma decode_partial:
  assumes "codec_inv st buf" "frame_ok f" "buf @ later = wire f @ rest" "length buf < length (wire f)"
  obtains st' where "MbapCodec_decode B st buf = (Ok None, st', buf)" "codec_inv st' buf"
proof (cases "length buf < 7")
  case True
  then have "st = WaitingForHeader" using assms(1) by (cases st) (auto simp: codec_inv_def)
  then show thesis using True that [of WaitingForHeader]
    by (simp add: MbapCodec_decode_def MBAP_HEADER_SIZE_def codec_inv_def)
next
  case False
  have "take 7 buf = take 7 (wire f @ rest)" using False assms(3) [symmetric] by simp
  then have hdr: "MbapHeader_parse (take 7 buf) = Ok (mf_header f)"
    using assms(2) parse_header_bytes [of "mf_header f"] by (simp add: wire_def frame_ok_def)
  have len: "MbapHeader_pdu_length (mf_header f) = length (mf_pdu f)" using assms(2)
    by (simp add: MbapHeader_pdu_length_def frame_ok_def)
  have "decode_pdu B (mf_header f) buf = (Ok None, WaitingForPdu (mf_header f), buf)"
    using assms(4) by (simp add: decode_pdu_def MbapHeader_total_frame_length_def len MBAP_HEADER_SIZE_def Let_def)
  then have "MbapCodec_decode B st buf = (Ok None, WaitingForPdu (mf_header f), buf)"
    using assms(1,2) hdr len False
    by (cases st) (auto simp: MbapCodec_decode_def codec_inv_def slice_to_def MBAP_HEADER_SIZE_def MAX_PDU_SIZE_def
        frame_ok_def Let_def)
  then show thesis using that [of "WaitingForPdu (mf_header f)"] hdr False by (simp add: codec_inv_def)
qed

lemma drain_stream:
  assumes "codec_inv st buf" "\<forall>f\<in>set fs. frame_ok f" "buf @ later = concat (map wire fs)" "length buf \<le> n"
  shows "\<exists>fs1 fs2 st' buf'. fs = fs1 @ fs2 \<and> drain B n st buf = (fs1, st', buf') \<and> codec_inv st' buf' \<and>
    buf' @ later = concat (map wire fs2) \<and> (fs2 \<noteq> [] \<longrightarrow> length buf' < length (wire (hd fs2)))"
  using assms
proof (induction n arbitrary: st buf fs)
  case 0
  then show ?case by (intro exI [of _ "[]"] exI [of _ fs]) (cases fs; simp add: codec_inv_def)
next
  case (Suc n)
  show ?case
  proof (cases fs)
    case Nil
    then have "buf = []" using Suc.prems(3) by simp
    then have "st = WaitingForHeader" using Suc.prems(1) by (cases st) (auto simp: codec_inv_def)
    then show ?thesis using Nil Suc.prems(3) \<open>buf = []\<close>
      by (simp add: MbapCodec_decode_def MBAP_HEADER_SIZE_def codec_inv_def)
  next
    case (Cons f fs')
    then have f: "frame_ok f" and fs': "\<forall>f\<in>set fs'. frame_ok f" and
      stream: "buf @ later = wire f @ concat (map wire fs')" using Suc.prems by auto
    show ?thesis
    proof (cases "length buf < length (wire f)")
      case True
      obtain st' where "MbapCodec_decode B st buf = (Ok None, st', buf)" "codec_inv st' buf"
        using decode_partial [OF Suc.prems(1) f stream True] .
      then show ?thesis using True Suc.prems(3) Cons
        by (intro exI [of _ "[]"] exI [of _ fs] exI [of _ st'] exI [of _ buf]) simp
    next
      case False
      define buf' where "buf' = drop (length (wire f)) buf"
      have "take (length (wire f)) buf = wire f"
        using arg_cong [OF stream, of "take (length (wire f))"] False by simp
      then have buf1: "buf = wire f @ buf'" by (metis append_take_drop_id buf'_def)
      moreover have "buf' @ later = concat (map wire fs')" using stream by (simp add: buf1)
      ultimately have buf: "buf = wire f @ buf'" "buf' @ later = concat (map wire fs')" by auto
      have dec: "MbapCodec_decode B st buf = (Ok (Some f), WaitingForHeader, buf')"
        using decode_wire [of st f buf'] Suc.prems(1) f buf(1) by simp
      have "codec_inv WaitingForHeader buf'" "length buf' \<le> n"
        using Suc.prems(4) f buf(1) by (auto simp: codec_inv_def frame_ok_def)
      from Suc.IH [OF this(1) fs' buf(2) this(2)]
      obtain fs1 fs2 st' buf'' where "fs' = fs1 @ fs2" "drain B n WaitingForHeader buf' = (fs1, st', buf'')"
        "codec_inv st' buf''" "buf'' @ later = concat (map wire fs2)" "fs2 \<noteq> [] \<longrightarrow> length buf'' < length (wire (hd fs2))"
        by blast
      then show ?thesis using dec Cons
        by (intro exI [of _ "f # fs1"] exI [of _ fs2] exI [of _ st'] exI [of _ buf'']) simp
    qed
  qed
qed

lemma receive_stream:
  assumes "codec_inv st buf" "\<forall>f\<in>set fs. frame_ok f" "buf @ concat cs = concat (map wire fs)"
    and "fs \<noteq> [] \<longrightarrow> length buf < length (wire (hd fs))"
  shows "receive_chunks B cs st buf = (fs, WaitingForHeader, [])"
  using assms
proof (induction cs arbitrary: st buf fs)
  case Nil
  have "fs = []" using Nil.prems(3,4) by (cases fs) (auto simp: wire_def)
  then have "buf = []" using Nil.prems(3) by simp
  then have "st = WaitingForHeader" using Nil.prems(1) by (cases st) (auto simp: codec_inv_def)
  then show ?case using \<open>fs = []\<close> \<open>buf = []\<close> by simp
next
  case (Cons c cs)
  have inv: "codec_inv st (buf @ c)" using Cons.prems(1) by (auto simp: codec_inv_def)
  obtain fs1 fs2 st' buf' where d: "fs = fs1 @ fs2" "drain B (length (buf @ c)) st (buf @ c) = (fs1, st', buf')"
    "codec_inv st' buf'" "buf' @ concat cs = concat (map wire fs2)" "fs2 \<noteq> [] \<longrightarrow> length buf' < length (wire (hd fs2))"
    using drain_stream [OF inv Cons.prems(2), of "concat cs" "length (buf @ c)"] Cons.prems(3) by auto
  have "receive_chunks B cs st' buf' = (fs2, WaitingForHeader, [])"
    using Cons.IH [OF d(3) _ d(4,5)] Cons.prems(2) d(1) by simp
  then show ?case using d by simp
qed

end


section \<open>The request loop of a connection\<close>

text \<open>
  One pass of the loop for a received frame, with no fault pipeline and no connection disruption: what is sent
  back, and whether the connection stays open. \<open>timeout\<close> is the request timeout of the
  performance preset and \<open>elapsed\<close> whether it expires for this request.
\<close>

definition tcp_policy :: "nat option \<Rightarrow> TransportServicePolicy" where
  "tcp_policy timeout =
     (TransportServicePolicy_new (UU_Exception EC_GatewayTargetDeviceFailedToRespond))\<lparr>tp_request_timeout := timeout\<rparr>"

definition send_tcp_response :: "buf_api \<Rightarrow> MbapFrame \<Rightarrow> bytes \<Rightarrow> (ModbusError, bytes) outcome" where
  "send_tcp_response B request_frame response_pdu =
     MbapCodec_encode B (MbapFrame_response request_frame response_pdu) []"

datatype sent = Sent bytes | SentNothing | Closed

definition handle_frame :: "buf_api \<Rightarrow> bool \<Rightarrow> u8 list \<Rightarrow> StandardModbusService \<Rightarrow> ServerContext \<Rightarrow> nat option \<Rightarrow>
    MbapFrame \<Rightarrow> spaces \<Rightarrow> sent \<times> spaces" where
  "handle_frame B elapsed ord svc ctx timeout frame m =
    (case execute_transport_request elapsed ord svc ctx (mh_unit_id (mf_header frame))
            (mh_transaction_id (mf_header frame)) (mf_pdu frame) (tcp_policy timeout) m of
       (Ok execution, m) \<Rightarrow>
        (case tx_disposition execution of
           TD_Ignore \<Rightarrow> (SentNothing, m)
         | TD_BroadcastSuppressed _ \<Rightarrow> (SentNothing, m)
         | TD_Reply response \<Rightarrow>
            (case send_tcp_response B frame (response_bytes response) of
               Ok bytes \<Rightarrow> (Sent bytes, m)
             | _ \<Rightarrow> (Closed, m)))
     | (_, m) \<Rightarrow> (Closed, m))"

fun handle_frames :: "buf_api \<Rightarrow> bool \<Rightarrow> u8 list \<Rightarrow> StandardModbusService \<Rightarrow> ServerContext \<Rightarrow> nat option \<Rightarrow>
    MbapFrame list \<Rightarrow> spaces \<Rightarrow> bytes list \<times> spaces" where
  "handle_frames B elapsed ord svc ctx timeout [] m = ([], m)"
| "handle_frames B elapsed ord svc ctx timeout (f # fs) m =
    (case handle_frame B elapsed ord svc ctx timeout f m of
       (Sent bs, m) \<Rightarrow> (case handle_frames B elapsed ord svc ctx timeout fs m of (out, m) \<Rightarrow> (bs # out, m))
     | (SentNothing, m) \<Rightarrow> handle_frames B elapsed ord svc ctx timeout fs m
     | (Closed, m) \<Rightarrow> ([], m))"

definition tcp_connection :: "buf_api \<Rightarrow> bool \<Rightarrow> u8 list \<Rightarrow> StandardModbusService \<Rightarrow> ServerContext \<Rightarrow> nat option \<Rightarrow>
    bytes list \<Rightarrow> spaces \<Rightarrow> bytes list \<times> spaces" where
  "tcp_connection B elapsed ord svc ctx timeout chunks m =
     handle_frames B elapsed ord svc ctx timeout (fst (receive_chunks B chunks WaitingForHeader [])) m"

text \<open>What a client gets for a sequence of requests, each with its transaction and its unit.\<close>

inductive tcp_session :: "ServerContext \<Rightarrow> (u16 \<times> u8 \<times> SemanticRequest) list \<Rightarrow> spaces \<Rightarrow> bytes list \<Rightarrow> spaces \<Rightarrow> bool"
  for ctx where
  session_end: "tcp_session ctx [] m [] m"
| session_request: "tcp_session ctx ((tid, u, req) # reqs) m
      (wire (MbapFrame_new tid u (reply_bytes (SemanticRequest_function_code req) r)) # out) m''"
    if "sc_units ctx u = Some d" "device_step (dyn_admits (m (dc_address_space d))) req (dyn_view (m (dc_address_space d))) =
          (r, dyn_view (m' (dc_address_space d)))"
      "\<And>p. p \<noteq> dc_address_space d \<Longrightarrow> m' p = m p" "tcp_session ctx reqs m' out m''"

inductive_simps tcp_session_Nil: "tcp_session ctx [] m out m'"

definition request_frame :: "u16 \<times> u8 \<times> SemanticRequest \<Rightarrow> MbapFrame" where
  "request_frame q = (case q of (tid, u, req) \<Rightarrow> MbapFrame_new tid u (request_wire req))"

definition standard_request :: "ServerContext \<Rightarrow> u16 \<times> u8 \<times> SemanticRequest \<Rightarrow> bool" where
  "standard_request ctx q = (case q of (tid, u, req) \<Rightarrow> u \<noteq> 0 \<and> sc_units ctx u \<noteq> None \<and> request_valid req \<and>
     (\<forall>fc payload. req \<noteq> SR_Custom fc payload))"

lemma length_request_wire:
  "request_valid req \<Longrightarrow> (\<And>fc payload. req \<noteq> SR_Custom fc payload) \<Longrightarrow> 1 \<le> length (request_wire req) \<and> length (request_wire req) \<le> 252"
proof -
  assume valid: "request_valid req" and std: "\<And>fc payload. req \<noteq> SR_Custom fc payload"
  have bytes: "(n + 7) div 8 \<le> 246" if "n \<le> 1968" for n :: nat using that by linarith
  show ?thesis using valid std bytes by (cases req) (auto simp: span_ok_def)
qed

lemma reply_bytes_size:
  assumes "device_step adm req v = (r, v')" "request_valid req"
  shows "1 \<le> length (reply_bytes fc r) \<and> length (reply_bytes fc r) \<le> 253"
proof (cases r)
  case (Ok x)
  then have "encodes_as req x" using device_step_encodes [of adm req v x v'] assms by simp
  moreover have "SemanticResponse_encode x = Ok (ResponsePdu (response_payload x))"
    using device_step_result [OF assms(1)] Ok by (intro encode_payload) auto
  ultimately show ?thesis using Ok by (auto simp: encodes_as_def reply_bytes_def)
next
  case (Err f)
  then show ?thesis by (simp add: reply_bytes_def build_exception_pdu_def ExceptionResponse_to_pdu_def)
next
  case Panic
  then show ?thesis using device_step_result [OF assms(1)] by simp
qed

context bytes_crate
begin

lemma handle_request_frame:
  assumes "standard_request ctx (tid, u, req)" "sc_units ctx u = Some d" "\<And>p. dyn_good (m p)"
    and "timeout = None \<or> \<not> elapsed"
  obtains r m' where "handle_frame B elapsed ord svc ctx timeout (request_frame (tid, u, req)) m =
      (Sent (wire (MbapFrame_new tid u (reply_bytes (SemanticRequest_function_code req) r))), m')"
    "device_step (dyn_admits (m (dc_address_space d))) req (dyn_view (m (dc_address_space d))) =
       (r, dyn_view (m' (dc_address_space d)))"
    "\<And>p. p \<noteq> dc_address_space d \<Longrightarrow> m' p = m p" "\<And>p. dyn_good (m' p)"
proof -
  let ?p = "dc_address_space d"
  have std: "u \<noteq> 0" "request_valid req" "\<And>fc payload. req \<noteq> SR_Custom fc payload"
    using assms(1) by (auto simp: standard_request_def)
  have tmo: "tp_request_timeout (tcp_policy timeout) = None \<or> \<not> elapsed"
    using assms(4) by (simp add: tcp_policy_def TransportServicePolicy_new_def)
  obtain r m' where run: "execute_transport_request elapsed ord svc ctx u tid (request_wire req @ []) (tcp_policy timeout) m =
      (Ok \<lparr>tx_function_code = SemanticRequest_function_code req, tx_unit_id = u, tx_timed_out = False,
           tx_disposition = TD_Reply (ResponsePdu (reply_bytes (SemanticRequest_function_code req) r))\<rparr>, m')"
    "device_step (dyn_admits (m ?p)) req (dyn_view (m ?p)) = (r, dyn_view (m' ?p))" "dyn_good (m' ?p)"
    "\<forall>q. q \<noteq> ?p \<longrightarrow> m' q = m q"
    using transport_unicast [where m = m, OF std(1) assms(2) refl assms(3) std(2,3) tmo, of ord svc tid "[]"] by blast
  have size: "1 \<le> length (reply_bytes (SemanticRequest_function_code req) r)"
    "length (reply_bytes (SemanticRequest_function_code req) r) \<le> 253"
    using reply_bytes_size [OF run(2) std(2)] by auto
  have "send_tcp_response B (request_frame (tid, u, req)) (reply_bytes (SemanticRequest_function_code req) r) =
      Ok (wire (MbapFrame_new tid u (reply_bytes (SemanticRequest_function_code req) r)))"
    using size to_bytes_wire
    by (auto simp: send_tcp_response_def MbapCodec_encode_def MbapFrame_response_def request_frame_def MbapFrame_new_def
        MbapHeader_new_def MAX_PDU_SIZE_def MbapFrame_to_bytes_def)
  moreover have "dyn_good (m' p)" for p using run(3,4) assms(3) [of p] by (cases "p = ?p") auto
  ultimately show thesis using run
    by (intro that [of r m']) (auto simp: handle_frame_def request_frame_def MbapFrame_new_def MbapHeader_new_def)
qed

lemma handle_request_frames:
  assumes "list_all (standard_request ctx) reqs" "\<And>p. dyn_good (m p)" "timeout = None \<or> \<not> elapsed"
  shows "\<exists>out m'. handle_frames B elapsed ord svc ctx timeout (map request_frame reqs) m = (out, m') \<and>
    tcp_session ctx reqs m out m' \<and> length out = length reqs"
  using assms(1,2)
proof (induction reqs arbitrary: m)
  case Nil
  then show ?case by (simp add: session_end)
next
  case (Cons q reqs)
  obtain tid u req where q: "q = (tid, u, req)" by (cases q) auto
  then obtain d where d: "sc_units ctx u = Some d" using Cons.prems(1) by (auto simp: standard_request_def)
  obtain r m' where step: "handle_frame B elapsed ord svc ctx timeout (request_frame (tid, u, req)) m =
      (Sent (wire (MbapFrame_new tid u (reply_bytes (SemanticRequest_function_code req) r))), m')"
    "device_step (dyn_admits (m (dc_address_space d))) req (dyn_view (m (dc_address_space d))) =
       (r, dyn_view (m' (dc_address_space d)))"
    "\<And>p. p \<noteq> dc_address_space d \<Longrightarrow> m' p = m p" "\<And>p. dyn_good (m' p)"
    using handle_request_frame [where m = m, OF _ d Cons.prems(2) assms(3), of tid req ord svc] Cons.prems(1) q
    by (metis list.pred_inject(2))
  obtain out m'' where rest: "handle_frames B elapsed ord svc ctx timeout (map request_frame reqs) m' = (out, m'')"
    "tcp_session ctx reqs m' out m''" "length out = length reqs"
    using Cons.IH [of m'] Cons.prems(1) step(4) by auto
  show ?case using step(1) rest session_request [OF d step(2,3) rest(2)] q by auto
qed

end


section \<open>Properties\<close>



text \<open>
  The limits of the two directions differ: a frame with a data unit of 253 bytes, the maximum of
  the encoder, is encoded, and the decoder rejects its header.
\<close>
theorem mbap_limit_mismatch:
  assumes "bytes_crate B" "length pdu = 253"
  shows "\<exists>e. MbapCodec_encode B (MbapFrame_new tid u pdu) [] = Ok (MbapFrame_to_bytes B (MbapFrame_new tid u pdu)) \<and>
    MbapCodec_decode B WaitingForHeader (MbapFrame_to_bytes B (MbapFrame_new tid u pdu)) =
      (Err e, WaitingForHeader, MbapFrame_to_bytes B (MbapFrame_new tid u pdu))"
proof -
  let ?f = "MbapFrame_new tid u pdu"
  have wire: "MbapFrame_to_bytes B ?f = header_bytes (MbapHeader_new tid u 253) @ pdu"
    using assms by (simp add: bytes_crate.to_bytes_wire wire_def MbapFrame_new_def)
  have "MbapHeader_parse (header_bytes (MbapHeader_new tid u 253)) = Err (ME_InvalidData ''Invalid MBAP length'')"
    by (simp add: MbapHeader_parse_def header_bytes_def MbapHeader_new_def u16_to_be_def be16_at_def idx_def
        MBAP_HEADER_SIZE_def MAX_MBAP_LENGTH_def)
  then have "MbapCodec_decode B WaitingForHeader (MbapFrame_to_bytes B ?f) =
      (Err (ME_InvalidData ''Invalid MBAP length''), WaitingForHeader, MbapFrame_to_bytes B ?f)"
    by (simp add: wire MbapCodec_decode_def MBAP_HEADER_SIZE_def slice_to_def)
  moreover have "MbapCodec_encode B ?f [] = Ok (MbapFrame_to_bytes B ?f)"
    using assms(2) by (auto simp: MbapCodec_encode_def MbapFrame_new_def MbapFrame_to_bytes_def MAX_PDU_SIZE_def)
  ultimately show ?thesis by blast
qed

theorem mbap_limit_mismatch_witness:
  "\<exists>e. MbapCodec_decode std_buf WaitingForHeader (MbapFrame_to_bytes std_buf (MbapFrame_new 1 1 (replicate 253 0x41))) =
      (Err e, WaitingForHeader, MbapFrame_to_bytes std_buf (MbapFrame_new 1 1 (replicate 253 0x41)))"
  using mbap_limit_mismatch [OF bytes_crate_std, of "replicate 253 0x41" 1 1] by auto



end
