(* ===== verification/Spec2Isabelle.thy ===== *)
theory Spec2Isabelle
  imports Knx_Group Knx_Monitor Knx_Dib Modbus_Tcp
begin

text \<open>
  Verification of the protocol cores of the Mabinogion industrial simulator.

  The program is a set of Rust crates that simulate field devices over Modbus, BACnet,
  KNXnet/IP and OPC UA. This development models the parts that read and write untrusted
  bytes and the state machines and stores behind them, from the bytes of a connection to the
  registers of a device for Modbus, and from the datagram to the tunnel state for KNXnet/IP.
\<close>

end
